(* ===== verification/Prelude.thy ===== *)
theory Prelude
  imports Main "HOL-Library.Word" "HOL-Library.Product_Lexorder" "HOL-Library.Char_ord"
    "HOL-Library.List_Lexorder"
begin

text \<open>
  Shared vocabulary of the development: the machine integers of the Rust code, the checked
  conversions it uses, results with an early return, Rust strings as UTF-8 byte strings, and the
  statement forms of SQL over tables kept as lists of rows.

  Every theory imports this one. The collections \<open>result_simps\<close> and \<open>table_simps\<close> hold
  the rewrite rules the component proofs use most.
\<close>

named_theorems result_simps \<open>results with an early return\<close>
named_theorems table_simps \<open>SQL statements over row lists\<close>

section \<open>Integers\<close>

type_synonym u8 = "8 word"
type_synonym u16 = "16 word"
type_synonym u32 = "32 word"
type_synonym u64 = "64 word"

text \<open>
  A UUID is its 128-bit value: \<open>Uuid::is_nil\<close> compares it with zero, and PostgreSQL orders the
  \<open>uuid\<close> type by its bytes, which is the order of the value.
\<close>

type_synonym uuid = "128 word"

text \<open>
  Instants and \<open>TIMESTAMPTZ\<close> columns are microseconds, \<open>BIGINT\<close> and \<open>INTEGER\<close>
  columns are integers.
\<close>

type_synonym instant = int

definition i64_MAX :: u64 where
  "i64_MAX = 9223372036854775807"

lemma unat_i64_MAX: "unat i64_MAX = 9223372036854775807"
  by (simp add: i64_MAX_def)

text \<open>\<open>u64::checked_add\<close> and \<open>u64::checked_sub\<close>: \<open>None\<close> where the result does not fit.\<close>

definition checked_add :: "u64 \<Rightarrow> u64 \<Rightarrow> u64 option" where
  "checked_add a b = (if unat a + unat b < 2 ^ 64 then Some (a + b) else None)"

definition checked_sub :: "u64 \<Rightarrow> u64 \<Rightarrow> u64 option" where
  "checked_sub a b = (if b \<le> a then Some (a - b) else None)"

lemma checked_add_Some:
  "checked_add a b = Some c \<longleftrightarrow> unat a + unat b < 2 ^ 64 \<and> c = a + b"
  by (auto simp: checked_add_def)

lemma checked_add_unat:
  "checked_add a b = Some c \<Longrightarrow> unat c = unat a + unat b"
  by (auto simp: checked_add_def unat_word_ariths split: if_splits)

lemma checked_sub_Some: "checked_sub a b = Some c \<longleftrightarrow> b \<le> a \<and> c = a - b"
  by (auto simp: checked_sub_def)

lemma checked_sub_unat:
  "checked_sub a b = Some c \<Longrightarrow> unat c = unat a - unat b"
  by (auto simp: checked_sub_def unat_sub split: if_splits)

text \<open>The cast \<open>as i64\<close> reinterprets the bits; it is the value itself up to \<open>i64::MAX\<close>.\<close>

definition as_i64 :: "u64 \<Rightarrow> int" where
  "as_i64 w = sint w"

lemma as_i64_nonneg:
  assumes "w \<le> i64_MAX"
  shows "as_i64 w = int (unat w)"
proof -
  have "uint w < 2 ^ 63"
    using assms by (simp add: word_le_def i64_MAX_def)
  then have "signed_take_bit 63 (uint w) = uint w"
    using uint_ge_0 [of w] by (intro signed_take_bit_int_eq_self) linarith+
  then show ?thesis by (simp add: as_i64_def sint_uint)
qed

section \<open>Results\<close>

text \<open>
  A Rust \<open>Result<T, E>\<close> is a sum, \<open>Inl\<close> the error. The operator \<open>?\<close> returns the error of
  its operand early, which is \<open>and_then\<close>.
\<close>

definition and_then :: "'e + 'a \<Rightarrow> ('a \<Rightarrow> 'e + 'b) \<Rightarrow> 'e + 'b" where
  "and_then r f = (case r of Inl e \<Rightarrow> Inl e | Inr a \<Rightarrow> f a)"

lemma and_then_simps [simp, result_simps]:
  "and_then (Inl e) f = Inl e"
  "and_then (Inr a) f = f a"
  by (simp_all add: and_then_def)

lemma and_then_Inr [result_simps]:
  "and_then r f = Inr b \<longleftrightarrow> (\<exists>a. r = Inr a \<and> f a = Inr b)"
  by (cases r) auto

lemma and_then_Inl [result_simps]:
  "and_then r f = Inl e \<longleftrightarrow> r = Inl e \<or> (\<exists>a. r = Inr a \<and> f a = Inl e)"
  by (cases r) auto

text \<open>The early return \<open>if bad { return Err(e) }\<close>.\<close>

definition ensure :: "bool \<Rightarrow> 'e \<Rightarrow> 'e + unit" where
  "ensure good e = (if good then Inr () else Inl e)"

lemma ensure_simps [simp, result_simps]:
  "ensure good e = Inr u \<longleftrightarrow> good"
  "ensure good e = Inl e' \<longleftrightarrow> \<not> good \<and> e' = e"
  by (auto simp: ensure_def)

text \<open>A \<open>for\<close> loop whose body may return an error: the first error ends it.\<close>

fun for_each :: "('a \<Rightarrow> 'e + unit) \<Rightarrow> 'a list \<Rightarrow> 'e + unit" where
  "for_each f [] = Inr ()"
| "for_each f (x # xs) = and_then (f x) (\<lambda>_. for_each f xs)"

lemma for_each_Inr [result_simps]:
  "for_each f xs = Inr u \<longleftrightarrow> (\<forall>x \<in> set xs. f x = Inr ())"
  by (induction xs) (auto simp: and_then_Inr)

definition is_ok :: "'e + 'a \<Rightarrow> bool" where
  "is_ok r = (case r of Inl _ \<Rightarrow> False | Inr _ \<Rightarrow> True)"

lemma is_ok_simps [simp]: "is_ok (Inl e) = False" "is_ok (Inr a) = True"
  by (simp_all add: is_ok_def)

lemma is_ok_iff: "is_ok r \<longleftrightarrow> (\<exists>a. r = Inr a)"
  by (cases r) auto

section \<open>Strings\<close>

text \<open>
  A Rust \<open>String\<close> is the byte string of its UTF-8 encoding: \<open>len()\<close> and \<open>bytes()\<close> read the
  bytes, \<open>chars()\<close> decodes the code points. The decoder is total; on the valid encodings that
  Rust strings hold it is the inverse of the encoder.
\<close>

definition byte_of :: "char \<Rightarrow> nat" where
  "byte_of c = of_char c"

definition utf8_width :: "nat \<Rightarrow> nat" where
  "utf8_width b = (if b < 128 then 1 else if b < 224 then 2 else if b < 240 then 3 else 4)"

definition utf8_lead :: "nat \<Rightarrow> nat" where
  "utf8_lead b = (if b < 128 then b else if b < 224 then b mod 32 else if b < 240 then b mod 16
     else b mod 8)"

function utf8_chars :: "string \<Rightarrow> nat list" where
  "utf8_chars [] = []"
| "utf8_chars (b # bs) =
     (let n = utf8_width (byte_of b) - 1
      in foldl (\<lambda>acc c. acc * 64 + byte_of c mod 64) (utf8_lead (byte_of b)) (take n bs)
           # utf8_chars (drop n bs))"
  by pat_completeness auto
termination
  by (relation "measure length") auto

text \<open>\<open>String::push\<close> of one \<open>char\<close>.\<close>

definition utf8_encode :: "nat \<Rightarrow> string" where
  "utf8_encode c =
     (if c < 128 then [char_of c]
      else if c < 2048 then [char_of (192 + c div 64), char_of (128 + c mod 64)]
      else if c < 65536 then
        [char_of (224 + c div 4096), char_of (128 + c div 64 mod 64), char_of (128 + c mod 64)]
      else
        [char_of (240 + c div 262144), char_of (128 + c div 4096 mod 64),
         char_of (128 + c div 64 mod 64), char_of (128 + c mod 64)])"

definition len_utf8 :: "nat \<Rightarrow> nat" where
  "len_utf8 c = (if c < 128 then 1 else if c < 2048 then 2 else if c < 65536 then 3 else 4)"

text \<open>The values a sequence of at most four bytes can encode; every Unicode scalar value is one.\<close>

definition code_point :: "nat \<Rightarrow> bool" where
  "code_point c \<longleftrightarrow> c < 2097152"

lemma length_utf8_encode: "length (utf8_encode c) = len_utf8 c"
  by (simp add: utf8_encode_def len_utf8_def)

lemma byte_of_char_of: "n < 256 \<Longrightarrow> byte_of (char_of n) = n"
  by (simp add: byte_of_def)

lemma utf8_digits_aux:
  fixes c d e f :: nat
  assumes "64 * d + u = c" "64 * e + v = d" "64 * f + w = e"
  shows "4096 * e + v * 64 + u = c" "262144 * f + 4096 * w + v * 64 + u = c"
  using assms by auto

lemma utf8_byte_mods:
  "(192 + x :: nat) mod 32 = x mod 32" "(224 + x :: nat) mod 16 = x mod 16"
  "(240 + x :: nat) mod 8 = x mod 8" "(128 + x :: nat) mod 64 = x mod 64"
  by (simp_all flip: mod_add_left_eq)

lemma utf8_digits:
  "4096 * (c div 4096) + c div 64 mod 64 * 64 + c mod 64 = (c::nat)" (is ?A)
  "262144 * (c div 262144) + 4096 * (c div 4096 mod 64) + c div 64 mod 64 * 64 + c mod 64 = (c::nat)" (is ?B)
proof -
  have *: "c div 64 div 64 = c div 4096" "c div 4096 div 64 = c div 262144"
    by (simp_all add: div_mult2_eq [symmetric])
  have 1: "64 * (c div 64) + c mod 64 = c" "64 * (c div 4096) + c div 64 mod 64 = c div 64"
    "64 * (c div 262144) + c div 4096 mod 64 = c div 4096"
    using mult_div_mod_eq [of 64 c] mult_div_mod_eq [of 64 "c div 64"]
      mult_div_mod_eq [of 64 "c div 4096"] by (simp_all only: *)
  show ?A by (rule utf8_digits_aux(1) [OF 1])
  show ?B by (rule utf8_digits_aux(2) [OF 1])
qed

lemma utf8_chars_encode:
  assumes "code_point c"
  shows "utf8_chars (utf8_encode c @ s) = c # utf8_chars s"
proof -
  consider "c < 128" | "128 \<le> c" "c < 2048" | "2048 \<le> c" "c < 65536" | "65536 \<le> c" by linarith
  then show ?thesis
  proof cases
    case 1
    then show ?thesis by (simp add: utf8_encode_def byte_of_char_of utf8_width_def utf8_lead_def)
  next
    case 2
    then have "c div 64 < 32" "2 \<le> c div 64" by auto
    with 2 show ?thesis
      by (simp add: utf8_encode_def byte_of_char_of utf8_width_def utf8_lead_def utf8_byte_mods)
  next
    case 3
    then have "c div 4096 < 16" by auto
    with 3 show ?thesis
      by (simp add: utf8_encode_def byte_of_char_of utf8_width_def utf8_lead_def utf8_byte_mods utf8_digits)
  next
    case 4
    define f w v u where digits: "f = c div 262144" "w = c div 4096 mod 64" "v = c div 64 mod 64"
      "u = c mod 64"
    have c: "262144 * f + 4096 * w + v * 64 + u = c"
      unfolding digits by (rule utf8_digits(2))
    have enc: "utf8_encode c =
        [char_of (240 + f), char_of (128 + w), char_of (128 + v), char_of (128 + u)]"
      unfolding utf8_encode_def digits using 4 by (simp only: if_False linorder_not_less [symmetric]) simp
    have "f < 8" using assms by (simp add: code_point_def digits(1))
    moreover have "w < 64" "v < 64" "u < 64" by (simp_all add: digits)
    ultimately show ?thesis
      unfolding enc by (simp add: byte_of_char_of utf8_width_def utf8_lead_def utf8_byte_mods c [symmetric])
  qed
qed

text \<open>The string collected from a sequence of characters.\<close>

definition utf8_string :: "nat list \<Rightarrow> string" where
  "utf8_string cs = concat (map utf8_encode cs)"

lemma utf8_string_simps [simp]:
  "utf8_string [] = []"
  "utf8_string (c # cs) = utf8_encode c @ utf8_string cs"
  "utf8_string (cs @ ds) = utf8_string cs @ utf8_string ds"
  by (simp_all add: utf8_string_def)

lemma utf8_chars_string:
  "list_all code_point cs \<Longrightarrow> utf8_chars (utf8_string cs) = cs"
  by (induction cs) (simp_all add: utf8_chars_encode)

lemma utf8_continuation_bound:
  "foldl (\<lambda>acc c. acc * 64 + byte_of c mod 64) a cs < (a + 1) * 64 ^ length cs"
proof (induction cs arbitrary: a)
  case (Cons c cs)
  have "(a * 64 + byte_of c mod 64 + 1) * 64 ^ length cs \<le> (a + 1) * 64 * 64 ^ length cs"
    by (intro mult_right_mono) (auto simp: add_mult_distrib Suc_le_eq)
  with Cons [of "a * 64 + byte_of c mod 64"]
  have "foldl (\<lambda>acc c. acc * 64 + byte_of c mod 64) (a * 64 + byte_of c mod 64) cs
      < (a + 1) * 64 * 64 ^ length cs" by (rule less_le_trans)
  then show ?case by (simp only: foldl_Cons list.size power_Suc mult.assoc add_Suc_right add_0_right)
qed simp

lemma utf8_chars_code_point: "list_all code_point (utf8_chars s)"
proof (induction s rule: utf8_chars.induct)
  case (2 b bs)
  let ?n = "utf8_width (byte_of b) - 1"
  let ?cs = "take ?n bs"
  have "foldl (\<lambda>acc c. acc * 64 + byte_of c mod 64) (utf8_lead (byte_of b)) ?cs
      < (utf8_lead (byte_of b) + 1) * 64 ^ length ?cs"
    by (rule utf8_continuation_bound)
  also have "\<dots> \<le> (utf8_lead (byte_of b) + 1) * 64 ^ ?n"
    by (intro mult_left_mono power_increasing) auto
  also have "\<dots> \<le> 2097152"
    by (auto simp: utf8_lead_def utf8_width_def)
  finally show ?case using 2 by (simp add: Let_def code_point_def)
qed simp

lemma utf8_encode_nonempty [simp]: "utf8_encode c \<noteq> []"
  by (simp add: utf8_encode_def)

lemma utf8_string_eq_Nil [simp]: "utf8_string cs = [] \<longleftrightarrow> cs = []"
  by (cases cs) auto

text \<open>On ASCII text characters and bytes agree.\<close>

lemma utf8_string_ascii:
  "list_all (\<lambda>c. byte_of c < 128) s \<Longrightarrow> utf8_string (map byte_of s) = s"
  by (induction s) (simp_all add: utf8_encode_def, simp add: byte_of_def)

text \<open>\<open>char::is_control\<close> is the general category Cc; \<open>char::is_whitespace\<close> the property
  White_Space.\<close>

definition is_control :: "nat \<Rightarrow> bool" where
  "is_control c \<longleftrightarrow> c < 32 \<or> 127 \<le> c \<and> c < 160"

definition is_whitespace :: "nat \<Rightarrow> bool" where
  "is_whitespace c \<longleftrightarrow> 9 \<le> c \<and> c \<le> 13 \<or> c = 32 \<or> c = 133 \<or> c = 160 \<or> c = 5760
     \<or> 8192 \<le> c \<and> c \<le> 8202 \<or> c = 8232 \<or> c = 8233 \<or> c = 8239 \<or> c = 8287 \<or> c = 12288"

text \<open>\<open>s.trim().is_empty()\<close> and \<open>s.chars().any(char::is_control)\<close>.\<close>

definition trim_is_empty :: "string \<Rightarrow> bool" where
  "trim_is_empty s \<longleftrightarrow> list_all is_whitespace (utf8_chars s)"

definition any_control :: "string \<Rightarrow> bool" where
  "any_control s \<longleftrightarrow> list_ex is_control (utf8_chars s)"

definition is_ascii_digit :: "char \<Rightarrow> bool" where
  "is_ascii_digit c \<longleftrightarrow> 48 \<le> byte_of c \<and> byte_of c \<le> 57"

definition is_ascii_lowercase :: "char \<Rightarrow> bool" where
  "is_ascii_lowercase c \<longleftrightarrow> 97 \<le> byte_of c \<and> byte_of c \<le> 122"

definition is_ascii_uppercase :: "char \<Rightarrow> bool" where
  "is_ascii_uppercase c \<longleftrightarrow> 65 \<le> byte_of c \<and> byte_of c \<le> 90"

definition is_ascii_alphanumeric :: "char \<Rightarrow> bool" where
  "is_ascii_alphanumeric c \<longleftrightarrow> is_ascii_digit c \<or> is_ascii_lowercase c \<or> is_ascii_uppercase c"

definition is_ascii_hexdigit :: "char \<Rightarrow> bool" where
  "is_ascii_hexdigit c \<longleftrightarrow> is_ascii_digit c \<or> 97 \<le> byte_of c \<and> byte_of c \<le> 102
     \<or> 65 \<le> byte_of c \<and> byte_of c \<le> 70"

lemmas ascii_defs = is_ascii_digit_def is_ascii_lowercase_def is_ascii_uppercase_def
  is_ascii_alphanumeric_def is_ascii_hexdigit_def byte_of_def

definition starts_with :: "string \<Rightarrow> string \<Rightarrow> bool" where
  "starts_with s p \<longleftrightarrow> take (length p) s = p"

definition ends_with :: "string \<Rightarrow> string \<Rightarrow> bool" where
  "ends_with s p \<longleftrightarrow> length p \<le> length s \<and> drop (length s - length p) s = p"

fun contains_str :: "string \<Rightarrow> string \<Rightarrow> bool" where
  "contains_str [] p \<longleftrightarrow> p = []"
| "contains_str (c # s) p \<longleftrightarrow> starts_with (c # s) p \<or> contains_str s p"

text \<open>\<open>s.split(c)\<close>: the pieces between the separators, at least one.\<close>

fun split_on :: "char \<Rightarrow> string \<Rightarrow> string list" where
  "split_on d [] = [[]]"
| "split_on d (c # s) = (if c = d then [] # split_on d s
     else (case split_on d s of [] \<Rightarrow> [[c]] | p # ps \<Rightarrow> (c # p) # ps))"

lemma split_on_nonempty [simp]: "split_on d s \<noteq> []"
  by (induction s) (auto split: list.split)

text \<open>The decimal digits that \<open>Display\<close> prints for an unsigned integer.\<close>

fun show_nat :: "nat \<Rightarrow> string" where
  "show_nat n = (if n < 10 then [char_of (48 + n)] else show_nat (n div 10) @ [char_of (48 + n mod 10)])"

declare show_nat.simps [simp del]

text \<open>The hyphenated lower-case text of a UUID.\<close>

definition hex_digit :: "nat \<Rightarrow> char" where
  "hex_digit n = char_of (if n < 10 then 48 + n else 87 + n)"

definition uuid_to_string :: "uuid \<Rightarrow> string" where
  "uuid_to_string u =
     (let h = map (\<lambda>i. hex_digit (unat (take_bit 4 (drop_bit (4 * i) u)))) (rev [0..<32]) in
      take 8 h @ ''-'' @ take 4 (drop 8 h) @ ''-'' @ take 4 (drop 12 h) @ ''-''
        @ take 4 (drop 16 h) @ ''-'' @ drop 20 h)"

section \<open>Durations\<close>

text \<open>\<open>chrono::Duration\<close> in microseconds. \<open>num_milliseconds\<close> truncates towards zero.\<close>

type_synonym duration = int

definition num_milliseconds :: "duration \<Rightarrow> int" where
  "num_milliseconds t = (if 0 \<le> t then t div 1000 else - (- t div 1000))"

end
