(* ===== verification/Fleet_Model.thy ===== *)
theory Fleet_Model
  imports Prelude
begin

text \<open>
  The task contract of the fleet protocol (\<open>crates/sbgh-fleet/src/model.rs\<close>): what a worker can
  execute, the payload of a task, the result of a block validation and the terminal outcome of an
  attempt. The messages that carry them are in \<open>Fleet_Messages\<close>, after the protocol negotiation
  whose types they mention.

  Unsigned integers are words of their width; \<open>i32\<close> and \<open>i64\<close> fields, which this crate only
  compares, are integers.
\<close>

section \<open>Capabilities and JSON\<close>

datatype worker_capability = Benchmark | BuildOnly | BlockValidation

primrec capability_as_str :: "worker_capability \<Rightarrow> string" where
  "capability_as_str Benchmark = ''benchmark''"
| "capability_as_str BuildOnly = ''build_only''"
| "capability_as_str BlockValidation = ''block_validation''"

lemma capability_as_str_inj [simp]:
  "capability_as_str c = capability_as_str d \<longleftrightarrow> c = d"
  by (cases c; cases d) simp_all

text \<open>
  \<open>serde_json::Value\<close> with the workspace's \<open>preserve_order\<close> feature: an object is the list of its
  entries in insertion order. A number is kept as its printed text.
\<close>

datatype json =
    JNull
  | JBool bool
  | JNumber string
  | JString string
  | JArray "json list"
  | JObject "(string \<times> json) list"

record resource_facts =
  rf_logical_cpus :: u32
  rf_memory_bytes :: u64

section \<open>Task payloads\<close>

record benchmark_payload =
  bp_effective_args :: "string list"
  bp_workload_key :: "string option"
  bp_sqlite_seed_key :: "string option"
  bp_shared_baseline_calibration :: bool
  bp_baseline_calibration_id :: "int option"
  bp_run_index :: int
  bp_requested_run_count :: int

datatype validation_epoch = PreNakamoto | Nakamoto

record inclusive_range =
  ir_start :: u64
  ir_end :: u64

datatype block_validation_selection = Recent u64 | Full | Range inclusive_range

record block_validation_payload =
  vp_selection :: block_validation_selection
  vp_timeout_secs :: u64

datatype task_payload =
    TaskBenchmark benchmark_payload
  | TaskBuildOnly
  | TaskBlockValidation block_validation_payload

primrec payload_capability :: "task_payload \<Rightarrow> worker_capability" where
  "payload_capability (TaskBenchmark _) = Benchmark"
| "payload_capability TaskBuildOnly = BuildOnly"
| "payload_capability (TaskBlockValidation _) = BlockValidation"

datatype offer_requirements = RequireBenchmark | RequireBuildOnly | RequireBlockValidation

primrec offer_requirements_from :: "task_payload \<Rightarrow> offer_requirements" where
  "offer_requirements_from (TaskBenchmark _) = RequireBenchmark"
| "offer_requirements_from TaskBuildOnly = RequireBuildOnly"
| "offer_requirements_from (TaskBlockValidation _) = RequireBlockValidation"

section \<open>Results\<close>

record artifact_descriptor =
  ad_key :: string
  ad_logical_key :: string
  ad_size :: u64
  ad_sha256 :: string

record invalid_block =
  ib_shard :: u32
  ib_block :: string
  ib_reason :: string

record observed_validation_index =
  ov_pre_nakamoto_count :: u64
  ov_nakamoto_count :: u64

record validation_epoch_segment =
  sg_epoch :: validation_epoch
  sg_global_range :: inclusive_range
  sg_local_range :: inclusive_range

record block_validation_result =
  vr_valid :: bool
  vr_checked_blocks :: u64
  vr_invalid_blocks :: "invalid_block list"
  vr_chainstate_origin :: string
  vr_observed :: observed_validation_index
  vr_resolved_range :: inclusive_range
  vr_segments :: "validation_epoch_segment list"
  vr_shard_count :: u32
  vr_max_concurrency :: u32

datatype terminal_outcome =
    Completed json "block_validation_result option"
  | Failed string "json option" bool
  | Cancelled string

datatype reliable_event_payload =
    Phase string u64
  | Terminal string

record progress_update =
  pu_workflow_step :: string
  pu_run_index :: int
  pu_requested_run_count :: int
  pu_phase :: string
  pu_progress :: u64
  pu_total :: "u64 option"
  pu_message :: "string option"

text \<open>The requirements an offer shows a worker name the capability the payload needs.\<close>

primrec requirements_capability :: "offer_requirements \<Rightarrow> worker_capability" where
  "requirements_capability RequireBenchmark = Benchmark"
| "requirements_capability RequireBuildOnly = BuildOnly"
| "requirements_capability RequireBlockValidation = BlockValidation"

lemma requirements_capability_from [simp]:
  "requirements_capability (offer_requirements_from p) = payload_capability p"
  by (cases p) simp_all

end
