(* ===== verification/Negotiation.thy ===== *)
theory Negotiation
  imports Fleet_Model "HOL-Library.FSet"
begin

text \<open>
  Protocol negotiation between a worker and the daemon (\<open>crates/sbgh-fleet/src/negotiation.rs\<close>).
  The worker advertises a revision range and feature names (\<open>protocol_offer\<close>), the daemon selects
  a revision and a set of features (\<open>negotiate\<close>), and the worker checks the selection
  (\<open>response\<close>) before it takes any assignment. A \<open>BTreeSet\<close> is a finite set.
\<close>

section \<open>Features\<close>

definition PREVIOUS_PROTOCOL_REVISION :: u16 where
  "PREVIOUS_PROTOCOL_REVISION = 1"

definition NEGOTIATED_PROTOCOL_REVISION :: u16 where
  "NEGOTIATED_PROTOCOL_REVISION = 2"

definition MAX_FEATURES :: nat where
  "MAX_FEATURES = 64"

definition MAX_FEATURE_BYTES :: nat where
  "MAX_FEATURE_BYTES = 64"

datatype protocol_feature =
  BuildOnlyV1 | BenchmarkV1 | BlockValidationV1 | ResidentCordon | ShutdownAfterIdle

primrec for_capability :: "worker_capability \<Rightarrow> protocol_feature" where
  "for_capability BuildOnly = BuildOnlyV1"
| "for_capability Benchmark = BenchmarkV1"
| "for_capability BlockValidation = BlockValidationV1"

primrec feature_as_str :: "protocol_feature \<Rightarrow> string" where
  "feature_as_str BuildOnlyV1 = ''build_only_v1''"
| "feature_as_str BenchmarkV1 = ''benchmark_v1''"
| "feature_as_str BlockValidationV1 = ''block_validation_v1''"
| "feature_as_str ResidentCordon = ''resident_cordon''"
| "feature_as_str ShutdownAfterIdle = ''shutdown_after_idle''"

definition supported_list :: "protocol_feature list" where
  "supported_list = [BuildOnlyV1, BenchmarkV1, BlockValidationV1, ResidentCordon, ShutdownAfterIdle]"

definition supported :: "protocol_feature fset" where
  "supported = fset_of_list supported_list"

definition legacy_features :: "protocol_feature fset" where
  "legacy_features = {|BuildOnlyV1, BenchmarkV1, BlockValidationV1|}"

definition from_name :: "string \<Rightarrow> protocol_feature option" where
  "from_name name = find (\<lambda>feature. feature_as_str feature = name) supported_list"

primrec for_payload :: "task_payload \<Rightarrow> protocol_feature" where
  "for_payload TaskBuildOnly = BuildOnlyV1"
| "for_payload (TaskBenchmark _) = BenchmarkV1"
| "for_payload (TaskBlockValidation _) = BlockValidationV1"

section \<open>Offers and contracts\<close>

record protocol_offer =
  po_minimum_revision :: u16
  po_maximum_revision :: u16
  po_features :: "string fset"

record protocol_contract =
  pc_revision :: u16
  pc_features :: "protocol_feature fset"

datatype negotiation_error =
    InvalidOffer string
  | InvalidFloor u16
  | Incompatible u16 u16 u16
  | InvalidSelection

definition supported_revision :: "u16 \<Rightarrow> bool" where
  "supported_revision r \<longleftrightarrow> PREVIOUS_PROTOCOL_REVISION \<le> r \<and> r \<le> NEGOTIATED_PROTOCOL_REVISION"

definition valid_feature_name :: "string \<Rightarrow> bool" where
  "valid_feature_name name \<longleftrightarrow> name \<noteq> [] \<and> length name \<le> MAX_FEATURE_BYTES
     \<and> list_all (\<lambda>b. is_ascii_lowercase b \<or> is_ascii_digit b \<or> b = CHR ''_'') name"

definition validate_offer :: "protocol_offer \<Rightarrow> negotiation_error + unit" where
  "validate_offer offer =
     (if po_minimum_revision offer = 0 \<or> po_minimum_revision offer > po_maximum_revision offer
      then Inl (InvalidOffer ''revision range must be nonzero and ordered'')
      else if fcard (po_features offer) > MAX_FEATURES
        \<or> \<not> fBall (po_features offer) valid_feature_name
      then Inl (InvalidOffer ''feature names must be bounded lowercase ASCII identifiers'')
      else if po_maximum_revision offer = PREVIOUS_PROTOCOL_REVISION \<and> po_features offer \<noteq> {||}
      then Inl (InvalidOffer ''revision 1 has fixed semantics, not feature negotiation'')
      else Inr ())"

definition features_at :: "protocol_offer \<Rightarrow> u16 \<Rightarrow> protocol_feature fset" where
  "features_at offer revision =
     (if revision = PREVIOUS_PROTOCOL_REVISION then legacy_features
      else ffilter (\<lambda>feature. feature_as_str feature |\<in>| po_features offer) supported)"

definition negotiate :: "protocol_offer \<Rightarrow> u16 \<Rightarrow> negotiation_error + protocol_contract" where
  "negotiate offer lowest =
     and_then (validate_offer offer) (\<lambda>_.
       if \<not> supported_revision lowest then Inl (InvalidFloor lowest)
       else let revision = min (po_maximum_revision offer) NEGOTIATED_PROTOCOL_REVISION in
         if revision < max (po_minimum_revision offer) lowest
         then Inl (Incompatible (po_minimum_revision offer) (po_maximum_revision offer) lowest)
         else Inr \<lparr>pc_revision = revision, pc_features = features_at offer revision\<rparr>)"

definition validate_selection ::
  "protocol_offer \<Rightarrow> protocol_contract \<Rightarrow> negotiation_error + unit" where
  "validate_selection offer selected =
     and_then (validate_offer offer) (\<lambda>_.
       if \<not> (po_minimum_revision offer \<le> pc_revision selected
             \<and> pc_revision selected \<le> po_maximum_revision offer)
         \<or> \<not> supported_revision (pc_revision selected)
         \<or> \<not> pc_features selected |\<subseteq>| features_at offer (pc_revision selected)
         \<or> pc_revision selected = PREVIOUS_PROTOCOL_REVISION
             \<and> pc_features selected \<noteq> legacy_features
       then Inl InvalidSelection
       else Inr ())"

definition legacy_offer :: "u16 \<Rightarrow> negotiation_error + protocol_offer" where
  "legacy_offer revision =
     (if revision \<noteq> PREVIOUS_PROTOCOL_REVISION
      then Inl (InvalidOffer ''negotiation extension required after revision 1'')
      else Inr \<lparr>po_minimum_revision = revision, po_maximum_revision = revision,
                po_features = {||}\<rparr>)"

definition current_offer :: protocol_offer where
  "current_offer = \<lparr>po_minimum_revision = PREVIOUS_PROTOCOL_REVISION,
     po_maximum_revision = NEGOTIATED_PROTOCOL_REVISION,
     po_features = feature_as_str |`| supported\<rparr>"

definition registration :: "u16 \<Rightarrow> protocol_offer option \<Rightarrow> negotiation_error + protocol_offer" where
  "registration version extension =
     (case extension of
        None \<Rightarrow> legacy_offer version
      | Some offer \<Rightarrow>
          and_then (validate_offer offer) (\<lambda>_.
            if version \<noteq> po_maximum_revision offer \<or> version = PREVIOUS_PROTOCOL_REVISION
            then Inl (InvalidOffer
              ''negotiation requires a matching maximum revision greater than 1'')
            else Inr offer))"

definition response ::
  "protocol_offer \<Rightarrow> u16 \<Rightarrow> protocol_contract option \<Rightarrow> negotiation_error + protocol_contract" where
  "response offer revision extension =
     and_then
       (case extension of
          Some contract \<Rightarrow> if pc_revision contract = revision then Inr contract
                           else Inl InvalidSelection
        | None \<Rightarrow>
            if po_maximum_revision offer = PREVIOUS_PROTOCOL_REVISION
               \<and> revision = PREVIOUS_PROTOCOL_REVISION
            then and_then (legacy_offer revision) (\<lambda>l. negotiate l PREVIOUS_PROTOCOL_REVISION)
            else Inl InvalidSelection)
       (\<lambda>selected. and_then (validate_selection offer selected) (\<lambda>_. Inr selected))"

definition supports_capability :: "protocol_contract \<Rightarrow> worker_capability \<Rightarrow> bool" where
  "supports_capability contract capability \<longleftrightarrow>
     supported_revision (pc_revision contract)
     \<and> for_capability capability |\<in>| pc_features contract"

definition supports_payload :: "protocol_contract \<Rightarrow> task_payload \<Rightarrow> bool" where
  "supports_payload contract payload \<longleftrightarrow>
     supported_revision (pc_revision contract) \<and> for_payload payload |\<in>| pc_features contract"

section \<open>Correctness\<close>

text \<open>The revisions both sides can execute when the daemon's compatibility floor is \<open>lowest\<close>.\<close>

definition shared_revision :: "protocol_offer \<Rightarrow> u16 \<Rightarrow> u16 \<Rightarrow> bool" where
  "shared_revision offer lowest r \<longleftrightarrow>
     po_minimum_revision offer \<le> r \<and> r \<le> po_maximum_revision offer
     \<and> lowest \<le> r \<and> r \<le> NEGOTIATED_PROTOCOL_REVISION"

lemmas revision_defs = PREVIOUS_PROTOCOL_REVISION_def NEGOTIATED_PROTOCOL_REVISION_def

lemma supported_revision_iff: "supported_revision r \<longleftrightarrow> r = 1 \<or> r = 2"
proof
  assume "supported_revision r"
  then have "1 \<le> unat r" "unat r \<le> 2"
    by (auto simp: supported_revision_def revision_defs word_le_nat_alt)
  then consider "unat r = 1" | "unat r = 2" by linarith
  then show "r = 1 \<or> r = 2"
    by cases (simp_all add: word_unat_eq_iff)
qed (auto simp: supported_revision_def revision_defs)

lemma fset_supported [simp]: "f |\<in>| supported"
  by (cases f) (simp_all add: supported_def supported_list_def)

lemma feature_as_str_inj [simp]: "feature_as_str f = feature_as_str g \<longleftrightarrow> f = g"
  by (cases f; cases g) simp_all

lemma validate_offer_ok:
  "validate_offer offer = Inr u \<longleftrightarrow>
     po_minimum_revision offer \<noteq> 0 \<and> po_minimum_revision offer \<le> po_maximum_revision offer
     \<and> fcard (po_features offer) \<le> MAX_FEATURES \<and> fBall (po_features offer) valid_feature_name
     \<and> (po_maximum_revision offer = PREVIOUS_PROTOCOL_REVISION \<longrightarrow> po_features offer = {||})"
  by (auto simp: validate_offer_def)

lemma negotiated_shared:
  assumes "negotiate offer lowest = Inr c"
  shows "shared_revision offer lowest (pc_revision c)"
    "supported_revision (pc_revision c)"
    "pc_features c = features_at offer (pc_revision c)"
    "validate_offer offer = Inr ()"
  using assms
  by (auto simp: negotiate_def shared_revision_def supported_revision_def result_simps Let_def
      validate_offer_ok min_def max_def split: if_splits)

text \<open>A feature name is parsed back to the feature it prints.\<close>

lemma from_name_iff: "from_name name = Some f \<longleftrightarrow> name = feature_as_str f"
  by (cases f) (auto simp: from_name_def supported_list_def split: if_splits)

lemma shared_revision_unique_max:
  "shared_revision offer lowest r \<Longrightarrow>
     shared_revision offer lowest (min (po_maximum_revision offer) NEGOTIATED_PROTOCOL_REVISION)
     \<and> r \<le> min (po_maximum_revision offer) NEGOTIATED_PROTOCOL_REVISION"
  by (auto simp: shared_revision_def min_def)

lemma negotiated_selection_valid:
  assumes "negotiate offer lowest = Inr c"
  shows "validate_selection offer c = Inr ()"
  using negotiated_shared [OF assms]
  by (auto simp: validate_selection_def shared_revision_def features_at_def)

lemma fcard_simps: "fcard {||} = 0" "fcard (finsert x A) = (if x |\<in>| A then fcard A else Suc (fcard A))"
  by (auto simp: fcard.rep_eq insert_absorb)

lemma legacy_offer_validate: "legacy_offer v = Inr offer \<Longrightarrow> validate_offer offer = Inr ()"
  by (auto simp: legacy_offer_def validate_offer_ok revision_defs fcard_simps split: if_splits)

lemma registration_validate: "registration v ext = Inr offer \<Longrightarrow> validate_offer offer = Inr ()"
  by (auto simp: registration_def result_simps legacy_offer_validate split: option.splits if_splits)

lemma validate_current_offer: "validate_offer current_offer = Inr ()"
  by (simp add: validate_offer_ok current_offer_def revision_defs supported_def supported_list_def
      fcard_simps MAX_FEATURES_def MAX_FEATURE_BYTES_def valid_feature_name_def ascii_defs)

lemma negotiate_current_offer:
  "supported_revision lowest \<Longrightarrow>
     negotiate current_offer lowest = Inr \<lparr>pc_revision = 2, pc_features = supported\<rparr>"
  unfolding negotiate_def validate_current_offer
  by (auto simp: supported_revision_iff supported_revision_def current_offer_def revision_defs
      features_at_def intro!: fset_eqI)

text \<open>C33: Negotiation succeeds exactly when the offer is well formed, the floor is one this
  binary supports and some revision is shared. The contract then has the highest shared revision,
  and its features are the revision's fixed set at revision 1 and otherwise exactly the features
  the worker named.\<close>

theorem negotiate_highest_shared:
  "negotiate offer lowest = Inr c \<longleftrightarrow>
     validate_offer offer = Inr () \<and> supported_revision lowest
     \<and> shared_revision offer lowest (pc_revision c)
     \<and> (\<forall>r. shared_revision offer lowest r \<longrightarrow> r \<le> pc_revision c)
     \<and> (\<forall>f. f |\<in>| pc_features c \<longleftrightarrow>
          (if pc_revision c = 1 then f \<in> {BuildOnlyV1, BenchmarkV1, BlockValidationV1}
           else feature_as_str f |\<in>| po_features offer))" (is "?L \<longleftrightarrow> ?R")
proof
  assume l: ?L
  note shared = negotiated_shared [OF l]
  have "supported_revision lowest"
    and rev: "pc_revision c = min (po_maximum_revision offer) NEGOTIATED_PROTOCOL_REVISION"
    using l by (auto simp: negotiate_def result_simps Let_def split: if_splits)
  moreover have "r \<le> pc_revision c" if "shared_revision offer lowest r" for r
    using shared_revision_unique_max [OF that] rev by simp
  moreover have "f |\<in>| pc_features c \<longleftrightarrow>
      (if pc_revision c = 1 then f \<in> {BuildOnlyV1, BenchmarkV1, BlockValidationV1}
       else feature_as_str f |\<in>| po_features offer)" for f
    by (simp add: shared(3) features_at_def legacy_features_def revision_defs)
  ultimately show ?R using shared by blast
next
  assume r: ?R
  let ?m = "min (po_maximum_revision offer) NEGOTIATED_PROTOCOL_REVISION"
  from r have "shared_revision offer lowest (pc_revision c)" by blast
  from shared_revision_unique_max [OF this] r have rev: "pc_revision c = ?m"
    by (blast intro: order_antisym)
  have "f |\<in>| pc_features c \<longleftrightarrow> f |\<in>| features_at offer ?m" for f
    using r unfolding rev [symmetric] by (simp add: features_at_def legacy_features_def revision_defs)
  then have "pc_features c = features_at offer ?m" by (intro fset_eqI)
  then have c: "c = \<lparr>pc_revision = ?m, pc_features = features_at offer ?m\<rparr>"
    using rev by (cases c) simp
  have "\<not> ?m < max (po_minimum_revision offer) lowest"
    using r unfolding rev shared_revision_def by (auto simp: not_less)
  with r show ?L by (simp add: negotiate_def c Let_def)
qed

theorem negotiate_highest_shared_witness:
  "negotiate current_offer 1 = Inr \<lparr>pc_revision = 2, pc_features = supported\<rparr>
   \<and> validate_offer current_offer = Inr () \<and> shared_revision current_offer 1 2"
proof -
  have "negotiate current_offer 1 = Inr \<lparr>pc_revision = 2, pc_features = supported\<rparr>"
    by (simp add: negotiate_current_offer supported_revision_def revision_defs)
  with negotiate_highest_shared [of current_offer 1 "\<lparr>pc_revision = 2, pc_features = supported\<rparr>"]
  show ?thesis by simp
qed

text \<open>C34: The two sides agree. Whatever offer the daemon reconstructs from a registration request
  and negotiates, the worker that made the request accepts the answer and both hold the same
  contract, with or without the negotiation extension.\<close>

theorem negotiation_agreement:
  assumes "registration version ext = Inr offer" and "negotiate offer lowest = Inr c"
  shows "response offer (pc_revision c) (if ext = None then None else Some c) = Inr c"
proof (cases ext)
  case None
  then have offer: "offer = \<lparr>po_minimum_revision = 1, po_maximum_revision = 1, po_features = {||}\<rparr>"
    using assms(1) by (auto simp: registration_def legacy_offer_def revision_defs split: if_splits)
  have c: "c = \<lparr>pc_revision = 1, pc_features = legacy_features\<rparr>"
    using assms(2) unfolding offer
    by (auto simp: negotiate_def result_simps Let_def revision_defs features_at_def split: if_splits)
  have "negotiate offer 1 = Inr c"
    unfolding offer c by (simp add: negotiate_def validate_offer_def supported_revision_def
        revision_defs features_at_def fcard_simps)
  with None negotiated_selection_valid [OF assms(2)] show ?thesis
    by (simp add: response_def offer c legacy_offer_def revision_defs)
next
  case (Some a)
  with negotiated_selection_valid [OF assms(2)] show ?thesis
    by (simp add: response_def)
qed

theorem negotiation_agreement_witness:
  "registration 2 (Some current_offer) = Inr current_offer
   \<and> response current_offer 2 (Some \<lparr>pc_revision = 2, pc_features = supported\<rparr>)
       = Inr \<lparr>pc_revision = 2, pc_features = supported\<rparr>"
proof -
  have "registration 2 (Some current_offer) = Inr current_offer"
    by (simp add: registration_def validate_current_offer) (simp add: current_offer_def revision_defs)
  moreover have "negotiate current_offer 1 = Inr \<lparr>pc_revision = 2, pc_features = supported\<rparr>"
    by (simp add: negotiate_current_offer supported_revision_def revision_defs)
  ultimately show ?thesis
    using negotiation_agreement [of 2 "Some current_offer" current_offer 1
        "\<lparr>pc_revision = 2, pc_features = supported\<rparr>"] by simp
qed

end
