(* ===== verification/Fleet_Messages.thy ===== *)
theory Fleet_Messages
  imports Negotiation
begin

text \<open>
  The messages between worker and daemon (\<open>crates/sbgh-fleet/src/model.rs\<close> and
  \<open>preflight.rs\<close>). \<open>LeaseToken\<close> is a wrapper of a string and is modelled by it. The clock
  values in milliseconds are integers.
\<close>

record preflight_report =
  pr_revision :: u32
  pr_completed_at_ms :: int
  pr_executable_sha256 :: string
  pr_configuration_sha256 :: string

record registration_check_request =
  rc_protocol_version :: u16
  rc_protocol_offer :: "protocol_offer option"
  rc_software_version :: string
  rc_advertised_capabilities :: "worker_capability set"
  rc_resources :: resource_facts

record register_session_request =
  rr_preflight :: "preflight_report option"
  rr_protocol_version :: u16
  rr_protocol_offer :: "protocol_offer option"
  rr_worker_session_id :: uuid
  rr_software_version :: string
  rr_advertised_capabilities :: "worker_capability set"
  rr_resources :: resource_facts

record attempt_identity =
  ai_worker_session_id :: uuid
  ai_attempt_id :: uuid
  ai_fencing_generation :: u64
  ai_lease_token :: string

record work_offer =
  wo_identity :: attempt_identity
  wo_job_id :: uuid
  wo_trace_id :: uuid
  wo_capability :: worker_capability
  wo_requirements :: offer_requirements
  wo_payload_hash :: string
  wo_offer_expires_at_ms :: int

record cleanup_item =
  ci_id :: int
  ci_attempt_id :: uuid
  ci_job_id :: uuid
  ci_reason :: string

record cleanup_complete_request =
  cr_worker_session_id :: uuid
  cr_obligation_id :: int

record assignment_context =
  ac_job_id :: uuid
  ac_repository :: string
  ac_commit :: string

record assignment =
  as_identity :: attempt_identity
  as_trace_id :: uuid
  as_context :: assignment_context
  as_payload :: task_payload
  as_payload_hash :: string
  as_vcpu_cpuset :: "string option"

datatype desired_state = Continue | Cancel | Drain

record heartbeat_request =
  hb_identity :: attempt_identity
  hb_reliable_buffer_len :: u32

record heartbeat_response =
  hr_desired_state :: desired_state
  hr_lease_expires_at_ms :: int
  hr_highest_contiguous_reliable_seq :: u64

record reliable_event_envelope =
  re_identity :: attempt_identity
  re_trace_id :: uuid
  re_reliable_seq :: u64
  re_payload :: reliable_event_payload
  re_payload_digest :: string
  re_worker_timestamp_ms :: int

record progress_request =
  pg_identity :: attempt_identity
  pg_trace_id :: uuid
  pg_progress_seq :: u64
  pg_update :: progress_update

datatype artifact_operation = Put | Get

record artifact_grant_request =
  ag_identity :: attempt_identity
  ag_operation :: artifact_operation
  ag_key :: string
  ag_size :: "u64 option"
  ag_sha256 :: "string option"

record complete_attempt_request =
  ca_identity :: attempt_identity
  ca_trace_id :: uuid
  ca_terminal_reliable_seq :: u64
  ca_terminal_payload_digest :: string
  ca_outcome :: terminal_outcome
  ca_artifacts :: "artifact_descriptor list"

end
