(* ===== verification/Digest.thy ===== *)
theory Digest
  imports Fleet_Model "HOL-Library.List_Lexorder" "HOL-Library.Char_ord"
begin

text \<open>
  Canonical JSON and payload digests (\<open>crates/sbgh-fleet/src/digest.rs\<close>). The crates \<open>serde\<close>,
  \<open>serde_json\<close>, \<open>sha2\<close> and \<open>hex\<close> are not part of the repository: the values the
  derived serializers build, the text of a scalar and the digest of a byte string are the fields of
  an \<open>external_codec\<close>, an argument of everything that computes a digest.
\<close>

datatype protocol_error =
    Version u16 u16
  | Invalid string string
  | Serialization string

record external_codec =
  ec_task_value :: "task_payload \<Rightarrow> string + json"
  ec_event_value :: "reliable_event_payload \<Rightarrow> string + json"
  ec_outcome_value :: "terminal_outcome \<Rightarrow> string + json"
  ec_write_scalar :: "json \<Rightarrow> string + string"
  ec_sha256_hex :: "string \<Rightarrow> string"

definition map_serialization :: "string + 'a \<Rightarrow> protocol_error + 'a" where
  "map_serialization r = (case r of Inl e \<Rightarrow> Inl (Serialization e) | Inr a \<Rightarrow> Inr a)"

text \<open>The parts of an array or object, separated by commas; the first error is the result.\<close>

fun comma_joined :: "(protocol_error + string) list \<Rightarrow> protocol_error + string" where
  "comma_joined [] = Inr []"
| "comma_joined [r] = r"
| "comma_joined (r # rs) = and_then r (\<lambda>s. and_then (comma_joined rs) (\<lambda>t. Inr (s @ '','' @ t)))"

text \<open>The entries of an object in the order of their sorted keys, each value looked up by its
  key.\<close>

definition write_entries ::
  "(json \<Rightarrow> string + string) \<Rightarrow> (string \<times> (protocol_error + string)) list
     \<Rightarrow> protocol_error + string" where
  "write_entries w entries =
     comma_joined (map (\<lambda>key.
         and_then (map_serialization (w (JString key))) (\<lambda>k.
           and_then (the (map_of entries key)) (\<lambda>v. Inr (k @ '':'' @ v))))
       (sort (map fst entries)))"

primrec write_value :: "(json \<Rightarrow> string + string) \<Rightarrow> json \<Rightarrow> protocol_error + string" where
  "write_value w (JObject entries) =
     and_then (write_entries w (map (map_prod id (write_value w)) entries))
       (\<lambda>s. Inr (''{'' @ s @ ''}''))"
| "write_value w (JArray values) =
     and_then (comma_joined (map (write_value w) values)) (\<lambda>s. Inr (''['' @ s @ '']''))"
| "write_value w JNull = map_serialization (w JNull)"
| "write_value w (JBool b) = map_serialization (w (JBool b))"
| "write_value w (JNumber n) = map_serialization (w (JNumber n))"
| "write_value w (JString s) = map_serialization (w (JString s))"

definition canonical_json_bytes ::
  "external_codec \<Rightarrow> ('a \<Rightarrow> string + json) \<Rightarrow> 'a \<Rightarrow> protocol_error + string" where
  "canonical_json_bytes ext to_value x =
     and_then (map_serialization (to_value x)) (write_value (ec_write_scalar ext))"

definition payload_digest ::
  "external_codec \<Rightarrow> ('a \<Rightarrow> string + json) \<Rightarrow> 'a \<Rightarrow> protocol_error + string" where
  "payload_digest ext to_value x =
     and_then (canonical_json_bytes ext to_value x) (\<lambda>bytes. Inr (ec_sha256_hex ext bytes))"

section \<open>Independence of the insertion order\<close>

text \<open>Two values are the same data when their objects map the same keys to the same data, in
  whatever order.\<close>

inductive same_data :: "json \<Rightarrow> json \<Rightarrow> bool" where
  same_refl: "same_data v v"
| same_array: "list_all2 same_data vs vs' \<Longrightarrow> same_data (JArray vs) (JArray vs')"
| same_object:
    "\<lbrakk>distinct (map fst es); distinct (map fst es'); set (map fst es) = set (map fst es');
      \<And>k v v'. map_of es k = Some v \<Longrightarrow> map_of es' k = Some v' \<Longrightarrow> same_data v v'\<rbrakk>
     \<Longrightarrow> same_data (JObject es) (JObject es')"

lemma map_of_map_prod: "map_of (map (map_prod id f) es) k = map_option f (map_of es k)"
  by (induction es) auto

lemma map_fst_map_prod [simp]: "map fst (map (map_prod id f) es) = map fst es"
  by (induction es) auto

lemma write_entries_cong:
  assumes "distinct (map fst es)" "distinct (map fst es')" "set (map fst es) = set (map fst es')"
    and "\<And>k. k \<in> set (map fst es) \<Longrightarrow> map_of es k = map_of es' k"
  shows "write_entries w es = write_entries w es'"
proof -
  have "sort (map fst es) = sort (map fst es')"
    using assms(1-3) by (intro sorted_distinct_set_unique) simp_all
  moreover have "map_of es k = map_of es' k" if "k \<in> set (sort (map fst es'))" for k
    using that assms(3,4) by simp
  ultimately show ?thesis
    unfolding write_entries_def by (intro arg_cong [where f = comma_joined] map_cong) simp_all
qed

lemma write_value_same: "same_data v v' \<Longrightarrow> write_value w v = write_value w v'"
proof (induction rule: same_data.induct)
  case (same_array vs vs')
  then have "map (write_value w) vs = map (write_value w) vs'"
    by (auto simp: list_all2_conv_all_nth intro: nth_equalityI)
  then show ?case by simp
next
  case (same_object es es')
  have "map_of (map (map_prod id (write_value w)) es) k
      = map_of (map (map_prod id (write_value w)) es') k" if "k \<in> set (map fst es)" for k
  proof -
    from that obtain v where v: "map_of es k = Some v"
      by (cases "map_of es k") (auto simp: map_of_eq_None_iff)
    from that same_object(3) obtain v' where v': "map_of es' k = Some v'"
      by (cases "map_of es' k") (auto simp: map_of_eq_None_iff)
    from same_object.IH [OF v v'] v v' show ?thesis by (simp add: map_of_map_prod)
  qed
  then have "write_entries w (map (map_prod id (write_value w)) es)
      = write_entries w (map (map_prod id (write_value w)) es')"
    using same_object(1-3) by (intro write_entries_cong) simp_all
  then show ?case by simp
qed simp

text \<open>C35: The digest of a payload does not depend on the order in which its objects' keys were
  inserted, at any depth.\<close>

theorem payload_digest_order_independent:
  assumes "to_value x = Inr v" "to_value' y = Inr v'" "same_data v v'"
  shows "payload_digest ext to_value x = payload_digest ext to_value' y"
  using assms write_value_same
  by (simp add: payload_digest_def canonical_json_bytes_def map_serialization_def)

theorem payload_digest_order_independent_witness:
  "\<forall>ext. payload_digest ext (\<lambda>_. Inr (JObject [(''b'', JNull), (''a'', JObject [(''d'', JNull), (''c'', JBool True)])])) ()
   = payload_digest ext (\<lambda>_. Inr (JObject [(''a'', JObject [(''c'', JBool True), (''d'', JNull)]), (''b'', JNull)])) ()"
  by (rule allI, rule payload_digest_order_independent, simp, simp)
    (auto intro!: same_data.intros split: if_splits)

end
