(* ===== verification/Fleet_Validate.thy ===== *)
theory Fleet_Validate
  imports Fleet_Messages Digest
begin

text \<open>
  The validators of the fleet protocol (\<open>crates/sbgh-fleet/src/validate.rs\<close> and
  \<open>preflight.rs\<close>): one definition per \<open>impl Validate\<close>, with the source's order of checks and
  its error values. A validator that compares a digest takes the \<open>external_codec\<close>.
\<close>

section \<open>Bounds and helpers\<close>

definition MAX_LABEL :: nat where "MAX_LABEL = 96"

definition MAX_VERSION :: nat where "MAX_VERSION = 128"

definition MAX_REPOSITORY :: nat where "MAX_REPOSITORY = 512"

definition MAX_ARGS :: nat where "MAX_ARGS = 256"

definition MAX_ARG_BYTES :: nat where "MAX_ARG_BYTES = 16384"

definition MAX_ARTIFACTS :: nat where "MAX_ARTIFACTS = 256"

definition MAX_TERMINAL_TEXT_BYTES :: nat where "MAX_TERMINAL_TEXT_BYTES = 16384"

definition MAX_INVALID_BLOCKS :: nat where "MAX_INVALID_BLOCKS = 16384"

definition MAX_VALIDATION_SHARDS :: u32 where "MAX_VALIDATION_SHARDS = 4096"

definition MAX_VALIDATION_CONCURRENCY :: u32 where "MAX_VALIDATION_CONCURRENCY = 1024"

definition MAX_VALIDATION_TIMEOUT_SECS :: u64 where
  "MAX_VALIDATION_TIMEOUT_SECS = 7 * 24 * 60 * 60"

definition MIN_WORKER_TIMESTAMP_MS :: int where "MIN_WORKER_TIMESTAMP_MS = 946684800000"

definition MAX_WORKER_TIMESTAMP_MS :: int where "MAX_WORKER_TIMESTAMP_MS = 32503680000000"

primrec protocol_error_to_string :: "protocol_error \<Rightarrow> string" where
  "protocol_error_to_string (Version actual expected) =
     ''unsupported protocol version '' @ show_nat (unat actual) @ ''; expected '' @ show_nat (unat expected)"
| "protocol_error_to_string (Invalid field reason) = ''invalid '' @ field @ '': '' @ reason"
| "protocol_error_to_string (Serialization message) = ''serialization failed: '' @ message"

definition bounded :: "string \<Rightarrow> string \<Rightarrow> nat \<Rightarrow> bool \<Rightarrow> protocol_error + unit" where
  "bounded field value mx allow_empty =
     (if (\<not> allow_empty \<and> value = []) \<or> length value > mx \<or> any_control value
      then Inl (Invalid field (''must be '' @ show_nat (if allow_empty then 0 else 1) @ ''..=''
             @ show_nat mx @ '' non-control bytes''))
      else Inr ())"

text \<open>The loop of the inner \<open>normalize\<close>: \<open>out\<close> is the output so far and \<open>pending_space\<close> the flag;
  \<open>break\<close> returns the output.\<close>

fun normalize_loop :: "nat list \<Rightarrow> string \<Rightarrow> bool \<Rightarrow> string" where
  "normalize_loop [] out pending_space = out"
| "normalize_loop (c # cs) out pending_space =
     (if is_control c \<or> is_whitespace c then normalize_loop cs out (out \<noteq> [])
      else if pending_space \<and> length out = MAX_TERMINAL_TEXT_BYTES then out
      else let out = (if pending_space then out @ '' '' else out) in
        if length out + len_utf8 c > MAX_TERMINAL_TEXT_BYTES then out
        else normalize_loop cs (out @ utf8_encode c) False)"

definition normalize :: "string \<Rightarrow> string" where
  "normalize value = normalize_loop (utf8_chars value) [] False"

definition normalize_terminal_text :: "string \<Rightarrow> string \<Rightarrow> string" where
  "normalize_terminal_text value fallback =
     (let normalized = normalize value in
      if normalized \<noteq> [] then normalized
      else let fb = normalize fallback in
        if fb = [] then ''unspecified terminal outcome'' else fb)"

definition sha256 :: "string \<Rightarrow> string \<Rightarrow> protocol_error + unit" where
  "sha256 field value =
     (if length value = 64 \<and> list_all is_ascii_hexdigit value then Inr ()
      else Inl (Invalid field ''must be a 64-character hexadecimal SHA-256 digest''))"

text \<open>\<open>std::path::Path::components\<close> on Unix: repeated separators and inner \<open>.\<close> vanish, a leading
  separator is the root, a leading \<open>.\<close> without a root stays.\<close>

datatype path_component = RootDir | CurDir | ParentDir | NormalComponent string

definition path_part :: "string \<Rightarrow> path_component list" where
  "path_part s = (if s = [] \<or> s = ''.'' then [] else if s = ''..'' then [ParentDir]
     else [NormalComponent s])"

definition path_components :: "string \<Rightarrow> path_component list" where
  "path_components key =
     (let parts = split_on (CHR ''/'') key in
      (if starts_with key ''/'' then [RootDir]
       else if hd parts = ''.'' then [CurDir] else [])
      @ concat (map path_part parts))"

definition is_normal :: "path_component \<Rightarrow> bool" where
  "is_normal component = (case component of NormalComponent _ \<Rightarrow> True | _ \<Rightarrow> False)"

definition safe_key :: "string \<Rightarrow> bool" where
  "safe_key key \<longleftrightarrow> key \<noteq> [] \<and> length key \<le> 1024
     \<and> list_all (\<lambda>b. is_ascii_alphanumeric b \<or> b \<in> {CHR ''/'', CHR ''-'', CHR ''_'', CHR ''.''}) key
     \<and> list_all is_normal (path_components key)"

definition immutable_commit :: "string \<Rightarrow> bool" where
  "immutable_commit value \<longleftrightarrow>
     (length value = 40 \<or> length value = 64) \<and> list_all is_ascii_hexdigit value"

definition session_id :: "uuid \<Rightarrow> protocol_error + unit" where
  "session_id value =
     (if value = 0 then Inl (Invalid ''worker_session_id'' ''must not be nil'') else Inr ())"

definition validate_identity :: "attempt_identity \<Rightarrow> protocol_error + unit" where
  "validate_identity identity =
     (if ai_worker_session_id identity = 0 \<or> ai_attempt_id identity = 0
      then Inl (Invalid ''attempt identity'' ''UUIDs must not be nil'')
      else if ai_fencing_generation identity = 0 \<or> ai_fencing_generation identity > i64_MAX
        \<or> length (ai_lease_token identity) < 32
      then Inl (Invalid ''attempt identity'' ''fence must be non-zero and lease token must be present'')
      else Inr ())"

section \<open>Registration\<close>

definition validate_inclusive_range :: "inclusive_range \<Rightarrow> protocol_error + unit" where
  "validate_inclusive_range r =
     (if ir_start r > ir_end r then Inl (Invalid ''range'' ''inclusive start exceeds end'')
      else if ir_end r > i64_MAX
      then Inl (Invalid ''range'' ''end exceeds the durable signed-integer range'')
      else Inr ())"

definition lowercase_sha256 :: "string \<Rightarrow> bool" where
  "lowercase_sha256 digest \<longleftrightarrow> length digest = 64
     \<and> list_all (\<lambda>b. is_ascii_digit b \<or> 97 \<le> byte_of b \<and> byte_of b \<le> 102) digest"

definition validate_preflight :: "preflight_report \<Rightarrow> protocol_error + unit" where
  "validate_preflight r =
     (if pr_revision r = 0 \<or> pr_completed_at_ms r \<le> 0
      then Inl (Invalid ''preflight'' ''revision and completion timestamp must be positive'')
      else for_each (\<lambda>digest. ensure (lowercase_sha256 digest)
             (Invalid ''preflight'' ''digests must be lowercase SHA-256 hexadecimal''))
           [pr_executable_sha256 r, pr_configuration_sha256 r])"

primrec negotiation_error_to_string :: "negotiation_error \<Rightarrow> string" where
  "negotiation_error_to_string (InvalidOffer reason) = ''invalid protocol advertisement: '' @ reason"
| "negotiation_error_to_string (InvalidFloor lowest) =
     ''unsupported compatibility floor '' @ show_nat (unat lowest) @ ''; expected 1 or 2''"
| "negotiation_error_to_string (Incompatible minimum maximum lowest) =
     ''worker protocol range '' @ show_nat (unat minimum) @ ''..='' @ show_nat (unat maximum)
     @ '' does not overlap daemon range '' @ show_nat (unat lowest)
     @ ''..=2; upgrade the worker or deploy a compatible daemon''"
| "negotiation_error_to_string InvalidSelection =
     ''daemon selected an unadvertised protocol revision or feature''"

definition registration_facts ::
  "u16 \<Rightarrow> protocol_offer option \<Rightarrow> string \<Rightarrow> worker_capability set \<Rightarrow> resource_facts
     \<Rightarrow> protocol_error + unit" where
  "registration_facts protocol_version protocol_offer software_version capabilities resources =
     (if protocol_offer = None \<and> protocol_version \<noteq> PREVIOUS_PROTOCOL_REVISION
      then Inl (Version protocol_version PREVIOUS_PROTOCOL_REVISION)
      else case registration protocol_version protocol_offer of
        Inl e \<Rightarrow> Inl (Invalid ''protocol_offer'' (negotiation_error_to_string e))
      | Inr _ \<Rightarrow>
          and_then (bounded ''software_version'' software_version MAX_VERSION False) (\<lambda>_.
            if capabilities = {}
            then Inl (Invalid ''advertised_capabilities'' ''at least one capability is required'')
            else if rf_logical_cpus resources = 0 \<or> rf_memory_bytes resources = 0
            then Inl (Invalid ''resources'' ''logical_cpus and memory_bytes must be non-zero'')
            else Inr ()))"

definition validate_register_session :: "register_session_request \<Rightarrow> protocol_error + unit" where
  "validate_register_session r =
     and_then (case rr_preflight r of None \<Rightarrow> Inr () | Some p \<Rightarrow> validate_preflight p) (\<lambda>_.
       and_then (registration_facts (rr_protocol_version r) (rr_protocol_offer r)
           (rr_software_version r) (rr_advertised_capabilities r) (rr_resources r)) (\<lambda>_.
         if rr_worker_session_id r = 0
         then Inl (Invalid ''worker_session_id'' ''UUID must not be nil'') else Inr ()))"

definition validate_registration_check ::
  "registration_check_request \<Rightarrow> protocol_error + unit" where
  "validate_registration_check r =
     registration_facts (rc_protocol_version r) (rc_protocol_offer r) (rc_software_version r)
       (rc_advertised_capabilities r) (rc_resources r)"

definition validate_cleanup_complete :: "cleanup_complete_request \<Rightarrow> protocol_error + unit" where
  "validate_cleanup_complete r =
     and_then (session_id (cr_worker_session_id r)) (\<lambda>_.
       if cr_obligation_id r \<le> 0 then Inl (Invalid ''obligation_id'' ''must be positive'')
       else Inr ())"

definition validate_heartbeat :: "heartbeat_request \<Rightarrow> protocol_error + unit" where
  "validate_heartbeat r =
     and_then (validate_identity (hb_identity r)) (\<lambda>_.
       if hb_reliable_buffer_len r > 4096
       then Inl (Invalid ''reliable_buffer_len'' ''exceeds the protocol telemetry bound'')
       else Inr ())"

section \<open>Events and progress\<close>

definition validate_event_payload :: "reliable_event_payload \<Rightarrow> protocol_error + unit" where
  "validate_event_payload payload =
     (case payload of
        Phase label elapsed_ms \<Rightarrow>
          and_then (bounded ''phase label'' label MAX_LABEL False) (\<lambda>_.
            if elapsed_ms > MAX_VALIDATION_TIMEOUT_SECS * 1000
            then Inl (Invalid ''phase elapsed_ms'' ''exceeds the maximum task duration'')
            else Inr ())
      | Terminal outcome_digest \<Rightarrow> sha256 ''terminal outcome digest'' outcome_digest)"

definition validate_reliable_event ::
  "external_codec \<Rightarrow> reliable_event_envelope \<Rightarrow> protocol_error + unit" where
  "validate_reliable_event ext r =
     and_then (validate_identity (re_identity r)) (\<lambda>_.
       if re_reliable_seq r = 0 \<or> re_reliable_seq r > i64_MAX
       then Inl (Invalid ''reliable_seq'' ''sequence starts at 1'')
       else if re_trace_id r = 0 then Inl (Invalid ''trace_id'' ''must not be nil'')
       else if \<not> (MIN_WORKER_TIMESTAMP_MS \<le> re_worker_timestamp_ms r
                  \<and> re_worker_timestamp_ms r \<le> MAX_WORKER_TIMESTAMP_MS)
       then Inl (Invalid ''worker_timestamp_ms'' ''is outside the supported timestamp range'')
       else and_then (validate_event_payload (re_payload r)) (\<lambda>_.
         and_then (sha256 ''payload_digest'' (re_payload_digest r)) (\<lambda>_.
           and_then (payload_digest ext (ec_event_value ext) (re_payload r)) (\<lambda>digest.
             if digest \<noteq> re_payload_digest r
             then Inl (Invalid ''payload_digest'' ''does not match canonical payload bytes'')
             else Inr ()))))"

definition validate_progress :: "progress_request \<Rightarrow> protocol_error + unit" where
  "validate_progress r =
     (let update = pg_update r in
      and_then (validate_identity (pg_identity r)) (\<lambda>_.
        if pg_trace_id r = 0 \<or> pg_progress_seq r = 0 \<or> pg_progress_seq r > i64_MAX
        then Inl (Invalid ''progress identity'' ''trace id and progress sequence must be present'')
        else and_then (bounded ''progress.workflow_step'' (pu_workflow_step update) MAX_LABEL False) (\<lambda>_.
          and_then (bounded ''progress.phase'' (pu_phase update) MAX_LABEL False) (\<lambda>_.
            if pu_run_index update < 0 \<or> pu_requested_run_count update < 1
              \<or> pu_run_index update \<ge> pu_requested_run_count update
            then Inl (Invalid ''progress run'' ''run index must be within requested run count'')
            else if (case pu_total update of None \<Rightarrow> False
                     | Some tot \<Rightarrow> tot = 0 \<or> pu_progress update > tot)
            then Inl (Invalid ''progress total'' ''must be non-zero and not less than progress'')
            else (case pu_message update of
                    None \<Rightarrow> Inr ()
                  | Some message \<Rightarrow> bounded ''progress.message'' message 4096 True)))))"

section \<open>Task payloads and assignments\<close>

definition validate_benchmark_payload :: "benchmark_payload \<Rightarrow> protocol_error + unit" where
  "validate_benchmark_payload payload =
     (if length (bp_effective_args payload) > MAX_ARGS
      then Inl (Invalid ''effective_args''
             (''at most '' @ show_nat MAX_ARGS @ '' arguments are allowed''))
      else if sum_list (map length (bp_effective_args payload)) > MAX_ARG_BYTES
        \<or> list_ex any_control (bp_effective_args payload)
      then Inl (Invalid ''effective_args''
             (''must contain at most '' @ show_nat MAX_ARG_BYTES @ '' non-control bytes''))
      else if bp_run_index payload < 0 \<or> bp_requested_run_count payload < 1
        \<or> bp_run_index payload \<ge> bp_requested_run_count payload
      then Inl (Invalid ''benchmark run'' ''run index must be within requested run count'')
      else if (case bp_baseline_calibration_id payload of None \<Rightarrow> False | Some i \<Rightarrow> i \<le> 0)
      then Inl (Invalid ''baseline_calibration_id'' ''must be positive when present'')
      else and_then (case bp_workload_key payload of None \<Rightarrow> Inr ()
                     | Some key \<Rightarrow> bounded ''workload_key'' key 512 False) (\<lambda>_.
        if (case bp_sqlite_seed_key payload of None \<Rightarrow> False | Some key \<Rightarrow> \<not> safe_key key)
        then Inl (Invalid ''sqlite_seed_key'' ''must be a relative normal-component key'')
        else Inr ()))"

definition validate_block_validation_payload ::
  "block_validation_payload \<Rightarrow> protocol_error + unit" where
  "validate_block_validation_payload payload =
     and_then
       (case vp_selection payload of
          Recent block_count \<Rightarrow>
            if block_count = 0 \<or> block_count > i64_MAX
            then Inl (Invalid ''block_validation.selection.recent.block_count''
                   ''must be within 1..=i64::MAX'')
            else Inr ()
        | Full \<Rightarrow> Inr ()
        | Range rng \<Rightarrow> validate_inclusive_range rng)
       (\<lambda>_. if vp_timeout_secs payload = 0
            then Inl (Invalid ''block_validation'' ''timeout must be non-zero'')
            else if vp_timeout_secs payload > MAX_VALIDATION_TIMEOUT_SECS
            then Inl (Invalid ''block_validation'' ''timeout exceeds the protocol bound'')
            else Inr ())"

definition validate_task_payload :: "task_payload \<Rightarrow> protocol_error + unit" where
  "validate_task_payload payload =
     (case payload of
        TaskBenchmark b \<Rightarrow> validate_benchmark_payload b
      | TaskBuildOnly \<Rightarrow> Inr ()
      | TaskBlockValidation v \<Rightarrow> validate_block_validation_payload v)"

definition repository_name_part :: "string \<Rightarrow> bool" where
  "repository_name_part part \<longleftrightarrow> part \<noteq> []
     \<and> list_all (\<lambda>b. is_ascii_alphanumeric b \<or> b \<in> {CHR ''-'', CHR ''_'', CHR ''.''}) part"

definition valid_cpuset :: "string \<Rightarrow> bool" where
  "valid_cpuset cpuset \<longleftrightarrow> cpuset \<noteq> [] \<and> length cpuset \<le> 256
     \<and> list_all (\<lambda>b. is_ascii_digit b \<or> b \<in> {CHR '','', CHR ''-'', CHR ''^''}) cpuset"

definition validate_assignment :: "external_codec \<Rightarrow> assignment \<Rightarrow> protocol_error + unit" where
  "validate_assignment ext a =
     and_then (validate_identity (as_identity a)) (\<lambda>_.
       if as_trace_id a = 0 \<or> ac_job_id (as_context a) = 0
       then Inl (Invalid ''assignment identity'' ''trace and job UUIDs must not be nil'')
       else and_then (bounded ''repository'' (ac_repository (as_context a)) MAX_REPOSITORY False) (\<lambda>_.
         let repository_parts = split_on (CHR ''/'') (ac_repository (as_context a)) in
         if length repository_parts \<noteq> 2 \<or> \<not> list_all repository_name_part repository_parts
         then Inl (Invalid ''repository'' ''expected a non-empty ASCII owner/name'')
         else if \<not> immutable_commit (ac_commit (as_context a))
         then Inl (Invalid ''commit''
                ''must be an immutable 40- or 64-character hexadecimal object id'')
         else if (case as_vcpu_cpuset a of None \<Rightarrow> False | Some cpuset \<Rightarrow> \<not> valid_cpuset cpuset)
         then Inl (Invalid ''vcpu_cpuset'' ''contains unsupported characters or exceeds 256 bytes'')
         else and_then (validate_task_payload (as_payload a)) (\<lambda>_.
           and_then (sha256 ''payload_hash'' (as_payload_hash a)) (\<lambda>_.
             and_then (payload_digest ext (ec_task_value ext) (as_payload a)) (\<lambda>digest.
               if digest \<noteq> as_payload_hash a
               then Inl (Invalid ''payload_hash'' ''does not match canonical task payload'')
               else Inr ())))))"

section \<open>Artifacts and terminal outcomes\<close>

definition validate_artifact_grant :: "artifact_grant_request \<Rightarrow> protocol_error + unit" where
  "validate_artifact_grant r =
     and_then (validate_identity (ag_identity r)) (\<lambda>_.
       if \<not> safe_key (ag_key r)
       then Inl (Invalid ''artifact key'' ''must be a relative normal-component key'')
       else and_then (case ag_sha256 r of None \<Rightarrow> Inr ()
                      | Some digest \<Rightarrow> sha256 ''artifact sha256'' digest) (\<lambda>_.
         if (case ag_size r of None \<Rightarrow> False | Some n \<Rightarrow> n > i64_MAX)
         then Inl (Invalid ''artifact size'' ''exceeds the durable signed-integer range'')
         else Inr ()))"

definition validate_artifact_descriptor :: "artifact_descriptor \<Rightarrow> protocol_error + unit" where
  "validate_artifact_descriptor a =
     (if \<not> safe_key (ad_key a)
      then Inl (Invalid ''artifact key'' ''must be a relative normal-component key'')
      else if \<not> safe_key (ad_logical_key a)
      then Inl (Invalid ''artifact logical key'' ''must be a relative normal-component key'')
      else and_then (sha256 ''artifact sha256'' (ad_sha256 a)) (\<lambda>_.
        if ad_size a > i64_MAX
        then Inl (Invalid ''artifact size'' ''exceeds the durable signed-integer range'')
        else Inr ()))"

definition validate_invalid_block :: "invalid_block \<Rightarrow> protocol_error + unit" where
  "validate_invalid_block b =
     and_then (bounded ''invalid_block.block'' (ib_block b) 512 False) (\<lambda>_.
       bounded ''invalid_block.reason'' (ib_reason b) 4096 False)"

text \<open>The loop of \<open>validate_artifacts\<close> with the two sets of keys seen so far. The second
  \<open>insert\<close> of the condition runs only when the first key was new.\<close>

fun validate_artifacts_loop ::
  "artifact_descriptor list \<Rightarrow> string set \<Rightarrow> string set \<Rightarrow> protocol_error + unit" where
  "validate_artifacts_loop [] keys logical_keys = Inr ()"
| "validate_artifacts_loop (a # as) keys logical_keys =
     and_then (validate_artifact_descriptor a) (\<lambda>_.
       if ad_key a \<in> keys \<or> ad_logical_key a \<in> logical_keys
       then Inl (Invalid ''artifacts'' ''object and logical keys must be unique'')
       else validate_artifacts_loop as (insert (ad_key a) keys)
              (insert (ad_logical_key a) logical_keys))"

definition validate_artifacts :: "artifact_descriptor list \<Rightarrow> protocol_error + unit" where
  "validate_artifacts artifacts =
     (if length artifacts > MAX_ARTIFACTS
      then Inl (Invalid ''artifacts''
             (''at most '' @ show_nat MAX_ARTIFACTS @ '' artifacts are allowed''))
      else validate_artifacts_loop artifacts {} {})"

definition validate_terminal_block_validation ::
  "block_validation_result \<Rightarrow> protocol_error + unit" where
  "validate_terminal_block_validation result =
     and_then (bounded ''block_validation.chainstate_origin'' (vr_chainstate_origin result) 512 False) (\<lambda>_.
       and_then (validate_inclusive_range (vr_resolved_range result)) (\<lambda>_.
         if ov_pre_nakamoto_count (vr_observed result) = 0 \<or> ov_nakamoto_count (vr_observed result) = 0
         then Inl (Invalid ''block_validation.observed'' ''both epoch counts must be non-zero'')
         else if vr_shard_count result = 0 \<or> vr_shard_count result > MAX_VALIDATION_SHARDS
           \<or> vr_max_concurrency result = 0 \<or> vr_max_concurrency result > MAX_VALIDATION_CONCURRENCY
           \<or> vr_max_concurrency result > vr_shard_count result
         then Inl (Invalid ''block_validation.resource_plan'' ''invalid shard or concurrency count'')
         else if vr_segments result = [] \<or> length (vr_segments result) > 2
         then Inl (Invalid ''block_validation.segments'' ''must contain one or two epoch segments'')
         else and_then (for_each (\<lambda>segment.
             and_then (validate_inclusive_range (sg_global_range segment)) (\<lambda>_.
               validate_inclusive_range (sg_local_range segment))) (vr_segments result)) (\<lambda>_.
           if vr_checked_blocks result > i64_MAX
           then Inl (Invalid ''block_validation.checked_blocks''
                  ''exceeds the durable signed-integer range'')
           else if length (vr_invalid_blocks result) > MAX_INVALID_BLOCKS
           then Inl (Invalid ''block_validation.invalid_blocks''
                  (''at most '' @ show_nat MAX_INVALID_BLOCKS @ '' invalid blocks are allowed''))
           else if vr_valid result \<noteq> (vr_invalid_blocks result = [])
           then Inl (Invalid ''block_validation.valid''
                  ''must be true exactly when no invalid blocks are present'')
           else for_each validate_invalid_block (vr_invalid_blocks result))))"

definition validate_terminal_outcome :: "terminal_outcome \<Rightarrow> protocol_error + unit" where
  "validate_terminal_outcome outcome =
     (case outcome of
        Completed _ (Some result) \<Rightarrow> validate_terminal_block_validation result
      | Completed _ None \<Rightarrow> Inr ()
      | Failed error _ _ \<Rightarrow> bounded ''terminal.error'' error MAX_TERMINAL_TEXT_BYTES False
      | Cancelled reason \<Rightarrow> bounded ''terminal.reason'' reason MAX_TERMINAL_TEXT_BYTES False)"

definition validate_complete_attempt ::
  "external_codec \<Rightarrow> complete_attempt_request \<Rightarrow> protocol_error + unit" where
  "validate_complete_attempt ext r =
     and_then (validate_identity (ca_identity r)) (\<lambda>_.
       if ca_trace_id r = 0 \<or> ca_terminal_reliable_seq r = 0 \<or> ca_terminal_reliable_seq r > i64_MAX
       then Inl (Invalid ''terminal identity'' ''trace id and terminal sequence must be present'')
       else and_then (sha256 ''terminal_payload_digest'' (ca_terminal_payload_digest r)) (\<lambda>_.
         and_then (validate_artifacts (ca_artifacts r)) (\<lambda>_.
           and_then (validate_terminal_outcome (ca_outcome r)) (\<lambda>_.
             and_then (payload_digest ext (ec_outcome_value ext) (ca_outcome r)) (\<lambda>outcome_digest.
               and_then (payload_digest ext (ec_event_value ext) (Terminal outcome_digest)) (\<lambda>digest.
                 if digest \<noteq> ca_terminal_payload_digest r
                 then Inl (Invalid ''terminal_payload_digest''
                        ''does not bind the submitted terminal outcome'')
                 else Inr ()))))))"

section \<open>Block validation results\<close>

text \<open>The range the durable selector means for a chain of \<open>tot\<close> blocks.\<close>

definition expected_range ::
  "block_validation_selection \<Rightarrow> observed_validation_index \<Rightarrow> u64 \<Rightarrow> protocol_error + inclusive_range"
where
  "expected_range selection observed tot =
     (case selection of
        Recent block_count \<Rightarrow>
          if block_count = 0
          then Inl (Invalid ''block_validation.selection.recent.block_count'' ''must be non-zero'')
          else let count = min block_count (ov_nakamoto_count observed) in
            Inr \<lparr>ir_start = tot - count, ir_end = tot - 1\<rparr>
      | Full \<Rightarrow> Inr \<lparr>ir_start = 0, ir_end = tot - 1\<rparr>
      | Range rng \<Rightarrow>
          if ir_start rng > ir_end rng \<or> ir_end rng \<ge> tot
          then Inl (Invalid ''block_validation.selection.range''
                 ''is reversed or exceeds observed coverage'')
          else Inr rng)"

definition expected_segments ::
  "inclusive_range \<Rightarrow> u64 \<Rightarrow> validation_epoch_segment list" where
  "expected_segments rng pre_count =
     (if ir_start rng < pre_count
      then let e = min (ir_end rng) (pre_count - 1) in
        [\<lparr>sg_epoch = PreNakamoto,
          sg_global_range = \<lparr>ir_start = ir_start rng, ir_end = e\<rparr>,
          sg_local_range = \<lparr>ir_start = ir_start rng, ir_end = e\<rparr>\<rparr>]
      else [])
     @ (if ir_end rng \<ge> pre_count
        then let st = max (ir_start rng) pre_count in
          [\<lparr>sg_epoch = Nakamoto,
            sg_global_range = \<lparr>ir_start = st, ir_end = ir_end rng\<rparr>,
            sg_local_range = \<lparr>ir_start = st - pre_count, ir_end = ir_end rng - pre_count\<rparr>\<rparr>]
        else [])"

definition validate_block_validation_result ::
  "block_validation_payload \<Rightarrow> block_validation_result \<Rightarrow> protocol_error + unit" where
  "validate_block_validation_result payload result =
     (let observed = vr_observed result in
      if ov_pre_nakamoto_count observed = 0 \<or> ov_nakamoto_count observed = 0
      then Inl (Invalid ''block_validation.observed'' ''both epoch counts must be non-zero'')
      else case checked_add (ov_pre_nakamoto_count observed) (ov_nakamoto_count observed) of
        None \<Rightarrow> Inl (Invalid ''block_validation.observed'' ''total coverage overflows u64'')
      | Some tot \<Rightarrow>
          if tot > i64_MAX
          then Inl (Invalid ''block_validation.observed''
                 ''total coverage exceeds the durable signed-integer range'')
          else and_then (expected_range (vp_selection payload) observed tot) (\<lambda>rng.
            if vr_resolved_range result \<noteq> rng
            then Inl (Invalid ''block_validation.resolved_range''
                   ''does not match the durable selector and observed coverage'')
            else if vr_segments result \<noteq> expected_segments rng (ov_pre_nakamoto_count observed)
            then Inl (Invalid ''block_validation.segments''
                   ''do not exactly and gaplessly cover the resolved range'')
            else case Option.bind (checked_sub (ir_end rng) (ir_start rng)) (\<lambda>w. checked_add w 1) of
              None \<Rightarrow> Inl (Invalid ''block_validation.checked_blocks''
                       ''resolved range length overflows u64'')
            | Some checked_blocks \<Rightarrow>
                if vr_checked_blocks result \<noteq> checked_blocks
                  \<or> list_ex (\<lambda>invalid. ib_shard invalid \<ge> vr_shard_count result)
                      (vr_invalid_blocks result)
                then Inl (Invalid ''block_validation.result''
                       ''checked count or invalid-block shard does not match the resolved plan'')
                else Inr ()))"

section \<open>Correctness of the validators\<close>

lemma bounded_ok [result_simps]:
  "bounded field value mx allow_empty = Inr u \<longleftrightarrow>
     (allow_empty \<or> value \<noteq> []) \<and> length value \<le> mx \<and> \<not> any_control value"
  by (auto simp: bounded_def)

lemma sha256_ok [result_simps]:
  "sha256 field value = Inr u \<longleftrightarrow> length value = 64 \<and> list_all is_ascii_hexdigit value"
  by (auto simp: sha256_def)

lemma validate_identity_ok [result_simps]:
  "validate_identity i = Inr u \<longleftrightarrow> ai_worker_session_id i \<noteq> 0 \<and> ai_attempt_id i \<noteq> 0
     \<and> ai_fencing_generation i \<noteq> 0 \<and> ai_fencing_generation i \<le> i64_MAX
     \<and> 32 \<le> length (ai_lease_token i)"
  by (auto simp: validate_identity_def)

lemma validate_inclusive_range_ok [result_simps]:
  "validate_inclusive_range r = Inr u \<longleftrightarrow> ir_start r \<le> ir_end r \<and> ir_end r \<le> i64_MAX"
  by (auto simp: validate_inclusive_range_def)

lemma validate_artifact_descriptor_ok [result_simps]:
  "validate_artifact_descriptor a = Inr u \<longleftrightarrow> safe_key (ad_key a) \<and> safe_key (ad_logical_key a)
     \<and> length (ad_sha256 a) = 64 \<and> list_all is_ascii_hexdigit (ad_sha256 a) \<and> ad_size a \<le> i64_MAX"
  by (auto simp: validate_artifact_descriptor_def result_simps)

subsection \<open>Terminal text\<close>

text \<open>The output of the loop is always the encoding of printable characters within the bound.\<close>

definition clean_text :: "string \<Rightarrow> bool" where
  "clean_text s \<longleftrightarrow> length s \<le> MAX_TERMINAL_TEXT_BYTES
     \<and> (\<exists>cs. s = utf8_string cs \<and> list_all (\<lambda>c. code_point c \<and> \<not> is_control c) cs)"

lemma clean_text_append:
  assumes "clean_text s" "length s + len_utf8 c \<le> MAX_TERMINAL_TEXT_BYTES" "code_point c"
    "\<not> is_control c"
  shows "clean_text (s @ utf8_encode c)"
proof -
  from assms(1) obtain cs where "s = utf8_string cs" "list_all (\<lambda>c. code_point c \<and> \<not> is_control c) cs"
    unfolding clean_text_def by blast
  with assms(2-4) show ?thesis
    unfolding clean_text_def
    by (intro conjI exI [where x = "cs @ [c]"]) (simp_all add: length_utf8_encode)
qed

lemma space_char: "utf8_encode 32 = '' ''" "len_utf8 32 = 1" "code_point 32" "\<not> is_control 32"
  using utf8_string_ascii [of "'' ''"]
  by (simp_all add: byte_of_def len_utf8_def code_point_def is_control_def)

lemma clean_text_space:
  assumes "clean_text s" "length s \<noteq> MAX_TERMINAL_TEXT_BYTES"
  shows "clean_text (s @ '' '')"
  using clean_text_append [of s 32] assms by (simp add: space_char clean_text_def)

lemma normalize_loop_clean:
  assumes "list_all code_point cs" "clean_text out"
  shows "clean_text (normalize_loop cs out pending)"
  using assms
proof (induction cs out pending rule: normalize_loop.induct)
  case (2 c cs out pending)
  show ?case
  proof (cases "is_control c \<or> is_whitespace c \<or> (pending \<and> length out = MAX_TERMINAL_TEXT_BYTES)")
    case True
    with 2 show ?thesis by auto
  next
    case False
    define out' where "out' = (if pending then out @ '' '' else out)"
    have "clean_text out'" using False 2 clean_text_space by (auto simp: out'_def)
    with False 2 show ?thesis
      by (auto simp: out'_def [symmetric] Let_def clean_text_append)
  qed
qed simp

lemma normalize_loop_extends: "\<exists>t. normalize_loop cs out pending = out @ t"
  by (induction cs out pending rule: normalize_loop.induct) (auto simp: Let_def split: if_splits)

lemma clean_text_bounded:
  "clean_text s \<Longrightarrow> s \<noteq> [] \<Longrightarrow> bounded field s MAX_TERMINAL_TEXT_BYTES False = Inr ()"
  by (auto simp: bounded_ok clean_text_def any_control_def utf8_chars_string list_all_iff list_ex_iff)

lemma normalize_clean: "clean_text (normalize value)"
  unfolding normalize_def
  by (rule normalize_loop_clean)
    (simp_all add: utf8_chars_code_point clean_text_def exI [where x = "[]"])

lemma clean_text_ascii:
  assumes "list_all (\<lambda>c. 32 \<le> byte_of c \<and> byte_of c < 127) s" "length s \<le> MAX_TERMINAL_TEXT_BYTES"
  shows "clean_text s"
proof -
  have "utf8_string (map byte_of s) = s"
    using assms(1) by (intro utf8_string_ascii) (auto simp: list_all_iff)
  moreover have "list_all (\<lambda>c. code_point c \<and> \<not> is_control c) (map byte_of s)"
    using assms(1) by (auto simp: list_all_iff code_point_def is_control_def)
  ultimately show ?thesis using assms(2) unfolding clean_text_def by metis
qed

text \<open>C36: Whatever diagnostic text a worker holds, its normalised form passes the protocol's check
  of terminal texts: it is non-empty, within the byte bound and free of control characters.\<close>

theorem normalize_terminal_text_accepted:
  "bounded field (normalize_terminal_text value fallback) MAX_TERMINAL_TEXT_BYTES False = Inr ()"
proof -
  have "clean_text ''unspecified terminal outcome''"
    by (rule clean_text_ascii) (simp_all add: MAX_TERMINAL_TEXT_BYTES_def byte_of_def)
  then show ?thesis
    using clean_text_bounded normalize_clean by (simp add: normalize_terminal_text_def Let_def)
qed

subsection \<open>Block validation coverage\<close>

text \<open>The blocks a range denotes, and the blocks a durable selector denotes on a chain with
  \<open>pre\<close> blocks before Nakamoto and \<open>nak\<close> Nakamoto blocks.\<close>

definition range_blocks :: "inclusive_range \<Rightarrow> nat set" where
  "range_blocks r = {unat (ir_start r)..unat (ir_end r)}"

definition selected_blocks :: "block_validation_selection \<Rightarrow> nat \<Rightarrow> nat \<Rightarrow> nat set" where
  "selected_blocks selection pre nak =
     (case selection of
        Recent n \<Rightarrow> {pre + nak - min (unat n) nak..<pre + nak}
      | Full \<Rightarrow> {..<pre + nak}
      | Range rng \<Rightarrow> range_blocks rng)"

lemma unat_total_minus_one:
  assumes "(tot::u64) \<noteq> 0"
  shows "unat (tot - 1) = unat tot - 1"
  using assms by (simp add: unat_sub word_le_nat_alt unat_gt_0 Suc_le_eq)

lemma unat_min: "unat (min a b :: u64) = min (unat a) (unat b)"
  by (simp add: min_def word_le_nat_alt)

lemma unat_max: "unat (max a b :: u64) = max (unat a) (unat b)"
  by (simp add: max_def word_le_nat_alt)

lemma expected_range_selected:
  assumes "expected_range selection observed tot = Inr r"
    and "unat tot = unat (ov_pre_nakamoto_count observed) + unat (ov_nakamoto_count observed)"
    and "ov_nakamoto_count observed \<noteq> 0"
  shows "range_blocks r = selected_blocks selection (unat (ov_pre_nakamoto_count observed))
       (unat (ov_nakamoto_count observed))"
    and "unat (ir_start r) \<le> unat (ir_end r)" and "unat (ir_end r) < unat tot"
proof -
  have pos: "0 < unat (ov_nakamoto_count observed)" using assms(3) by (simp add: unat_gt_0)
  then have "tot \<noteq> 0" using assms(2) by auto
  note last = unat_total_minus_one [OF this]
  have "range_blocks r = selected_blocks selection (unat (ov_pre_nakamoto_count observed))
       (unat (ov_nakamoto_count observed)) \<and> unat (ir_start r) \<le> unat (ir_end r)
       \<and> unat (ir_end r) < unat tot"
  proof (cases selection)
    case (Recent n)
    let ?m = "min n (ov_nakamoto_count observed)"
    have n: "n \<noteq> 0" and r: "r = \<lparr>ir_start = tot - ?m, ir_end = tot - 1\<rparr>"
      using assms(1) Recent by (auto simp: expected_range_def Let_def split: if_splits)
    have "?m \<le> tot" using assms(2) by (simp add: word_le_nat_alt unat_min)
    then have "unat (tot - ?m) = unat tot - min (unat n) (unat (ov_nakamoto_count observed))"
      by (simp add: unat_sub unat_min)
    moreover have "0 < unat n" using n by (simp add: unat_gt_0)
    ultimately show ?thesis
      using pos last assms(2) by (auto simp: r Recent range_blocks_def selected_blocks_def)
  next
    case Full
    then have "r = \<lparr>ir_start = 0, ir_end = tot - 1\<rparr>"
      using assms(1) by (simp add: expected_range_def)
    then show ?thesis
      using pos last assms(2) by (auto simp: Full range_blocks_def selected_blocks_def)
  next
    case (Range rng)
    then show ?thesis
      using assms(1) by (auto simp: expected_range_def selected_blocks_def word_le_nat_alt
          word_less_nat_alt split: if_splits)
  qed
  then show "range_blocks r = selected_blocks selection (unat (ov_pre_nakamoto_count observed))
       (unat (ov_nakamoto_count observed))" "unat (ir_start r) \<le> unat (ir_end r)"
    "unat (ir_end r) < unat tot" by auto
qed

text \<open>What it means for segments to cover a range: together they are the range, no two share a
  block, each lies in its epoch and its local range is the global one counted from the start of
  the epoch.\<close>

definition segment_in_epoch :: "nat \<Rightarrow> nat \<Rightarrow> validation_epoch_segment \<Rightarrow> bool" where
  "segment_in_epoch pre nak s \<longleftrightarrow>
     (case sg_epoch s of
        PreNakamoto \<Rightarrow> range_blocks (sg_global_range s) \<subseteq> {..<pre}
          \<and> range_blocks (sg_local_range s) = range_blocks (sg_global_range s)
      | Nakamoto \<Rightarrow> range_blocks (sg_global_range s) \<subseteq> {pre..<pre + nak}
          \<and> (\<lambda>b. pre + b) ` range_blocks (sg_local_range s) = range_blocks (sg_global_range s))"

definition covers :: "validation_epoch_segment list \<Rightarrow> nat set \<Rightarrow> bool" where
  "covers segments blocks \<longleftrightarrow>
     (\<Union>s \<in> set segments. range_blocks (sg_global_range s)) = blocks
     \<and> pairwise (\<lambda>s t. range_blocks (sg_global_range s) \<inter> range_blocks (sg_global_range t) = {})
         (set segments)
     \<and> distinct segments"

lemma expected_segments_cover:
  assumes pre: "pre_count \<noteq> 0" and le: "unat (ir_start r) \<le> unat (ir_end r)"
    and lt: "unat (ir_end r) < unat pre_count + nak"
  shows "covers (expected_segments r pre_count) (range_blocks r)"
    and "list_all (segment_in_epoch (unat pre_count) nak) (expected_segments r pre_count)"
proof -
  let ?s = "unat (ir_start r)" and ?e = "unat (ir_end r)" and ?p = "unat pre_count"
  have p: "0 < ?p" and last: "unat (pre_count - 1) = ?p - 1"
    using pre by (simp_all add: unat_gt_0 unat_total_minus_one)
  have sub: "pre_count \<le> x \<Longrightarrow> unat (x - pre_count) = unat x - ?p" for x
    by (simp add: unat_sub)
  have shift: "(\<lambda>b. ?p + b) ` {a - ?p..b - ?p} = {a..b}" if "?p \<le> a" "a \<le> b" for a b
    using that by (simp add: image_add_atLeastAtMost)
  show "covers (expected_segments r pre_count) (range_blocks r)"
    using le p
    by (auto simp: covers_def expected_segments_def range_blocks_def pairwise_def Let_def last
        unat_min unat_max word_le_nat_alt word_less_nat_alt)
  show "list_all (segment_in_epoch ?p nak) (expected_segments r pre_count)"
    using le lt p shift [of "max ?s ?p" ?e]
    by (auto simp: expected_segments_def segment_in_epoch_def range_blocks_def Let_def last
        unat_min unat_max sub word_le_nat_alt word_less_nat_alt)
qed

text \<open>C37: A block-validation result that passes the check covers exactly the blocks the durable
  selector means on the observed chain: the resolved range is the selector's, the segments cover
  it without gap or overlap and with the right epoch-local indices, and the number of checked blocks
  is the number of blocks selected.\<close>

theorem block_validation_result_covers:
  assumes "validate_block_validation_result payload result = Inr ()"
  defines "pre \<equiv> unat (ov_pre_nakamoto_count (vr_observed result))"
    and "nak \<equiv> unat (ov_nakamoto_count (vr_observed result))"
  shows "range_blocks (vr_resolved_range result) = selected_blocks (vp_selection payload) pre nak
    \<and> covers (vr_segments result) (selected_blocks (vp_selection payload) pre nak)
    \<and> list_all (segment_in_epoch pre nak) (vr_segments result)
    \<and> selected_blocks (vp_selection payload) pre nak \<subseteq> {..<pre + nak}
    \<and> unat (vr_checked_blocks result) = card (selected_blocks (vp_selection payload) pre nak)
    \<and> 0 < unat (vr_checked_blocks result)
    \<and> (\<forall>b \<in> set (vr_invalid_blocks result). ib_shard b < vr_shard_count result)"
proof -
  obtain tot where tot: "checked_add (ov_pre_nakamoto_count (vr_observed result))
        (ov_nakamoto_count (vr_observed result)) = Some tot"
    and nz: "ov_pre_nakamoto_count (vr_observed result) \<noteq> 0"
      "ov_nakamoto_count (vr_observed result) \<noteq> 0"
    and rng: "expected_range (vp_selection payload) (vr_observed result) tot
        = Inr (vr_resolved_range result)"
    and seg: "vr_segments result
        = expected_segments (vr_resolved_range result) (ov_pre_nakamoto_count (vr_observed result))"
    and chk: "Option.bind (checked_sub (ir_end (vr_resolved_range result))
        (ir_start (vr_resolved_range result))) (\<lambda>w. checked_add w 1) = Some (vr_checked_blocks result)"
    and inv: "\<not> list_ex (\<lambda>i. ib_shard i \<ge> vr_shard_count result) (vr_invalid_blocks result)"
    using assms(1)
    by (auto simp: validate_block_validation_result_def Let_def result_simps
        split: option.splits if_splits)
  have tot': "unat tot = pre + nak"
    using checked_add_unat [OF tot] by (simp add: pre_def nak_def)
  note r = expected_range_selected [OF rng, folded pre_def nak_def, OF tot' nz(2)]
  have len: "unat (vr_checked_blocks result)
      = unat (ir_end (vr_resolved_range result)) - unat (ir_start (vr_resolved_range result)) + 1"
    using chk by (auto simp: bind_eq_Some_conv dest!: checked_add_unat checked_sub_unat)
  note c = expected_segments_cover [OF nz(1) r(2) r(3) [unfolded tot' pre_def]]
  show ?thesis
    using r c len inv
    by (auto simp: seg pre_def [symmetric] r(1) [symmetric] list_ex_iff range_blocks_def tot')
qed

theorem block_validation_result_covers_witness:
  "covers [\<lparr>sg_epoch = PreNakamoto, sg_global_range = \<lparr>ir_start = 1, ir_end = 1\<rparr>,
       sg_local_range = \<lparr>ir_start = 1, ir_end = 1\<rparr>\<rparr>,
      \<lparr>sg_epoch = Nakamoto, sg_global_range = \<lparr>ir_start = 2, ir_end = 4\<rparr>,
       sg_local_range = \<lparr>ir_start = 0, ir_end = 2\<rparr>\<rparr>]
     (selected_blocks (Range \<lparr>ir_start = 1, ir_end = 4\<rparr>) 2 5)"
proof -
  let ?result = "\<lparr>vr_valid = True, vr_checked_blocks = 4, vr_invalid_blocks = [],
    vr_chainstate_origin = ''origin'',
    vr_observed = \<lparr>ov_pre_nakamoto_count = 2, ov_nakamoto_count = 5\<rparr>,
    vr_resolved_range = \<lparr>ir_start = 1, ir_end = 4\<rparr>,
    vr_segments = [\<lparr>sg_epoch = PreNakamoto, sg_global_range = \<lparr>ir_start = 1, ir_end = 1\<rparr>,
       sg_local_range = \<lparr>ir_start = 1, ir_end = 1\<rparr>\<rparr>,
      \<lparr>sg_epoch = Nakamoto, sg_global_range = \<lparr>ir_start = 2, ir_end = 4\<rparr>,
       sg_local_range = \<lparr>ir_start = 0, ir_end = 2\<rparr>\<rparr>],
    vr_shard_count = 1, vr_max_concurrency = 1\<rparr>"
  let ?payload = "\<lparr>vp_selection = Range \<lparr>ir_start = 1, ir_end = 4\<rparr>, vp_timeout_secs = 60\<rparr>"
  have "validate_block_validation_result ?payload ?result = Inr ()"
    by (simp add: validate_block_validation_result_def expected_range_def expected_segments_def
        checked_add_def checked_sub_def i64_MAX_def Let_def)
  from block_validation_result_covers [OF this] show ?thesis by simp
qed

subsection \<open>Object keys\<close>

text \<open>The directory reached by joining a relative path to a directory.\<close>

fun resolve :: "string list \<Rightarrow> path_component list \<Rightarrow> string list" where
  "resolve dir [] = dir"
| "resolve dir (RootDir # cs) = resolve [] cs"
| "resolve dir (CurDir # cs) = resolve dir cs"
| "resolve dir (ParentDir # cs) = resolve (butlast dir) cs"
| "resolve dir (NormalComponent name # cs) = resolve (dir @ [name]) cs"

definition component_name :: "path_component \<Rightarrow> string" where
  "component_name component = (case component of NormalComponent s \<Rightarrow> s | _ \<Rightarrow> [])"

lemma resolve_normal:
  "list_all is_normal cs \<Longrightarrow> resolve dir cs = dir @ map component_name cs"
proof (induction cs arbitrary: dir)
  case (Cons c cs)
  then show ?case by (cases c) (auto simp: is_normal_def component_name_def)
qed simp

lemma split_on_pieces: "p \<in> set (split_on d s) \<Longrightarrow> d \<notin> set p"
  by (induction s arbitrary: p) (auto split: if_splits list.splits)

lemma path_components_names:
  assumes "list_all is_normal (path_components key)" "name \<in> set (map component_name (path_components key))"
  shows "name \<notin> {[], ''.'', ''..''} \<and> CHR ''/'' \<notin> set name"
proof -
  from assms have "name \<in> set (map component_name (concat (map path_part (split_on (CHR ''/'') key))))"
    by (auto simp: path_components_def Let_def is_normal_def split: if_splits)
  then obtain part c where "part \<in> set (split_on (CHR ''/'') key)" "c \<in> set (path_part part)"
    "name = component_name c" by auto
  with assms(1) split_on_pieces [of part "CHR ''/''" key] show ?thesis
    by (auto simp: path_part_def component_name_def path_components_def Let_def is_normal_def
        list_all_iff split: if_splits)
qed

text \<open>C38: A key that the validators accept never leaves the directory it is joined to: every prefix
  of its components stays under that directory, and each step is a plain file name.\<close>

theorem safe_key_confined:
  assumes "safe_key key"
  shows "\<exists>names. resolve root (path_components key) = root @ names
    \<and> (\<forall>n. resolve root (take n (path_components key)) = root @ take n names)
    \<and> (\<forall>name \<in> set names. name \<notin> {[], ''.'', ''..''} \<and> CHR ''/'' \<notin> set name)"
proof -
  let ?cs = "path_components key"
  have normal: "list_all is_normal ?cs" using assms by (simp add: safe_key_def)
  then have "list_all is_normal (take n ?cs)" for n
    by (auto simp: list_all_iff dest: in_set_takeD)
  then show ?thesis
    using normal path_components_names [OF normal]
    by (intro exI [where x = "map component_name ?cs"]) (simp add: resolve_normal take_map)
qed

theorem safe_key_confined_witness:
  "safe_key ''runs/./a//b'' \<and> \<not> safe_key ''runs/../b''
   \<and> resolve [''srv''] (path_components ''runs/./a//b'') = [''srv'', ''runs'', ''a'', ''b'']
   \<and> (\<exists>names. resolve [''srv''] (path_components ''runs/./a//b'') = [''srv''] @ names)"
proof -
  have "safe_key ''runs/./a//b''" "\<not> safe_key ''runs/../b''"
    "resolve [''srv''] (path_components ''runs/./a//b'') = [''srv'', ''runs'', ''a'', ''b'']"
    by (simp_all add: safe_key_def path_components_def path_part_def starts_with_def Let_def
        ascii_defs is_normal_def)
  with safe_key_confined [of "''runs/./a//b''" "[''srv'']"] show ?thesis by blast
qed

subsection \<open>Artifacts\<close>

lemma validate_artifacts_loop_ok:
  "validate_artifacts_loop as keys logical = Inr () \<longleftrightarrow>
     (\<forall>a \<in> set as. validate_artifact_descriptor a = Inr ())
     \<and> distinct (map ad_key as) \<and> set (map ad_key as) \<inter> keys = {}
     \<and> distinct (map ad_logical_key as) \<and> set (map ad_logical_key as) \<inter> logical = {}"
proof (induction as arbitrary: keys logical)
  case (Cons a as)
  show ?case
    by (cases "validate_artifact_descriptor a") (auto simp: Cons.IH image_iff)
qed simp

text \<open>The artifact manifest of a terminal is accepted exactly when it is within the bound,
  every descriptor is valid and no two descriptors share an object key or a logical key.\<close>

lemma validate_artifacts_iff:
  "validate_artifacts artifacts = Inr () \<longleftrightarrow>
     length artifacts \<le> 256
     \<and> list_all (\<lambda>a. safe_key (ad_key a) \<and> safe_key (ad_logical_key a) \<and> length (ad_sha256 a) = 64
          \<and> list_all is_ascii_hexdigit (ad_sha256 a) \<and> ad_size a \<le> i64_MAX) artifacts
     \<and> distinct (map ad_key artifacts) \<and> distinct (map ad_logical_key artifacts)"
  by (auto simp: validate_artifacts_def MAX_ARTIFACTS_def validate_artifacts_loop_ok
      validate_artifact_descriptor_ok list_all_iff)

end
