(* ===== verification/Fleet_Core.thy ===== *)
theory Fleet_Core
  imports Prelude
begin

text \<open>
  What the fleet promises about execution, independent of tables and statements: an abstract machine
  over jobs, attempts, cleanup obligations and the fencing generation of each submission. Its
  transitions are the state changes the daemon may make; its invariant says that a claimed or running
  job has exactly one owner (an active attempt, or an obligation to clean up after one that was
  fenced), that a submission has at most one active attempt and that fences only grow. The store
  operations are shown to implement these transitions in the store theories.
\<close>

section \<open>States\<close>

datatype job_status =
  JobQueued | JobClaimed | JobRunning | JobCompleted | JobFailed | JobCancelled

datatype attempt_status =
    AttemptOffered | AttemptRunning | AttemptCancelRequested
  | AttemptCompleted | AttemptFailed | AttemptCancelled
  | AttemptExpired | AttemptFenced

definition active :: "attempt_status \<Rightarrow> bool" where
  "active s \<longleftrightarrow> s \<in> {AttemptOffered, AttemptRunning, AttemptCancelRequested}"

definition executing :: "attempt_status \<Rightarrow> bool" where
  "executing s \<longleftrightarrow> s \<in> {AttemptRunning, AttemptCancelRequested}"

definition terminal :: "attempt_status \<Rightarrow> bool" where
  "terminal s \<longleftrightarrow> s \<in> {AttemptCompleted, AttemptFailed, AttemptCancelled}"

definition final_job :: "job_status \<Rightarrow> bool" where
  "final_job s \<longleftrightarrow> s \<in> {JobCompleted, JobFailed, JobCancelled}"

lemma active_simps [simp]:
  "active AttemptOffered" "active AttemptRunning" "active AttemptCancelRequested"
  "\<not> active AttemptCompleted" "\<not> active AttemptFailed" "\<not> active AttemptCancelled"
  "\<not> active AttemptExpired" "\<not> active AttemptFenced"
  by (simp_all add: active_def)

lemma executing_simps [simp]:
  "\<not> executing AttemptOffered" "executing AttemptRunning" "executing AttemptCancelRequested"
  "\<not> executing AttemptCompleted" "\<not> executing AttemptFailed" "\<not> executing AttemptCancelled"
  "\<not> executing AttemptExpired" "\<not> executing AttemptFenced"
  by (simp_all add: executing_def)

lemma terminal_simps [simp]:
  "\<not> terminal AttemptOffered" "\<not> terminal AttemptRunning" "\<not> terminal AttemptCancelRequested"
  "terminal AttemptCompleted" "terminal AttemptFailed" "terminal AttemptCancelled"
  "\<not> terminal AttemptExpired" "\<not> terminal AttemptFenced"
  by (simp_all add: terminal_def)

lemma final_job_simps [simp]:
  "\<not> final_job JobQueued" "\<not> final_job JobClaimed" "\<not> final_job JobRunning"
  "final_job JobCompleted" "final_job JobFailed" "final_job JobCancelled"
  by (simp_all add: final_job_def)

lemma executing_active: "executing s \<Longrightarrow> active s"
  by (auto simp: executing_def)

lemma active_cases: "active s \<longleftrightarrow> s = AttemptOffered \<or> executing s"
  by (auto simp: active_def executing_def)

record job_core =
  jc_submission :: uuid
  jc_status :: job_status
  jc_claim :: "uuid option"

record attempt_core =
  at_job :: uuid
  at_submission :: uuid
  at_status :: attempt_status
  at_fence :: int
  at_claim :: uuid

record obligation_core =
  ob_attempt :: uuid
  ob_job :: uuid
  ob_pending :: bool
  ob_requeue :: bool

record core =
  c_jobs :: "uuid \<rightharpoonup> job_core"
  c_attempts :: "uuid \<rightharpoonup> attempt_core"
  c_obligations :: "int \<rightharpoonup> obligation_core"
  c_fences :: "uuid \<rightharpoonup> int"

section \<open>Transitions\<close>

definition idle_submission :: "core \<Rightarrow> uuid \<Rightarrow> bool" where
  "idle_submission c s \<longleftrightarrow>
     (\<forall>a att. c_attempts c a = Some att \<longrightarrow> at_submission att = s \<longrightarrow> \<not> active (at_status att))"

definition set_job :: "uuid \<Rightarrow> job_core \<Rightarrow> core \<Rightarrow> core" where
  "set_job j job c = c\<lparr>c_jobs := (c_jobs c)(j \<mapsto> job)\<rparr>"

definition set_attempt :: "uuid \<Rightarrow> attempt_core \<Rightarrow> core \<Rightarrow> core" where
  "set_attempt a att c = c\<lparr>c_attempts := (c_attempts c)(a \<mapsto> att)\<rparr>"

definition set_obligation :: "int \<Rightarrow> obligation_core \<Rightarrow> core \<Rightarrow> core" where
  "set_obligation ob obl c = c\<lparr>c_obligations := (c_obligations c)(ob \<mapsto> obl)\<rparr>"

definition set_fence :: "uuid \<Rightarrow> int \<Rightarrow> core \<Rightarrow> core" where
  "set_fence s f c = c\<lparr>c_fences := (c_fences c)(s \<mapsto> f)\<rparr>"

lemma core_update_simps [simp]:
  "c_jobs (set_job j job c) = (c_jobs c)(j \<mapsto> job)"
  "c_attempts (set_job j job c) = c_attempts c"
  "c_obligations (set_job j job c) = c_obligations c"
  "c_fences (set_job j job c) = c_fences c"
  "c_jobs (set_attempt a att c) = c_jobs c"
  "c_attempts (set_attempt a att c) = (c_attempts c)(a \<mapsto> att)"
  "c_obligations (set_attempt a att c) = c_obligations c"
  "c_fences (set_attempt a att c) = c_fences c"
  "c_jobs (set_obligation i obl c) = c_jobs c"
  "c_attempts (set_obligation i obl c) = c_attempts c"
  "c_obligations (set_obligation i obl c) = (c_obligations c)(i \<mapsto> obl)"
  "c_fences (set_obligation i obl c) = c_fences c"
  "c_jobs (set_fence s f c) = c_jobs c"
  "c_attempts (set_fence s f c) = c_attempts c"
  "c_obligations (set_fence s f c) = c_obligations c"
  "c_fences (set_fence s f c) = (c_fences c)(s \<mapsto> f)"
  by (simp_all add: set_job_def set_attempt_def set_obligation_def set_fence_def)

inductive core_step :: "core \<Rightarrow> core \<Rightarrow> bool" where
  offer:
    "\<lbrakk>c_jobs c j = Some job; jc_status job = JobQueued; idle_submission c (jc_submission job);
      c_fences c (jc_submission job) = Some f; c_attempts c a = None;
      \<forall>i obl. c_obligations c i = Some obl \<longrightarrow> ob_attempt obl \<noteq> a;
      att = \<lparr>at_job = j, at_submission = jc_submission job, at_status = AttemptOffered,
             at_fence = f + 1, at_claim = t\<rparr>\<rbrakk>
     \<Longrightarrow> core_step c (set_fence (jc_submission job) (f + 1)
           (set_job j (job\<lparr>jc_status := JobClaimed, jc_claim := Some t\<rparr>) (set_attempt a att c)))"
| accept:
    "\<lbrakk>c_attempts c a = Some att; at_status att = AttemptOffered; c_jobs c (at_job att) = Some job;
      jc_status job = JobClaimed\<rbrakk>
     \<Longrightarrow> core_step c (set_job (at_job att) (job\<lparr>jc_status := JobRunning\<rparr>)
           (set_attempt a (att\<lparr>at_status := AttemptRunning\<rparr>) c))"
| request_cancel:
    "\<lbrakk>c_attempts c a = Some att; executing (at_status att)\<rbrakk>
     \<Longrightarrow> core_step c (set_attempt a (att\<lparr>at_status := AttemptCancelRequested\<rparr>) c)"
| cancel_offered:
    "\<lbrakk>c_attempts c a = Some att; at_status att = AttemptOffered; c_jobs c (at_job att) = Some job\<rbrakk>
     \<Longrightarrow> core_step c (set_job (at_job att) (job\<lparr>jc_status := JobCancelled, jc_claim := None\<rparr>)
           (set_attempt a (att\<lparr>at_status := AttemptFenced\<rparr>) c))"
| withdraw:
    "\<lbrakk>c_attempts c a = Some att; at_status att = AttemptOffered; c_jobs c (at_job att) = Some job;
      s \<in> {AttemptExpired, AttemptFenced}\<rbrakk>
     \<Longrightarrow> core_step c (set_job (at_job att) (job\<lparr>jc_status := JobQueued, jc_claim := None\<rparr>)
           (set_attempt a (att\<lparr>at_status := s\<rparr>) c))"
| fence:
    "\<lbrakk>c_attempts c a = Some att; executing (at_status att); c_obligations c i = None;
      s \<in> {AttemptExpired, AttemptFenced}; r \<longrightarrow> at_status att = AttemptRunning;
      obl = \<lparr>ob_attempt = a, ob_job = at_job att, ob_pending = True, ob_requeue = r\<rparr>\<rbrakk>
     \<Longrightarrow> core_step c (set_obligation i obl (set_attempt a (att\<lparr>at_status := s\<rparr>) c))"
| finish:
    "\<lbrakk>c_attempts c a = Some att; executing (at_status att); c_jobs c (at_job att) = Some job;
      (s, js) \<in> {(AttemptCompleted, JobCompleted), (AttemptFailed, JobFailed),
                 (AttemptCancelled, JobCancelled)};
      at_status att = AttemptCancelRequested \<longrightarrow> s = AttemptCancelled\<rbrakk>
     \<Longrightarrow> core_step c (set_job (at_job att) (job\<lparr>jc_status := js\<rparr>)
           (set_attempt a (att\<lparr>at_status := s\<rparr>) c))"
| requeue:
    "\<lbrakk>c_obligations c i = Some obl; ob_pending obl; ob_requeue obl; c_jobs c (ob_job obl) = Some job\<rbrakk>
     \<Longrightarrow> core_step c (set_job (ob_job obl) (job\<lparr>jc_status := JobQueued, jc_claim := None\<rparr>)
           (set_obligation i (obl\<lparr>ob_pending := False\<rparr>) c))"
| settle_cancelled:
    "\<lbrakk>c_obligations c i = Some obl; ob_pending obl; c_jobs c (ob_job obl) = Some job\<rbrakk>
     \<Longrightarrow> core_step c (set_job (ob_job obl) (job\<lparr>jc_status := JobCancelled\<rparr>)
           (set_obligation i (obl\<lparr>ob_pending := False\<rparr>) c))"
| cancel_fenced:
    "\<lbrakk>c_obligations c i = Some obl; ob_pending obl\<rbrakk>
     \<Longrightarrow> core_step c (set_obligation i (obl\<lparr>ob_requeue := False\<rparr>) c)"
| drop_queued:
    "\<lbrakk>c_jobs c j = Some job; jc_status job = JobQueued; js \<in> {JobFailed, JobCancelled}\<rbrakk>
     \<Longrightarrow> core_step c (set_job j (job\<lparr>jc_status := js, jc_claim := cl\<rparr>) c)"
| add_submission:
    "c_fences c s = None \<Longrightarrow> 0 \<le> f \<Longrightarrow> core_step c (set_fence s f c)"
| add_job:
    "\<lbrakk>c_jobs c j = None; jc_status job = JobQueued; c_fences c (jc_submission job) \<noteq> None\<rbrakk>
     \<Longrightarrow> core_step c (set_job j job c)"

section \<open>The invariant\<close>

definition owner_attempt :: "core \<Rightarrow> uuid \<Rightarrow> uuid \<Rightarrow> bool" where
  "owner_attempt c j a \<longleftrightarrow>
     (\<exists>att. c_attempts c a = Some att \<and> at_job att = j \<and> active (at_status att))"

definition owner_obligation :: "core \<Rightarrow> uuid \<Rightarrow> int \<Rightarrow> bool" where
  "owner_obligation c j i \<longleftrightarrow>
     (\<exists>obl. c_obligations c i = Some obl \<and> ob_job obl = j \<and> ob_pending obl)"

definition attempts_fenced :: "core \<Rightarrow> bool" where
  "attempts_fenced c \<longleftrightarrow>
     (\<forall>a att. c_attempts c a = Some att \<longrightarrow>
        (\<exists>f. c_fences c (at_submission att) = Some f \<and> 0 < at_fence att \<and> at_fence att \<le> f))
     \<and> (\<forall>s f. c_fences c s = Some f \<longrightarrow> 0 \<le> f)"

definition fences_distinct :: "core \<Rightarrow> bool" where
  "fences_distinct c \<longleftrightarrow>
     (\<forall>a b att btt. c_attempts c a = Some att \<longrightarrow> c_attempts c b = Some btt \<longrightarrow>
        at_submission att = at_submission btt \<longrightarrow> at_fence att = at_fence btt \<longrightarrow> a = b)"

definition owns :: "core \<Rightarrow> attempt_core \<Rightarrow> bool" where
  "owns c att \<longleftrightarrow>
     (\<exists>job. c_jobs c (at_job att) = Some job \<and> jc_submission job = at_submission att
        \<and> jc_claim job = Some (at_claim att)
        \<and> jc_status job = (if at_status att = AttemptOffered then JobClaimed else JobRunning))"

definition attempts_own_jobs :: "core \<Rightarrow> bool" where
  "attempts_own_jobs c \<longleftrightarrow>
     (\<forall>a att. c_attempts c a = Some att \<longrightarrow> active (at_status att) \<longrightarrow> owns c att)"

definition one_active :: "core \<Rightarrow> bool" where
  "one_active c \<longleftrightarrow>
     (\<forall>a b att btt. c_attempts c a = Some att \<longrightarrow> c_attempts c b = Some btt \<longrightarrow>
        active (at_status att) \<longrightarrow> active (at_status btt) \<longrightarrow>
        at_submission att = at_submission btt \<longrightarrow> a = b)"

definition obligation_ok :: "core \<Rightarrow> obligation_core \<Rightarrow> bool" where
  "obligation_ok c obl \<longleftrightarrow>
     (\<exists>att. c_attempts c (ob_attempt obl) = Some att \<and> at_job att = ob_job obl
        \<and> at_status att \<in> {AttemptExpired, AttemptFenced})
     \<and> (ob_pending obl \<longrightarrow>
          (\<exists>job. c_jobs c (ob_job obl) = Some job \<and> jc_status job = JobRunning)
          \<and> (\<forall>a. \<not> owner_attempt c (ob_job obl) a))"

definition obligations_own_jobs :: "core \<Rightarrow> bool" where
  "obligations_own_jobs c \<longleftrightarrow>
     (\<forall>i obl. c_obligations c i = Some obl \<longrightarrow> obligation_ok c obl)"

definition one_obligation :: "core \<Rightarrow> bool" where
  "one_obligation c \<longleftrightarrow>
     (\<forall>i k obl obk. c_obligations c i = Some obl \<longrightarrow> c_obligations c k = Some obk \<longrightarrow>
        (ob_attempt obl = ob_attempt obk \<or> ob_pending obl \<and> ob_pending obk \<and> ob_job obl = ob_job obk)
        \<longrightarrow> i = k)"

definition job_owned :: "core \<Rightarrow> uuid \<Rightarrow> job_core \<Rightarrow> bool" where
  "job_owned c j job \<longleftrightarrow>
     c_fences c (jc_submission job) \<noteq> None
     \<and> (jc_status job = JobClaimed \<longrightarrow> (\<exists>a. owner_attempt c j a))
     \<and> (jc_status job = JobRunning \<longrightarrow>
          (\<exists>a. owner_attempt c j a) \<or> (\<exists>i. owner_obligation c j i))"

definition jobs_owned :: "core \<Rightarrow> bool" where
  "jobs_owned c \<longleftrightarrow> (\<forall>j job. c_jobs c j = Some job \<longrightarrow> job_owned c j job)"

lemmas core_inv_defs = attempts_fenced_def fences_distinct_def attempts_own_jobs_def owns_def one_active_def
  obligations_own_jobs_def obligation_ok_def one_obligation_def jobs_owned_def job_owned_def owner_attempt_def owner_obligation_def

definition coherent :: "core \<Rightarrow> bool" where
  "coherent c \<longleftrightarrow> attempts_fenced c \<and> fences_distinct c \<and> attempts_own_jobs c \<and> one_active c
     \<and> obligations_own_jobs c \<and> one_obligation c \<and> jobs_owned c"

section \<open>Every transition keeps the invariant\<close>

lemma owns_frame [simp]:
  "at_job att \<noteq> j \<Longrightarrow> owns (set_job j job c) att = owns c att"
  "owns (set_attempt a btt c) att = owns c att"
  "owns (set_obligation i obl c) att = owns c att"
  "owns (set_fence s f c) att = owns c att"
  by (simp_all add: owns_def)

lemma attempts_own_jobsD:
  assumes "attempts_own_jobs c" "c_attempts c a = Some att" "active (at_status att)"
  shows "owns c att"
  using assms unfolding attempts_own_jobs_def by blast

lemma active_same_job:
  assumes "attempts_own_jobs c" "one_active c" "c_attempts c a = Some att" "c_attempts c b = Some btt"
    "active (at_status att)" "active (at_status btt)" "at_job att = at_job btt"
  shows "a = b"
proof -
  have "at_submission att = at_submission btt"
    using attempts_own_jobsD [OF assms(1,3,5)] attempts_own_jobsD [OF assms(1,4,6)] assms(7)
    by (auto simp: owns_def)
  with assms show ?thesis unfolding one_active_def by blast
qed

lemma step_attempts_fenced:
  assumes "core_step c c'" "attempts_fenced c"
  shows "attempts_fenced c'"
  using assms
  by (induction rule: core_step.induct) (force simp: attempts_fenced_def split: if_splits)+

lemma step_fences_distinct:
  assumes "core_step c c'" "attempts_fenced c" "fences_distinct c"
  shows "fences_distinct c'"
  using assms
proof (induction rule: core_step.induct)
  case (offer c j job f a att t)
  have "at_fence btt \<noteq> f + 1"
    if "c_attempts c b = Some btt" "at_submission btt = jc_submission job" for b btt
    using offer.prems(1) that offer.hyps(4) unfolding attempts_fenced_def by fastforce
  with offer show ?case by (fastforce simp: fences_distinct_def split: if_splits)
qed (fastforce simp: fences_distinct_def split: if_splits)+

lemma step_one_active:
  assumes "core_step c c'" "one_active c"
  shows "one_active c'"
  using assms
proof (induction rule: core_step.induct)
  case (offer c j job f a att t)
  then show ?case by (fastforce simp: one_active_def idle_submission_def split: if_splits)
qed (fastforce simp: one_active_def executing_active split: if_splits)+

text \<open>A job that is not claimed and not running has no active attempt; the job of a pending
  obligation has none either.\<close>

lemma unowned_job:
  assumes "attempts_own_jobs c" "c_jobs c j = Some job" "jc_status job \<notin> {JobClaimed, JobRunning}"
    and "c_attempts c a = Some att" "active (at_status att)"
  shows "at_job att \<noteq> j"
  using attempts_own_jobsD [OF assms(1,4,5)] assms(2,3) by (auto simp: owns_def split: if_splits)

lemma unknown_job:
  assumes "attempts_own_jobs c" "c_jobs c j = None" "c_attempts c a = Some att" "active (at_status att)"
  shows "at_job att \<noteq> j"
  using attempts_own_jobsD [OF assms(1,3,4)] assms(2) by (auto simp: owns_def)

lemma obligation_job:
  assumes "obligations_own_jobs c" "c_obligations c i = Some obl" "ob_pending obl"
    and "c_attempts c a = Some att" "active (at_status att)"
  shows "at_job att \<noteq> ob_job obl"
  using assms by (auto simp: obligations_own_jobs_def obligation_ok_def owner_attempt_def)

text \<open>Changing one active attempt together with its job leaves every other attempt's job alone.\<close>

lemma own_jobs_update:
  assumes "attempts_own_jobs c" "one_active c" "c_attempts c a = Some att" "active (at_status att)"
    and "active (at_status att') \<longrightarrow> owns (set_job (at_job att) job c) att'"
  shows "attempts_own_jobs (set_job (at_job att) job (set_attempt a att' c))"
  unfolding attempts_own_jobs_def
proof (intro allI impI)
  fix b btt
  assume b: "c_attempts (set_job (at_job att) job (set_attempt a att' c)) b = Some btt"
    "active (at_status btt)"
  show "owns (set_job (at_job att) job (set_attempt a att' c)) btt"
  proof (cases "b = a")
    case True
    with b assms(5) show ?thesis by (simp add: owns_def)
  next
    case False
    with b have b': "c_attempts c b = Some btt" by simp
    then have "at_job btt \<noteq> at_job att"
      using active_same_job [OF assms(1,2) b' assms(3) b(2) assms(4)] False by blast
    then show ?thesis using attempts_own_jobsD [OF assms(1) b' b(2)] by simp
  qed
qed

text \<open>Changing a job that no active attempt works on.\<close>

lemma own_jobs_set_job:
  assumes "attempts_own_jobs c"
    and "\<And>a att. c_attempts c a = Some att \<Longrightarrow> active (at_status att) \<Longrightarrow> at_job att \<noteq> j"
  shows "attempts_own_jobs (set_job j job c)"
  using assms by (simp add: attempts_own_jobs_def)

lemma step_attempts_own_jobs:
  assumes "core_step c c'" "attempts_own_jobs c" "one_active c" "obligations_own_jobs c"
  shows "attempts_own_jobs c'"
  using assms
proof (induction rule: core_step.induct)
  case (offer c j job f a att t)
  have "at_job btt \<noteq> j" if "c_attempts c b = Some btt" "active (at_status btt)" for b btt
    using unowned_job [OF offer.prems(1) offer.hyps(1) _ that] offer.hyps(2) by simp
  with offer show ?case by (auto simp: attempts_own_jobs_def, simp add: owns_def)
next
  case (accept c a att job)
  have "owns c att" using attempts_own_jobsD [OF accept.prems(1) accept.hyps(1)] accept.hyps(2) by simp
  with accept show ?case by (intro own_jobs_update) (auto simp: owns_def)
next
  case (request_cancel c a att)
  have "owns c att"
    using attempts_own_jobsD [OF request_cancel.prems(1) request_cancel.hyps(1)] request_cancel.hyps(2)
    by (simp add: executing_active)
  with request_cancel show ?case
    by (auto simp: attempts_own_jobs_def) (auto simp: owns_def executing_def)
next
  case (cancel_offered c a att job)
  then show ?case by (intro own_jobs_update) auto
next
  case (withdraw c a att job s)
  then show ?case by (intro own_jobs_update) auto
next
  case (finish c a att job s js)
  then show ?case by (intro own_jobs_update) (auto simp: executing_active)
next
  case (fence c a att i s r obl)
  then show ?case by (auto simp: attempts_own_jobs_def)
next
  case (requeue c i obl job)
  show ?case
    using requeue.prems(1) obligation_job [OF requeue.prems(3) requeue.hyps(1,2)]
    by (intro own_jobs_set_job) (auto simp: attempts_own_jobs_def)
next
  case (settle_cancelled c i obl job)
  show ?case
    using settle_cancelled.prems(1) obligation_job [OF settle_cancelled.prems(3) settle_cancelled.hyps(1,2)]
    by (intro own_jobs_set_job) (auto simp: attempts_own_jobs_def)
next
  case (drop_queued c j job js cl)
  then show ?case using unowned_job [OF drop_queued.prems(1) drop_queued.hyps(1)]
    by (intro own_jobs_set_job) auto
next
  case (add_job c j job)
  then show ?case using unknown_job [OF add_job.prems(1) add_job.hyps(1)]
    by (intro own_jobs_set_job) auto
qed (simp_all add: attempts_own_jobs_def)

text \<open>An obligation survives a change to a job or an attempt it does not name, as long as no
  attempt becomes active on its job.\<close>

lemma obligation_ok_frame:
  assumes "obligation_ok c obl"
    and "c_attempts c' (ob_attempt obl) = c_attempts c (ob_attempt obl)"
    and "ob_pending obl \<Longrightarrow> c_jobs c' (ob_job obl) = c_jobs c (ob_job obl)"
    and "\<And>a. ob_pending obl \<Longrightarrow> owner_attempt c' (ob_job obl) a \<Longrightarrow> owner_attempt c (ob_job obl) a"
  shows "obligation_ok c' obl"
  using assms unfolding obligation_ok_def by metis

lemma owner_frame [simp]:
  "owner_attempt (set_job j job c) = owner_attempt c"
  "owner_attempt (set_obligation i obl c) = owner_attempt c"
  "owner_attempt (set_fence s f c) = owner_attempt c"
  by (simp_all add: owner_attempt_def fun_eq_iff)

lemma obligation_ok_simps [simp]:
  "obligation_ok (set_obligation i obk c) obl = obligation_ok c obl"
  "obligation_ok (set_fence s f c) obl = obligation_ok c obl"
  by (simp_all add: obligation_ok_def)

lemma obligation_job_known:
  "obligation_ok c obl \<Longrightarrow> ob_pending obl \<Longrightarrow> c_jobs c (ob_job obl) \<noteq> None"
  by (auto simp: obligation_ok_def)

lemma obligation_ok_settled:
  "obligation_ok c obl \<Longrightarrow> obligation_ok c (obl\<lparr>ob_pending := False\<rparr>)"
  by (auto simp: obligation_ok_def)

lemma obligation_not_active:
  assumes "obligation_ok c obl" "c_attempts c a = Some att" "active (at_status att)"
  shows "ob_attempt obl \<noteq> a" "ob_pending obl \<Longrightarrow> ob_job obl \<noteq> at_job att"
  using assms by (auto simp: obligation_ok_def owner_attempt_def)

lemma obligation_not_queued:
  assumes "obligation_ok c obl" "ob_pending obl" "c_jobs c j = Some job" "jc_status job \<noteq> JobRunning"
  shows "ob_job obl \<noteq> j"
  using assms by (auto simp: obligation_ok_def)

text \<open>A transition of an active attempt and its job keeps every obligation.\<close>

lemma obligations_update:
  assumes "obligations_own_jobs c" "c_attempts c a = Some att" "active (at_status att)"
    and "at_job att' = at_job att"
  shows "obligations_own_jobs (set_job (at_job att) job (set_attempt a att' c))"
    and "obligations_own_jobs (set_attempt a att' c)"
proof -
  have "obligation_ok (set_job (at_job att) job (set_attempt a att' c)) obl
      \<and> obligation_ok (set_attempt a att' c) obl" if "c_obligations c i = Some obl" for i obl
  proof -
    have ok: "obligation_ok c obl" using assms(1) that by (simp add: obligations_own_jobs_def)
    note na = obligation_not_active [OF ok assms(2,3)]
    show ?thesis
      using na assms(4) by (intro conjI; intro obligation_ok_frame [OF ok])
        (auto simp: owner_attempt_def split: if_splits)
  qed
  then show "obligations_own_jobs (set_job (at_job att) job (set_attempt a att' c))"
    "obligations_own_jobs (set_attempt a att' c)"
    by (simp_all add: obligations_own_jobs_def)
qed

lemma obligations_set_job:
  assumes "obligations_own_jobs c"
    and "\<And>i obl. c_obligations c i = Some obl \<Longrightarrow> ob_pending obl \<Longrightarrow> ob_job obl \<noteq> j"
  shows "obligations_own_jobs (set_job j job c)"
  unfolding obligations_own_jobs_def
proof (intro allI impI)
  fix i obl
  assume "c_obligations (set_job j job c) i = Some obl"
  then have i: "c_obligations c i = Some obl" by simp
  then have "obligation_ok c obl" using assms(1) unfolding obligations_own_jobs_def by blast
  then show "obligation_ok (set_job j job c) obl"
    by (rule obligation_ok_frame) (use assms(2) [OF i] in simp_all)
qed

lemma obligations_settle:
  assumes "obligations_own_jobs c" "one_obligation c" "c_obligations c i = Some obl" "ob_pending obl"
  shows "obligations_own_jobs (set_job (ob_job obl) job (set_obligation i (obl\<lparr>ob_pending := False\<rparr>) c))"
proof (rule obligations_set_job)
  have "obligation_ok c obl" using assms(1,3) by (simp add: obligations_own_jobs_def)
  then show "obligations_own_jobs (set_obligation i (obl\<lparr>ob_pending := False\<rparr>) c)"
    using assms(1) by (simp add: obligations_own_jobs_def obligation_ok_settled)
  show "ob_job obl' \<noteq> ob_job obl"
    if "c_obligations (set_obligation i (obl\<lparr>ob_pending := False\<rparr>) c) k = Some obl'" "ob_pending obl'"
    for k obl'
    using that assms(2-4) unfolding one_obligation_def by (auto split: if_splits)
qed

lemma step_obligations_own_jobs:
  assumes "core_step c c'" "obligations_own_jobs c" "one_obligation c" "attempts_own_jobs c" "one_active c"
  shows "obligations_own_jobs c'"
  using assms
proof (induction rule: core_step.induct)
  case (offer c j job f a att t)
  have "obligation_ok (set_fence (jc_submission job) (f + 1)
      (set_job j (job\<lparr>jc_status := JobClaimed, jc_claim := Some t\<rparr>) (set_attempt a att c))) obl"
    if "c_obligations c i = Some obl" for i obl
  proof -
    have ok: "obligation_ok c obl" using offer.prems(1) that by (simp add: obligations_own_jobs_def)
    have other: "ob_attempt obl \<noteq> a" using offer.hyps(6) that by blast
    have job: "ob_job obl \<noteq> j" if "ob_pending obl"
      using obligation_not_queued [OF ok that offer.hyps(1)] offer.hyps(2) by simp
    show ?thesis
      using other job offer.hyps(7)
      by (intro obligation_ok_frame [OF ok]) (auto simp: owner_attempt_def split: if_splits)
  qed
  then show ?case by (simp add: obligations_own_jobs_def)
next
  case (accept c a att job)
  then show ?case by (intro obligations_update) auto
next
  case (request_cancel c a att)
  then show ?case by (intro obligations_update(2)) (auto simp: executing_active)
next
  case (cancel_offered c a att job)
  then show ?case by (intro obligations_update) auto
next
  case (withdraw c a att job s)
  then show ?case by (intro obligations_update) auto
next
  case (finish c a att job s js)
  then show ?case by (intro obligations_update) (auto simp: executing_active)
next
  case (fence c a att i s r obl)
  have "obligations_own_jobs (set_attempt a (att\<lparr>at_status := s\<rparr>) c)"
    using fence by (intro obligations_update(2)) (auto simp: executing_active)
  moreover have "obligation_ok (set_attempt a (att\<lparr>at_status := s\<rparr>) c) obl"
  proof -
    have act: "active (at_status att)" using fence.hyps(2) by (rule executing_active)
    have "owns c att" using attempts_own_jobsD [OF fence.prems(3) fence.hyps(1) act] .
    moreover have "at_job btt \<noteq> at_job att"
      if "c_attempts c b = Some btt" "active (at_status btt)" "b \<noteq> a" for b btt
      using active_same_job [OF fence.prems(3,4) that(1) fence.hyps(1) that(2) act] that(3) by blast
    ultimately show ?thesis
      using fence.hyps by (auto simp: obligation_ok_def owner_attempt_def owns_def split: if_splits)
  qed
  ultimately show ?case by (simp add: obligations_own_jobs_def)
next
  case (requeue c i obl job)
  then show ?case by (intro obligations_settle) auto
next
  case (settle_cancelled c i obl job)
  then show ?case by (intro obligations_settle) auto
next
  case (cancel_fenced c i obl)
  then have "obligation_ok c obl" by (simp add: obligations_own_jobs_def)
  then have "obligation_ok c (obl\<lparr>ob_requeue := False\<rparr>)" by (simp add: obligation_ok_def)
  with cancel_fenced show ?case by (simp add: obligations_own_jobs_def)
next
  case (drop_queued c j job js cl)
  then show ?case
    using obligation_not_queued [OF _ _ drop_queued.hyps(1)]
    by (intro obligations_set_job) (auto simp: obligations_own_jobs_def)
next
  case (add_job c j job)
  then show ?case
    by (intro obligations_set_job)
      (fastforce simp: obligations_own_jobs_def dest: obligation_job_known)+
qed (simp add: obligations_own_jobs_def)

lemma step_one_obligation:
  assumes "core_step c c'" "one_obligation c" "obligations_own_jobs c"
  shows "one_obligation c'"
  using assms
proof (induction rule: core_step.induct)
  case (fence c a att i s r obl)
  have "ob_attempt obk \<noteq> a \<and> (ob_pending obk \<longrightarrow> ob_job obk \<noteq> at_job att)"
    if "c_obligations c k = Some obk" for k obk
  proof -
    have "obligation_ok c obk" using fence.prems(2) that by (simp add: obligations_own_jobs_def)
    from obligation_not_active [OF this fence.hyps(1) executing_active [OF fence.hyps(2)]]
    show ?thesis by blast
  qed
  with fence show ?case by (fastforce simp: one_obligation_def split: if_splits)
qed (fastforce simp: one_obligation_def split: if_splits)+

lemma job_owned_frame:
  assumes "job_owned c j job"
    and "c_fences c (jc_submission job) \<noteq> None \<Longrightarrow> c_fences c' (jc_submission job) \<noteq> None"
    and "\<And>a. owner_attempt c j a \<Longrightarrow> owner_attempt c' j a"
    and "\<And>i. owner_obligation c j i \<Longrightarrow> owner_obligation c' j i"
  shows "job_owned c' j job"
  using assms unfolding job_owned_def by blast

lemma owner_obligation_frame [simp]:
  "owner_obligation (set_job j job c) = owner_obligation c"
  "owner_obligation (set_attempt a att c) = owner_obligation c"
  "owner_obligation (set_fence s f c) = owner_obligation c"
  by (simp_all add: owner_obligation_def fun_eq_iff)

lemma owner_set_attempt:
  assumes "owner_attempt c k b" "b = a \<Longrightarrow> at_job att = k \<and> active (at_status att)"
  shows "owner_attempt (set_attempt a att c) k b"
  using assms by (auto simp: owner_attempt_def)

lemma owner_other:
  assumes "c_attempts c a = Some att" "owner_attempt c k b" "k \<noteq> at_job att"
  shows "b \<noteq> a"
  using assms by (auto simp: owner_attempt_def)

text \<open>When an attempt and its job change together, the other jobs keep their owners.\<close>

lemma jobs_owned_update:
  assumes "jobs_owned c" "c_attempts c a = Some att"
    and "job_owned (set_job (at_job att) job (set_attempt a att' c)) (at_job att) job"
  shows "jobs_owned (set_job (at_job att) job (set_attempt a att' c))"
  unfolding jobs_owned_def
proof (intro allI impI)
  fix k jk
  assume k: "c_jobs (set_job (at_job att) job (set_attempt a att' c)) k = Some jk"
  show "job_owned (set_job (at_job att) job (set_attempt a att' c)) k jk"
  proof (cases "k = at_job att")
    case True
    with k assms(3) show ?thesis by simp
  next
    case False
    with k have "job_owned c k jk" using assms(1) by (simp add: jobs_owned_def)
    then show ?thesis
      by (rule job_owned_frame)
        (auto intro!: owner_set_attempt dest: owner_other [OF assms(2) _ False])
  qed
qed

lemma jobs_owned_settle:
  assumes "jobs_owned c" "c_obligations c i = Some obl" "c_jobs c (ob_job obl) = Some job"
    and "jc_status job' \<notin> {JobClaimed, JobRunning}" "jc_submission job' = jc_submission job"
  shows "jobs_owned (set_job (ob_job obl) job' (set_obligation i obl' c))"
  unfolding jobs_owned_def
proof (intro allI impI)
  fix k jk
  assume k: "c_jobs (set_job (ob_job obl) job' (set_obligation i obl' c)) k = Some jk"
  show "job_owned (set_job (ob_job obl) job' (set_obligation i obl' c)) k jk"
  proof (cases "k = ob_job obl")
    case True
    with k assms show ?thesis by (auto simp: jobs_owned_def job_owned_def)
  next
    case False
    with k have "job_owned c k jk" using assms(1) by (simp add: jobs_owned_def)
    then show ?thesis
      by (rule job_owned_frame) (use False assms(2) in \<open>auto simp: owner_obligation_def\<close>)
  qed
qed

lemma job_owned_set_job [simp]: "job_owned (set_job j job c) k jk = job_owned c k jk"
  by (simp add: job_owned_def)

lemma job_owned_set_fence: "job_owned c k jk \<Longrightarrow> job_owned (set_fence s f c) k jk"
  by (auto simp: job_owned_def)

lemma step_jobs_owned:
  assumes "core_step c c'" "jobs_owned c" "attempts_own_jobs c"
  shows "jobs_owned c'"
  using assms
proof (induction rule: core_step.induct)
  case (offer c j job f a att t)
  let ?c = "set_fence (jc_submission job) (f + 1)
    (set_job j (job\<lparr>jc_status := JobClaimed, jc_claim := Some t\<rparr>) (set_attempt a att c))"
  have "owner_attempt ?c j a" using offer.hyps(7) by (simp add: owner_attempt_def)
  then have "job_owned ?c j (job\<lparr>jc_status := JobClaimed, jc_claim := Some t\<rparr>)"
    by (auto simp: job_owned_def)
  moreover have "job_owned ?c k jk" if "c_jobs c k = Some jk" for k jk
  proof -
    have "job_owned c k jk" using offer.prems(1) that by (simp add: jobs_owned_def)
    then show ?thesis
      by (rule job_owned_frame) (use offer.hyps(5) in \<open>auto simp: owner_attempt_def\<close>)
  qed
  ultimately show ?case by (auto simp: jobs_owned_def)
next
  case (accept c a att job)
  have "job_owned c (at_job att) job" using accept by (simp add: jobs_owned_def)
  then show ?case
    using accept by (intro jobs_owned_update) (auto simp: job_owned_def owner_attempt_def)
next
  case (request_cancel c a att)
  have "job_owned (set_attempt a (att\<lparr>at_status := AttemptCancelRequested\<rparr>) c) k jk"
    if "c_jobs c k = Some jk" for k jk
  proof -
    have "job_owned c k jk" using request_cancel.prems(1) that by (simp add: jobs_owned_def)
    then show ?thesis
      by (rule job_owned_frame) (use request_cancel.hyps(1) in \<open>auto simp: owner_attempt_def\<close>)
  qed
  then show ?case by (simp add: jobs_owned_def)
next
  case (cancel_offered c a att job)
  then show ?case by (intro jobs_owned_update) (auto simp: jobs_owned_def job_owned_def)
next
  case (withdraw c a att job s)
  then show ?case by (intro jobs_owned_update) (auto simp: jobs_owned_def job_owned_def)
next
  case (finish c a att job s js)
  then show ?case by (intro jobs_owned_update) (auto simp: jobs_owned_def job_owned_def)
next
  case (fence c a att i s r obl)
  let ?c = "set_obligation i obl (set_attempt a (att\<lparr>at_status := s\<rparr>) c)"
  have "owns c att"
    using attempts_own_jobsD [OF fence.prems(2) fence.hyps(1) executing_active [OF fence.hyps(2)]] .
  then obtain job where job: "c_jobs c (at_job att) = Some job" "jc_status job = JobRunning"
    using fence.hyps(2) by (auto simp: owns_def executing_def)
  have "owner_obligation ?c (at_job att) i" using fence.hyps(6) by (simp add: owner_obligation_def)
  have "job_owned ?c k jk" if "c_jobs c k = Some jk" for k jk
  proof (cases "k = at_job att")
    case True
    with that job \<open>owner_obligation ?c (at_job att) i\<close> fence.prems(1) show ?thesis
      by (auto simp: job_owned_def jobs_owned_def)
  next
    case False
    have "job_owned c k jk" using fence.prems(1) that by (simp add: jobs_owned_def)
    then show ?thesis
      by (rule job_owned_frame)
        (use False fence.hyps in \<open>auto simp: owner_attempt_def owner_obligation_def\<close>)
  qed
  then show ?case by (simp add: jobs_owned_def)
next
  case (requeue c i obl job)
  then show ?case by (intro jobs_owned_settle [where job = job]) auto
next
  case (settle_cancelled c i obl job)
  then show ?case by (intro jobs_owned_settle [where job = job]) auto
next
  case (cancel_fenced c i obl)
  have "job_owned (set_obligation i (obl\<lparr>ob_requeue := False\<rparr>) c) k jk"
    if "c_jobs c k = Some jk" for k jk
  proof -
    have "job_owned c k jk" using cancel_fenced.prems(1) that by (simp add: jobs_owned_def)
    then show ?thesis
      by (rule job_owned_frame) (use cancel_fenced.hyps(1) in \<open>auto simp: owner_obligation_def\<close>)
  qed
  then show ?case by (simp add: jobs_owned_def)
next
  case (drop_queued c j job js cl)
  then have "job_owned c j job" by (simp add: jobs_owned_def)
  with drop_queued.hyps have "job_owned c j (job\<lparr>jc_status := js, jc_claim := cl\<rparr>)"
    by (auto simp: job_owned_def)
  with drop_queued.prems show ?case by (simp add: jobs_owned_def)
next
  case (add_submission c s f)
  then show ?case by (simp add: jobs_owned_def job_owned_set_fence)
next
  case (add_job c j job)
  then have "job_owned c j job" by (simp add: job_owned_def)
  with add_job show ?case by (simp add: jobs_owned_def)
qed

lemma coherentD:
  assumes "coherent c"
  shows "attempts_fenced c" "fences_distinct c" "attempts_own_jobs c" "one_active c"
    "obligations_own_jobs c" "one_obligation c" "jobs_owned c"
  using assms by (simp_all add: coherent_def)

lemma core_step_coherent:
  assumes "core_step c c'" "coherent c"
  shows "coherent c'"
  unfolding coherent_def
  using assms(1) coherentD [OF assms(2)] step_attempts_fenced step_fences_distinct
    step_attempts_own_jobs step_one_active step_obligations_own_jobs step_one_obligation step_jobs_owned
  by blast

lemma core_steps_coherent: "core_step\<^sup>*\<^sup>* c c' \<Longrightarrow> coherent c \<Longrightarrow> coherent c'"
  by (induction rule: rtranclp_induct) (auto intro: core_step_coherent)

section \<open>Finality\<close>

text \<open>An attempt that is no longer active never changes again, and neither does a job that has
  ended; the fence of a submission never decreases and a submission is never forgotten.\<close>

definition attempt_kept :: "attempt_core \<Rightarrow> attempt_core \<Rightarrow> bool" where
  "attempt_kept att att' \<longleftrightarrow> at_job att' = at_job att \<and> at_submission att' = at_submission att
     \<and> at_fence att' = at_fence att \<and> at_claim att' = at_claim att
     \<and> (\<not> active (at_status att) \<longrightarrow> at_status att' = at_status att)"

definition job_kept :: "job_core \<Rightarrow> job_core \<Rightarrow> bool" where
  "job_kept job job' \<longleftrightarrow> jc_submission job' = jc_submission job
     \<and> (final_job (jc_status job) \<longrightarrow> job' = job)"

definition obligation_kept :: "obligation_core \<Rightarrow> obligation_core \<Rightarrow> bool" where
  "obligation_kept obl obl' \<longleftrightarrow> ob_attempt obl' = ob_attempt obl \<and> ob_job obl' = ob_job obl
     \<and> (ob_requeue obl' \<longrightarrow> ob_requeue obl) \<and> (\<not> ob_pending obl \<longrightarrow> obl' = obl)"

definition map_kept :: "('v \<Rightarrow> 'v \<Rightarrow> bool) \<Rightarrow> ('k \<rightharpoonup> 'v) \<Rightarrow> ('k \<rightharpoonup> 'v) \<Rightarrow> bool" where
  "map_kept R m m' \<longleftrightarrow> (\<forall>k v. m k = Some v \<longrightarrow> (\<exists>v'. m' k = Some v' \<and> R v v'))"

lemma map_kept_refl: "(\<And>v. R v v) \<Longrightarrow> map_kept R m m"
  by (simp add: map_kept_def)

lemma map_kept_trans:
  assumes "map_kept R m n" "map_kept R n l" "\<And>u v w. R u v \<Longrightarrow> R v w \<Longrightarrow> R u w"
  shows "map_kept R m l"
  unfolding map_kept_def
proof (intro allI impI)
  fix k v
  assume "m k = Some v"
  then obtain v' where "n k = Some v'" "R v v'" using assms(1) by (auto simp: map_kept_def)
  moreover from this obtain v'' where "l k = Some v''" "R v' v''"
    using assms(2) by (auto simp: map_kept_def)
  ultimately show "\<exists>v'. l k = Some v' \<and> R v v'" using assms(3) by blast
qed

lemma map_kept_upd:
  assumes "\<And>v. R v v" "\<And>v. m k = Some v \<Longrightarrow> R v w"
  shows "map_kept R m (m(k \<mapsto> w))"
  using assms by (simp add: map_kept_def)

definition settled_within :: "core \<Rightarrow> core \<Rightarrow> bool" where
  "settled_within c c' \<longleftrightarrow>
     map_kept attempt_kept (c_attempts c) (c_attempts c')
     \<and> map_kept job_kept (c_jobs c) (c_jobs c')
     \<and> map_kept obligation_kept (c_obligations c) (c_obligations c')
     \<and> map_kept (\<le>) (c_fences c) (c_fences c')"

lemma kept_refl [simp]: "attempt_kept att att" "job_kept job job" "obligation_kept obl obl"
  by (simp_all add: attempt_kept_def job_kept_def obligation_kept_def)

lemma settled_within_refl: "settled_within c c"
  by (simp add: settled_within_def map_kept_refl)

lemma settled_within_trans:
  assumes "settled_within c d" "settled_within d e"
  shows "settled_within c e"
proof -
  have "attempt_kept u v \<Longrightarrow> attempt_kept v w \<Longrightarrow> attempt_kept u w" for u v w
    by (auto simp: attempt_kept_def)
  moreover have "job_kept u v \<Longrightarrow> job_kept v w \<Longrightarrow> job_kept u w" for u v w
    by (auto simp: job_kept_def)
  moreover have "obligation_kept u v \<Longrightarrow> obligation_kept v w \<Longrightarrow> obligation_kept u w" for u v w
    by (auto simp: obligation_kept_def)
  ultimately show ?thesis
    using assms unfolding settled_within_def
    by (blast intro: map_kept_trans order_trans)
qed

lemma core_step_settled:
  assumes "core_step c c'" "coherent c"
  shows "settled_within c c'"
  using assms(1) coherentD [OF assms(2)]
proof (induction rule: core_step.induct)
  case (accept c a att job)
  then show ?case
    by (auto simp: settled_within_def attempt_kept_def job_kept_def intro!: map_kept_refl map_kept_upd)
next
  case (offer c j job f a att t)
  then show ?case
    by (auto simp: settled_within_def job_kept_def intro!: map_kept_refl map_kept_upd)
next
  case (cancel_offered c a att job)
  have "owns c att"
    using attempts_own_jobsD [OF cancel_offered.prems(3) cancel_offered.hyps(1)] cancel_offered.hyps(2)
    by simp
  with cancel_offered.hyps show ?case
    by (auto simp: settled_within_def attempt_kept_def job_kept_def owns_def
        intro!: map_kept_refl map_kept_upd)
next
  case (withdraw c a att job s)
  have "owns c att"
    using attempts_own_jobsD [OF withdraw.prems(3) withdraw.hyps(1)] withdraw.hyps(2) by simp
  with withdraw.hyps show ?case
    by (auto simp: settled_within_def attempt_kept_def job_kept_def owns_def
        intro!: map_kept_refl map_kept_upd)
next
  case (finish c a att job s js)
  have "owns c att"
    using attempts_own_jobsD [OF finish.prems(3) finish.hyps(1) executing_active [OF finish.hyps(2)]] .
  with finish.hyps show ?case
    by (auto simp: settled_within_def attempt_kept_def job_kept_def owns_def executing_active
        intro!: map_kept_refl map_kept_upd split: if_splits)
next
  case (requeue c i obl job)
  then have "obligation_ok c obl" by (simp add: obligations_own_jobs_def)
  with requeue.hyps show ?case
    by (auto simp: settled_within_def obligation_kept_def job_kept_def obligation_ok_def
        intro!: map_kept_refl map_kept_upd)
next
  case (settle_cancelled c i obl job)
  then have "obligation_ok c obl" by (simp add: obligations_own_jobs_def)
  with settle_cancelled.hyps show ?case
    by (auto simp: settled_within_def obligation_kept_def job_kept_def obligation_ok_def
        intro!: map_kept_refl map_kept_upd)
qed (auto simp: settled_within_def attempt_kept_def job_kept_def obligation_kept_def executing_active
    intro!: map_kept_refl map_kept_upd)

lemma core_steps_settled:
  assumes "core_step\<^sup>*\<^sup>* c c'" "coherent c"
  shows "settled_within c c'"
  using assms
proof (induction rule: rtranclp_induct)
  case base
  show ?case by (rule settled_within_refl)
next
  case (step d e)
  then show ?case
    using core_step_settled core_steps_coherent settled_within_trans by blast
qed

section \<open>The newest fence\<close>

text \<open>An active attempt carries the newest fence of its submission, so an attempt that was superseded is
  told apart by its fence alone.\<close>

definition newest_active :: "core \<Rightarrow> bool" where
  "newest_active c \<longleftrightarrow>
     (\<forall>a att. c_attempts c a = Some att \<longrightarrow> active (at_status att)
        \<longrightarrow> c_fences c (at_submission att) = Some (at_fence att))"

lemma core_step_newest:
  assumes "core_step c c'" "newest_active c" "attempts_fenced c"
  shows "newest_active c'"
  using assms
proof (induction rule: core_step.induct)
  case (offer c j job f a att t)
  then show ?case by (fastforce simp: newest_active_def idle_submission_def split: if_splits)
next
  case (add_submission c s f)
  then show ?case by (fastforce simp: newest_active_def attempts_fenced_def split: if_splits)
qed (auto simp: newest_active_def executing_active split: if_splits)

lemma core_steps_newest:
  assumes "core_step\<^sup>*\<^sup>* c c'" "coherent c" "newest_active c"
  shows "newest_active c'"
  using assms
proof (induction rule: rtranclp_induct)
  case (step d e)
  then show ?case using core_step_newest coherentD(1) [OF core_steps_coherent] by blast
qed

section \<open>Jobs that were cancelled\<close>

text \<open>A job is doomed when its cancellation was granted: it is cancelled already, or it runs on for an
  attempt that was asked to stop, or waits for a cleanup that will not queue it again.\<close>

definition doomed :: "core \<Rightarrow> uuid \<Rightarrow> bool" where
  "doomed c j \<longleftrightarrow>
     (\<exists>job. c_jobs c j = Some job \<and> jc_status job \<in> {JobRunning, JobCancelled})
     \<and> (\<forall>a att. c_attempts c a = Some att \<longrightarrow> at_job att = j \<longrightarrow> active (at_status att)
          \<longrightarrow> at_status att = AttemptCancelRequested)
     \<and> (\<forall>i obl. c_obligations c i = Some obl \<longrightarrow> ob_job obl = j \<longrightarrow> ob_pending obl \<longrightarrow> \<not> ob_requeue obl)"

lemma core_step_doomed:
  assumes "core_step c c'" "doomed c j"
  shows "doomed c' j"
  using assms
  by (induction rule: core_step.induct) (fastforce simp: doomed_def executing_active split: if_splits)+

lemma core_steps_doomed: "core_step\<^sup>*\<^sup>* c c' \<Longrightarrow> doomed c j \<Longrightarrow> doomed c' j"
  by (induction rule: rtranclp_induct) (auto intro: core_step_doomed)

text \<open>One sign of the cancellation is enough in a coherent state.\<close>

lemma doomedI:
  assumes "coherent c"
    "(\<exists>job. c_jobs c j = Some job \<and> jc_status job = JobCancelled)
     \<or> (\<exists>a att. c_attempts c a = Some att \<and> at_job att = j \<and> at_status att = AttemptCancelRequested)
     \<or> (\<exists>i obl. c_obligations c i = Some obl \<and> ob_job obl = j \<and> ob_pending obl \<and> \<not> ob_requeue obl)"
  shows "doomed c j"
  using assms(2)
proof (elim disjE exE conjE)
  fix job
  assume job: "c_jobs c j = Some job" "jc_status job = JobCancelled"
  have "\<not> active (at_status att)" if "c_attempts c a = Some att" "at_job att = j" for a att
    using attempts_own_jobsD [OF coherentD(3) [OF assms(1)] that(1)] that(2) job by (auto simp: owns_def split: if_splits)
  moreover have "\<not> ob_pending obl" if "c_obligations c i = Some obl" "ob_job obl = j" for i obl
    using coherentD(5) [OF assms(1)] that job by (fastforce simp: obligations_own_jobs_def obligation_ok_def)
  ultimately show ?thesis using job by (auto simp: doomed_def)
next
  fix a att
  assume att: "c_attempts c a = Some att" "at_job att = j" "at_status att = AttemptCancelRequested"
  then obtain job where "c_jobs c j = Some job" "jc_status job = JobRunning"
    using attempts_own_jobsD [OF coherentD(3) [OF assms(1)] att(1)] by (auto simp: owns_def)
  moreover have "at_status btt = AttemptCancelRequested"
    if "c_attempts c b = Some btt" "at_job btt = j" "active (at_status btt)" for b btt
    using active_same_job [OF coherentD(3,4) [OF assms(1)] att(1) that(1)] att that by simp
  moreover have "\<not> ob_pending obl" if "c_obligations c i = Some obl" "ob_job obl = j" for i obl
    using coherentD(5) [OF assms(1)] that att
    by (fastforce simp: obligations_own_jobs_def obligation_ok_def owner_attempt_def)
  ultimately show ?thesis by (auto simp: doomed_def)
next
  fix i obl
  assume obl: "c_obligations c i = Some obl" "ob_job obl = j" "ob_pending obl" "\<not> ob_requeue obl"
  then have "obligation_ok c obl" using coherentD(5) [OF assms(1)] by (auto simp: obligations_own_jobs_def)
  with obl have "\<exists>job. c_jobs c j = Some job \<and> jc_status job = JobRunning" "\<And>a. \<not> owner_attempt c j a"
    by (auto simp: obligation_ok_def)
  moreover have "\<not> ob_requeue obk" if "c_obligations c k = Some obk" "ob_job obk = j" "ob_pending obk" for k obk
    using coherentD(6) [OF assms(1)] obl that unfolding one_obligation_def by force
  ultimately show ?thesis by (auto simp: doomed_def owner_attempt_def)
qed

end
