(* ===== verification/Sql_Tables.thy ===== *)
theory Sql_Tables
  imports Prelude
begin

text \<open>
  The relational operations the stores use, on a table held as the list of its rows. An
  \<open>UPDATE .. WHERE\<close> maps the selected rows, the number of affected rows is the number of selected
  ones, and a row is looked up by its primary key. The lemmas describe each operation through the
  lookup \<open>row_of\<close>, so that a table with distinct keys behaves like a finite map.
\<close>

definition update_where :: "('r \<Rightarrow> bool) \<Rightarrow> ('r \<Rightarrow> 'r) \<Rightarrow> 'r list \<Rightarrow> 'r list" where
  "update_where P f t = map (\<lambda>r. if P r then f r else r) t"

definition affected :: "('r \<Rightarrow> bool) \<Rightarrow> 'r list \<Rightarrow> nat" where
  "affected P t = length (filter P t)"

definition row_of :: "('r \<Rightarrow> 'k) \<Rightarrow> 'r list \<Rightarrow> 'k \<Rightarrow> 'r option" where
  "row_of key t k = find (\<lambda>r. key r = k) t"

text \<open>\<open>ORDER BY .. LIMIT 1\<close>.\<close>

definition first_by :: "('r \<Rightarrow> 'k::linorder) \<Rightarrow> 'r list \<Rightarrow> 'r option" where
  "first_by key t = (case sort_key key t of [] \<Rightarrow> None | r # _ \<Rightarrow> Some r)"

section \<open>Updates\<close>

lemma update_where_simps [simp, table_simps]:
  "update_where P f [] = []"
  "update_where P f (r # t) = (if P r then f r else r) # update_where P f t"
  "update_where P f (t @ u) = update_where P f t @ update_where P f u"
  "length (update_where P f t) = length t"
  by (simp_all add: update_where_def)

lemma in_update_where:
  "x \<in> set (update_where P f t) \<longleftrightarrow> (\<exists>r \<in> set t. x = (if P r then f r else r))"
  by (auto simp: update_where_def)

lemma ball_update_where [table_simps]:
  "(\<forall>x \<in> set (update_where P f t). Q x) \<longleftrightarrow> (\<forall>r \<in> set t. Q (if P r then f r else r))"
  by (auto simp: update_where_def)

lemma list_all_update_where [table_simps]:
  "list_all Q (update_where P f t) \<longleftrightarrow> list_all (\<lambda>r. Q (if P r then f r else r)) t"
  by (induction t) auto

lemma update_where_none: "(\<And>r. r \<in> set t \<Longrightarrow> \<not> P r) \<Longrightarrow> update_where P f t = t"
  by (simp add: update_where_def map_idI)

lemma map_update_where:
  "(\<And>r. P r \<Longrightarrow> g (f r) = g r) \<Longrightarrow> map g (update_where P f t) = map g t"
  by (simp add: update_where_def)

lemma affected_zero [table_simps]: "affected P t = 0 \<longleftrightarrow> (\<forall>r \<in> set t. \<not> P r)"
  by (auto simp: affected_def filter_empty_conv)

section \<open>Lookups\<close>

lemma row_of_simps [simp, table_simps]:
  "row_of key [] k = None"
  "row_of key (r # t) k = (if key r = k then Some r else row_of key t k)"
  by (simp_all add: row_of_def)

lemma row_of_append:
  "row_of key (t @ u) k = (case row_of key t k of None \<Rightarrow> row_of key u k | Some r \<Rightarrow> Some r)"
  by (induction t) auto

lemma row_of_Some: "row_of key t k = Some r \<Longrightarrow> r \<in> set t \<and> key r = k"
  by (induction t) (auto split: if_splits)

lemma row_of_None: "row_of key t k = None \<longleftrightarrow> k \<notin> key ` set t"
  by (induction t) auto

lemma row_of_in_set:
  "distinct (map key t) \<Longrightarrow> r \<in> set t \<Longrightarrow> row_of key t (key r) = Some r"
  by (induction t) (auto simp: image_iff)

lemma row_of_iff:
  "distinct (map key t) \<Longrightarrow> row_of key t k = Some r \<longleftrightarrow> r \<in> set t \<and> key r = k"
  using row_of_Some row_of_in_set by metis

lemma row_of_update_where:
  assumes "\<And>r. P r \<Longrightarrow> key (f r) = key r"
  shows "row_of key (update_where P f t) k = map_option (\<lambda>r. if P r then f r else r) (row_of key t k)"
  using assms by (induction t) auto

lemma row_of_insert:
  "row_of key t (key r) = None \<Longrightarrow> row_of key (t @ [r]) = (row_of key t)(key r \<mapsto> r)"
  by (auto simp: row_of_append fun_eq_iff split: option.splits)

text \<open>An update selected by the primary key changes that row only.\<close>

lemma row_of_update_key:
  assumes "\<And>r. P r \<Longrightarrow> key (f r) = key r" "\<And>r. P r \<Longrightarrow> key r = k0"
  shows "row_of key (update_where P f t) =
    (row_of key t)(k0 := map_option (\<lambda>r. if P r then f r else r) (row_of key t k0))"
proof
  fix k
  show "row_of key (update_where P f t) k =
    ((row_of key t)(k0 := map_option (\<lambda>r. if P r then f r else r) (row_of key t k0))) k"
  proof (cases "k = k0")
    case True
    then show ?thesis using assms(1) by (simp add: row_of_update_where)
  next
    case False
    then show ?thesis
      using assms by (cases "row_of key t k")
        (auto simp: row_of_update_where dest!: row_of_Some)
  qed
qed

lemma affected_key:
  assumes "distinct (map key t)" "\<And>r. P r \<Longrightarrow> key r = k0"
  shows "affected P t = (case row_of key t k0 of None \<Rightarrow> 0 | Some r \<Rightarrow> if P r then 1 else 0)"
  using assms
proof (induction t)
  case (Cons r t)
  show ?case
  proof (cases "key r = k0")
    case True
    with Cons.prems have "\<forall>x \<in> set t. \<not> P x" by (auto simp: image_iff)
    then have "filter P t = []" by (simp add: filter_empty_conv)
    with True show ?thesis by (simp add: affected_def)
  next
    case False
    with Cons show ?thesis by (auto simp: affected_def)
  qed
qed (simp add: affected_def)

lemma affected_key_one:
  assumes "distinct (map key t)" "\<And>r. P r \<Longrightarrow> key r = k0" "affected P t = 1"
  obtains r where "row_of key t k0 = Some r" "P r"
  using assms by (auto simp: affected_key split: option.splits if_splits)

lemma find_conv: "find P t = Some r \<Longrightarrow> r \<in> set t \<and> P r"
  by (induction t) (auto split: if_splits)

lemma find_key:
  assumes "distinct (map key t)" "\<And>r. P r \<Longrightarrow> key r = k0"
  shows "find P t = (case row_of key t k0 of None \<Rightarrow> None | Some r \<Rightarrow> if P r then Some r else None)"
  using assms
proof (induction t)
  case (Cons r t)
  then show ?case
    by (cases "key r = k0") (auto simp: find_None_iff image_iff split: option.splits dest!: find_conv row_of_Some)
qed simp

lemma first_by_Some: "first_by key t = Some r \<Longrightarrow> r \<in> set t \<and> (\<forall>x \<in> set t. key r \<le> key x)"
proof -
  assume a: "first_by key t = Some r"
  then obtain u where u: "sort_key key t = r # u"
    by (auto simp: first_by_def split: list.splits)
  have "sorted (map key (sort_key key t))" by simp
  with u have "\<forall>x \<in> set (sort_key key t). key r \<le> key x" by auto
  moreover have "r \<in> set (sort_key key t)" using u by simp
  ultimately show ?thesis by simp
qed

lemma first_by_None: "first_by key t = None \<longleftrightarrow> t = []"
  by (auto simp: first_by_def split: list.splits) (metis length_0_conv length_sort)

text \<open>\<open>ORDER BY .. DESC LIMIT 1\<close>; of equal rows the one inserted last.\<close>

definition latest_by :: "('r \<Rightarrow> 'k::linorder) \<Rightarrow> 'r list \<Rightarrow> 'r option" where
  "latest_by key t = (case rev (sort_key key t) of [] \<Rightarrow> None | r # _ \<Rightarrow> Some r)"

end
