(* ===== verification/Fleet_Tables.thy ===== *)
theory Fleet_Tables
  imports Fleet_Validate Fleet_Core Sql_Tables
begin

text \<open>
  The tables of the worker fleet (\<open>migrations/\<close>) and the transactions of the store
  (\<open>crates/sbgh-postgres/src/stores/fleet.rs\<close>).

  A table is the list of its rows, a row a record with the columns the stores read. Enumeration
  columns are datatypes, capability columns hold the capability names, \<open>JSONB\<close> columns hold the
  value that was serialized into them, \<open>BIGINT\<close> and \<open>INTEGER\<close> columns are integers, timestamps
  are microseconds. A store operation is one serializable transaction: it ends in an error, a commit
  of the new tables or a rollback, and only a commit changes them. Statements check the constraints
  of the table they change and fail with a database error where one is violated. Foreign keys are not
  checked: no statement deletes a row, and the rows a statement refers to were read in the same
  transaction.
\<close>

section \<open>Rows\<close>

datatype session_status =
    SessionRegistered | SessionIdle | SessionOffered | SessionRunning | SessionDraining
  | SessionOffline | SessionDeregistered

datatype artifact_staging_status = Granted | Uploaded | Verified | Promoted | Rejected | Reaped

datatype cleanup_obligation_status = CleanupPending | CleanupCompleted | CleanupAbandoned

datatype job_source =
  GithubWebhook | GithubComment | SourceSlack | SourceCli | SourceScheduler | SourceDaemon

datatype task_kind = KindBenchmark | KindBlockValidation | KindBuildOnly

datatype job_intent = AdhocBenchmark | BaselineBenchmark | IntentBlockValidation | CacheWarm

datatype build_target = StacksBench | StacksInspect

datatype git_ref_kind = RefBranch | RefTag | RefCommit

datatype submission_step_kind = StepBuild | StepCalibrate | StepRun

datatype job_event_kind =
    EventQueued | EventClaimed | EventProvisionStarted | EventProvisionFinished
  | EventPhaseBuildStarted | EventPhaseBuildFinished | EventPhaseBenchStarted | EventPhaseBenchFinished
  | EventPhaseStarted | EventPhaseFinished | EventTeardownStarted | EventTeardownFinished
  | EventCommentPosted | EventCommentUpdated | EventCheckRunCreated | EventPlanMessageSent
  | EventCompleted | EventFailed | EventCancelled

datatype job_event_status = StatusStarted | StatusInProgress | StatusSuccess | StatusFail

record worker_registry =
  wr_worker_id :: uuid
  wr_display_name :: string
  wr_allowed_capabilities :: "string list"
  wr_measurement_profile :: "string option"
  wr_enabled :: bool
  wr_draining :: bool
  wr_lifecycle_generation :: int
  wr_shutdown_session_id :: "uuid option"

record worker_identity_key =
  wk_identity_key_sha256 :: string
  wk_worker_id :: uuid
  wk_created_at :: instant
  wk_revoked_at :: "instant option"

record worker_session =
  ws_worker_session_id :: uuid
  ws_worker_id :: uuid
  ws_status :: session_status
  ws_protocol_version :: u16
  ws_software_version :: string
  ws_advertised_capabilities :: "string list"
  ws_effective_capabilities :: "string list"
  ws_resource_facts :: resource_facts
  ws_reliable_buffer_len :: int
  ws_started_at :: instant
  ws_last_heartbeat_at :: instant
  ws_expires_at :: instant
  ws_ended_at :: "instant option"
  ws_identity_key_sha256 :: string
  ws_protocol_offer :: "protocol_offer option"
  ws_protocol_contract :: protocol_contract
  ws_preflight_report :: "preflight_report option"

record task_submission =
  ts_id :: uuid
  ts_required_worker_id :: "uuid option"
  ts_assigned_worker_id :: "uuid option"
  ts_required_measurement_profile :: "string option"
  ts_assigned_measurement_profile :: "string option"
  ts_execution_generation :: int
  ts_fencing_generation :: int
  ts_github_installation_id :: int
  ts_github_repo_id :: int
  ts_source :: job_source
  ts_intent :: job_intent
  ts_artifact_prefix :: string
  ts_recovery_of_submission_id :: "uuid option"
  ts_contract_version :: "int option"
  ts_request_digest :: "string option"

record task_spec =
  sp_id :: uuid
  sp_task_submission_id :: uuid
  sp_spec_index :: int
  sp_git_commit_hash :: "string option"
  sp_baseline_calibration_id :: "int option"
  sp_requested_run_count :: int
  sp_github_repo_id :: int
  sp_task_kind :: task_kind
  sp_build_target :: build_target
  sp_git_ref_kind :: git_ref_kind
  sp_git_ref_display :: string
  sp_git_committed_at :: "instant option"
  sp_workload_key :: "string option"

record job =
  j_id :: uuid
  j_task_submission_id :: uuid
  j_task_spec_id :: uuid
  j_github_installation_id :: int
  j_github_repo_id :: int
  j_status :: job_status
  j_source :: job_source
  j_task_kind :: task_kind
  j_required_capability :: string
  j_git_commit_hash :: "string option"
  j_execution_payload_version :: "int option"
  j_execution_payload :: "task_payload option"
  j_execution_payload_hash :: "string option"
  j_claim_token :: "uuid option"
  j_claimed_at :: "instant option"
  j_created_at :: instant
  j_task_run_index :: int
  j_intent :: job_intent
  j_build_target :: build_target
  j_git_ref_kind :: git_ref_kind
  j_git_ref_display :: string
  j_git_committed_at :: "instant option"
  j_workload_key :: "string option"

record worker_attempt =
  wa_attempt_id :: uuid
  wa_job_id :: uuid
  wa_task_submission_id :: uuid
  wa_worker_id :: uuid
  wa_worker_session_id :: uuid
  wa_status :: attempt_status
  wa_fencing_generation :: int
  wa_execution_generation :: int
  wa_claim_token :: uuid
  wa_trace_id :: uuid
  wa_capability :: string
  wa_payload_hash :: string
  wa_offer_expires_at :: instant
  wa_lease_expires_at :: instant
  wa_highest_contiguous_reliable_seq :: int
  wa_projected_reliable_seq :: int
  wa_terminal_reliable_seq :: "int option"
  wa_terminal_payload_digest :: "string option"
  wa_terminal_outcome :: "terminal_outcome option"
  wa_terminal_artifacts :: "artifact_descriptor list option"
  wa_accepted_at :: "instant option"
  wa_terminal_at :: "instant option"
  wa_created_at :: instant
  wa_scheduler_generation :: int

record worker_attempt_event =
  we_attempt_id :: uuid
  we_reliable_seq :: int
  we_trace_id :: uuid
  we_payload_kind :: string
  we_payload :: reliable_event_payload
  we_payload_digest :: string
  we_worker_timestamp_ms :: int
  we_received_at :: instant
  we_projected_at :: "instant option"
  we_projection_discarded_reason :: "string option"

record worker_attempt_progress =
  wp_attempt_id :: uuid
  wp_progress_seq :: int
  wp_trace_id :: uuid
  wp_update :: progress_update
  wp_received_at :: instant
  wp_projected_at :: "instant option"
  wp_projection_discarded_reason :: "string option"

record worker_artifact_staging =
  st_attempt_id :: uuid
  st_object_key :: string
  st_logical_key :: string
  st_status :: artifact_staging_status
  st_size_bytes :: "int option"
  st_sha256 :: "string option"
  st_grant_expires_at :: "instant option"
  st_verified_at :: "instant option"
  st_promoted_at :: "instant option"
  st_created_at :: instant

record worker_cleanup_obligation =
  co_id :: int
  co_worker_id :: uuid
  co_worker_session_id :: uuid
  co_attempt_id :: uuid
  co_job_id :: uuid
  co_status :: cleanup_obligation_status
  co_requeue_job :: bool
  co_reason :: string
  co_created_at :: instant
  co_completed_at :: "instant option"

record job_event =
  je_job_id :: uuid
  je_event_kind :: job_event_kind
  je_event_status :: job_event_status
  je_remark :: "string option"
  je_detail :: "json option"
  je_occurred_at :: instant

record job_result =
  jr_job_id :: uuid
  jr_run_json :: "json option"
  jr_archive_dir :: string

record job_metric =
  jm_job_id :: uuid
  jm_columns :: "int list"

record block_validation_row =
  bv_job_id :: uuid
  bv_attempt_id :: uuid
  bv_chainstate_origin :: string
  bv_pre_nakamoto_count :: int
  bv_nakamoto_count :: int
  bv_resolved_start :: int
  bv_resolved_end :: int
  bv_epoch_segments :: "validation_epoch_segment list"
  bv_shard_count :: int
  bv_max_concurrency :: int
  bv_valid :: bool
  bv_checked_blocks :: int
  bv_invalid_blocks :: "invalid_block list"
  bv_artifact_manifest :: "artifact_descriptor list"

record github_repo =
  gr_id :: int
  gr_owner :: string
  gr_name :: string

record task_submission_slack =
  sl_task_submission_id :: uuid
  sl_team_id :: string
  sl_channel_id :: string
  sl_request_message_ts :: string
  sl_reporting_identity :: string
  sl_report_message_ts :: "string option"

record task_workflow_step =
  sw_task_submission_id :: uuid
  sw_step_index :: int
  sw_step_kind :: submission_step_kind
  sw_task_spec_id :: "uuid option"

record task_submission_provenance =
  sv_task_submission_id :: uuid
  sv_actor_kind :: string
  sv_actor_identity :: "string option"
  sv_queued_event_detail :: json

record task_submission_github =
  sg_task_submission_id :: uuid
  sg_github_webhook_id :: "int option"
  sg_triggering_user_id :: "int option"
  sg_github_pull_request_id :: "int option"
  sg_triggering_comment_id :: "int option"

record task_submission_idempotency =
  si_producer_namespace :: string
  si_producer_key :: string
  si_task_submission_id :: uuid
  si_contract_version :: "int option"
  si_request_digest :: "string option"
  si_initial_job_ids :: "uuid list"

section \<open>Administrative policies and receipts\<close>

record scheduler_policy =
  sc_paused :: bool
  sc_generation :: int
  sc_actor :: string
  sc_reason :: string
  sc_changed_at :: instant

record scheduler_audit =
  sa_request_id :: uuid
  sa_paused :: bool
  sa_actor :: string
  sa_reason :: string
  sa_generation :: int
  sa_policy_actor :: string
  sa_policy_reason :: string
  sa_policy_changed_at :: instant

record protocol_policy =
  pp_minimum_revision :: u16
  pp_generation :: int
  pp_actor :: string
  pp_reason :: string
  pp_rollback_evidence :: string
  pp_changed_at :: instant

record protocol_audit =
  pa_request_id :: uuid
  pa_minimum_revision :: u16
  pa_actor :: string
  pa_reason :: string
  pa_rollback_evidence :: string
  pa_receipt :: protocol_policy

datatype worker_lifecycle_action = Cordon | Uncordon | ShutdownWhenIdle

record worker_lifecycle_receipt =
  lr_request_id :: uuid
  lr_worker_id :: uuid
  lr_action :: worker_lifecycle_action
  lr_generation :: int
  lr_target_session_id :: "uuid option"
  lr_actor :: string
  lr_reason :: string
  lr_recorded_at :: instant

datatype fleet_abort_scope = AbortActive | AbortAllPending

record fleet_abort_receipt =
  fr_request_id :: uuid
  fr_scope :: fleet_abort_scope
  fr_scheduler_generation :: int
  fr_actor :: string
  fr_reason :: string
  fr_recorded_at :: instant
  fr_selected_job_ids :: "uuid list"
  fr_accepted_job_ids :: "uuid list"

section \<open>The database\<close>

record db =
  db_registry :: "worker_registry list"
  db_identities :: "worker_identity_key list"
  db_sessions :: "worker_session list"
  db_submissions :: "task_submission list"
  db_specs :: "task_spec list"
  db_jobs :: "job list"
  db_attempts :: "worker_attempt list"
  db_events :: "worker_attempt_event list"
  db_progress :: "worker_attempt_progress list"
  db_staging :: "worker_artifact_staging list"
  db_obligations :: "worker_cleanup_obligation list"
  db_job_events :: "job_event list"
  db_job_results :: "job_result list"
  db_job_metrics :: "job_metric list"
  db_block_results :: "block_validation_row list"
  db_repos :: "github_repo list"
  db_slack :: "task_submission_slack list"
  db_steps :: "task_workflow_step list"
  db_provenance :: "task_submission_provenance list"
  db_github :: "task_submission_github list"
  db_idempotency :: "task_submission_idempotency list"
  db_scheduler :: scheduler_policy
  db_scheduler_audit :: "scheduler_audit list"
  db_protocol :: protocol_policy
  db_protocol_audit :: "protocol_audit list"
  db_lifecycle_audit :: "worker_lifecycle_receipt list"
  db_abort_audit :: "fleet_abort_receipt list"
  db_obligation_sequence :: int

datatype session_registration_error =
  Superseded | FactsChanged | RecoveryPending | ProtocolIncompatible

datatype store_error =
    Config string
  | SessionRegistration session_registration_error
  | FleetSessionInactive
  | Database
  | Other

text \<open>The end of a transaction. An early \<open>return Ok(..)\<close> drops the transaction, which rolls it
  back; an operation that decodes its result after the commit may still fail with the changes
  made.\<close>

datatype 'a outcome =
    Error store_error
  | Commit 'a db
  | CommitError store_error db
  | Rollback 'a

definition run_tx :: "(db \<Rightarrow> 'a outcome) \<Rightarrow> db \<Rightarrow> (store_error + 'a) \<times> db" where
  "run_tx tx d = (case tx d of Error e \<Rightarrow> (Inl e, d) | Commit a d' \<Rightarrow> (Inr a, d')
     | CommitError e d' \<Rightarrow> (Inl e, d') | Rollback a \<Rightarrow> (Inr a, d))"

text \<open>The tables a transaction commits, if it commits.\<close>

definition committed :: "'a outcome \<Rightarrow> db option" where
  "committed oc = (case oc of Commit _ d \<Rightarrow> Some d | CommitError _ d \<Rightarrow> Some d | _ \<Rightarrow> None)"

lemma committed_simps [simp]:
  "committed (Error e) = None"
  "committed (Commit a d) = Some d"
  "committed (CommitError e d) = Some d"
  "committed (Rollback a) = None"
  by (simp_all add: committed_def)

lemma run_tx_committed:
  "snd (run_tx tx d) = (case committed (tx d) of None \<Rightarrow> d | Some d' \<Rightarrow> d')"
  by (simp add: run_tx_def split: outcome.split)

text \<open>An operation keeps what its commits keep.\<close>

lemma run_tx_preserves:
  assumes "\<And>d'. committed (tx d) = Some d' \<Longrightarrow> Q d'" "Q d"
  shows "Q (snd (run_tx tx d))"
  using assms by (simp add: run_tx_committed split: option.split)

end
