(* ===== verification/Fleet_Statements.thy ===== *)
theory Fleet_Statements
  imports Fleet_Tables
begin

text \<open>
  The constraints of the fleet's tables, the statements that change a table under its constraints,
  and the view of the tables as a state of the abstract machine of \<open>Fleet_Core\<close>. A statement takes
  the rest of the transaction as its continuation.
\<close>

section \<open>Constraints\<close>

definition live_session :: "session_status \<Rightarrow> bool" where
  "live_session s \<longleftrightarrow> s \<in> {SessionRegistered, SessionIdle, SessionOffered, SessionRunning, SessionDraining}"

definition session_check :: "worker_session \<Rightarrow> bool" where
  "session_check s \<longleftrightarrow>
     (ws_status s \<in> {SessionOffline, SessionDeregistered}) = (ws_ended_at s \<noteq> None)
     \<and> 0 \<le> ws_reliable_buffer_len s \<and> ws_reliable_buffer_len s \<le> 4096
     \<and> ws_advertised_capabilities s \<noteq> [] \<and> ws_effective_capabilities s \<noteq> []
     \<and> 0 < ws_protocol_version s"

definition session_table_ok :: "worker_session list \<Rightarrow> bool" where
  "session_table_ok t \<longleftrightarrow> list_all session_check t \<and> distinct (map ws_worker_session_id t)
     \<and> distinct (map ws_worker_id (filter (\<lambda>s. live_session (ws_status s)) t))"

definition attempt_check :: "worker_attempt \<Rightarrow> bool" where
  "attempt_check a \<longleftrightarrow>
     0 < wa_fencing_generation a \<and> 0 < wa_execution_generation a
     \<and> lowercase_sha256 (wa_payload_hash a)
     \<and> 0 \<le> wa_projected_reliable_seq a
     \<and> wa_projected_reliable_seq a \<le> wa_highest_contiguous_reliable_seq a
     \<and> (wa_status a = AttemptOffered \<longrightarrow> wa_accepted_at a = None)
     \<and> (executing (wa_status a) \<or> terminal (wa_status a) \<longrightarrow> wa_accepted_at a \<noteq> None)
     \<and> (if terminal (wa_status a)
        then wa_terminal_at a \<noteq> None \<and> wa_terminal_outcome a \<noteq> None \<and> wa_terminal_artifacts a \<noteq> None
          \<and> (case wa_terminal_reliable_seq a of None \<Rightarrow> False | Some n \<Rightarrow> 0 < n)
          \<and> (case wa_terminal_payload_digest a of None \<Rightarrow> False | Some h \<Rightarrow> lowercase_sha256 h)
        else wa_terminal_at a = None \<and> wa_terminal_outcome a = None \<and> wa_terminal_artifacts a = None
          \<and> wa_terminal_reliable_seq a = None \<and> wa_terminal_payload_digest a = None)"

definition attempt_table_ok :: "worker_attempt list \<Rightarrow> bool" where
  "attempt_table_ok t \<longleftrightarrow> list_all attempt_check t \<and> distinct (map wa_attempt_id t)
     \<and> distinct (map wa_trace_id t)
     \<and> distinct (map (\<lambda>a. (wa_job_id a, wa_fencing_generation a)) t)
     \<and> distinct (map wa_job_id (filter (\<lambda>a. active (wa_status a)) t))
     \<and> distinct (map wa_task_submission_id (filter (\<lambda>a. active (wa_status a)) t))"

text \<open>\<open>length\<close> of a \<open>TEXT\<close> value counts characters.\<close>

definition length_between :: "nat \<Rightarrow> nat \<Rightarrow> string \<Rightarrow> bool" where
  "length_between lo hi s \<longleftrightarrow> lo \<le> length (utf8_chars s) \<and> length (utf8_chars s) \<le> hi"

definition contract_check :: "int option \<Rightarrow> string option \<Rightarrow> bool" where
  "contract_check version digest \<longleftrightarrow>
     (version = None \<and> digest = None)
     \<or> ((case version of None \<Rightarrow> False | Some v \<Rightarrow> 0 < v)
        \<and> (case digest of None \<Rightarrow> False | Some h \<Rightarrow> lowercase_sha256 h))"

definition submission_check :: "task_submission \<Rightarrow> bool" where
  "submission_check s \<longleftrightarrow>
     0 < ts_execution_generation s \<and> 0 \<le> ts_fencing_generation s
     \<and> (ts_required_worker_id s = None \<or> ts_assigned_worker_id s = None
        \<or> ts_required_worker_id s = ts_assigned_worker_id s)
     \<and> (ts_required_measurement_profile s = None \<or> ts_assigned_measurement_profile s = None
        \<or> ts_required_measurement_profile s = ts_assigned_measurement_profile s)
     \<and> contract_check (ts_contract_version s) (ts_request_digest s)
     \<and> (case ts_required_measurement_profile s of None \<Rightarrow> True | Some p \<Rightarrow> length_between 1 128 p)
     \<and> (case ts_assigned_measurement_profile s of None \<Rightarrow> True | Some p \<Rightarrow> length_between 1 128 p)"

definition submission_table_ok :: "task_submission list \<Rightarrow> bool" where
  "submission_table_ok t \<longleftrightarrow> list_all submission_check t \<and> distinct (map ts_id t)
     \<and> distinct (map ts_artifact_prefix t)"

definition spec_check :: "task_spec \<Rightarrow> bool" where
  "spec_check s \<longleftrightarrow> 0 \<le> sp_spec_index s \<and> 1 \<le> sp_requested_run_count s"

definition spec_table_ok :: "task_spec list \<Rightarrow> bool" where
  "spec_table_ok t \<longleftrightarrow> list_all spec_check t \<and> distinct (map sp_id t)
     \<and> distinct (map (\<lambda>s. (sp_task_submission_id s, sp_spec_index s)) t)"

definition job_check :: "job \<Rightarrow> bool" where
  "job_check j \<longleftrightarrow> 0 \<le> j_task_run_index j \<and>
     ((j_execution_payload_version j = None \<and> j_execution_payload j = None
        \<and> j_execution_payload_hash j = None)
     \<or> ((case j_execution_payload_version j of None \<Rightarrow> False | Some v \<Rightarrow> 0 < v) \<and> j_execution_payload j \<noteq> None
        \<and> (case j_execution_payload_hash j of None \<Rightarrow> False | Some h \<Rightarrow> lowercase_sha256 h)))"

definition job_table_ok :: "job list \<Rightarrow> bool" where
  "job_table_ok t \<longleftrightarrow> list_all job_check t \<and> distinct (map j_id t)
     \<and> distinct (map (\<lambda>j. (j_task_spec_id j, j_task_run_index j)) t)"

definition event_check :: "worker_attempt_event \<Rightarrow> bool" where
  "event_check e \<longleftrightarrow> 0 < we_reliable_seq e \<and> lowercase_sha256 (we_payload_digest e)
     \<and> (we_projection_discarded_reason e = None \<or> we_projected_at e \<noteq> None)"

definition event_table_ok :: "worker_attempt_event list \<Rightarrow> bool" where
  "event_table_ok t \<longleftrightarrow> list_all event_check t \<and> distinct (map (\<lambda>e. (we_attempt_id e, we_reliable_seq e)) t)"

text \<open>The check of the keys is the second one of the table; the first concerns keys that contain a
  backslash only.\<close>

definition staging_check :: "worker_artifact_staging \<Rightarrow> bool" where
  "staging_check s \<longleftrightarrow>
     (case st_size_bytes s of None \<Rightarrow> True | Some n \<Rightarrow> 0 \<le> n)
     \<and> (case st_sha256 s of None \<Rightarrow> True | Some h \<Rightarrow> lowercase_sha256 h)
     \<and> \<not> starts_with (st_object_key s) ''/'' \<and> \<not> starts_with (st_logical_key s) ''/''"

definition staging_table_ok :: "worker_artifact_staging list \<Rightarrow> bool" where
  "staging_table_ok t \<longleftrightarrow> list_all staging_check t
     \<and> distinct (map (\<lambda>s. (st_attempt_id s, st_object_key s)) t)
     \<and> distinct (map (\<lambda>s. (st_attempt_id s, st_logical_key s)) t)"

section \<open>Statements\<close>

definition set_sessions ::
  "worker_session list \<Rightarrow> db \<Rightarrow> (db \<Rightarrow> 'a outcome) \<Rightarrow> 'a outcome" where
  "set_sessions t d k = (if session_table_ok t then k (d\<lparr>db_sessions := t\<rparr>) else Error Database)"

definition set_attempts ::
  "worker_attempt list \<Rightarrow> db \<Rightarrow> (db \<Rightarrow> 'a outcome) \<Rightarrow> 'a outcome" where
  "set_attempts t d k = (if attempt_table_ok t then k (d\<lparr>db_attempts := t\<rparr>) else Error Database)"

definition set_submissions ::
  "task_submission list \<Rightarrow> db \<Rightarrow> (db \<Rightarrow> 'a outcome) \<Rightarrow> 'a outcome" where
  "set_submissions t d k =
     (if submission_table_ok t then k (d\<lparr>db_submissions := t\<rparr>)
      else Error Database)"

definition set_specs :: "task_spec list \<Rightarrow> db \<Rightarrow> (db \<Rightarrow> 'a outcome) \<Rightarrow> 'a outcome" where
  "set_specs t d k = (if spec_table_ok t then k (d\<lparr>db_specs := t\<rparr>) else Error Database)"

definition set_jobs :: "job list \<Rightarrow> db \<Rightarrow> (db \<Rightarrow> 'a outcome) \<Rightarrow> 'a outcome" where
  "set_jobs t d k =
     (if job_table_ok t then k (d\<lparr>db_jobs := t\<rparr>) else Error Database)"

definition set_events ::
  "worker_attempt_event list \<Rightarrow> db \<Rightarrow> (db \<Rightarrow> 'a outcome) \<Rightarrow> 'a outcome" where
  "set_events t d k = (if event_table_ok t then k (d\<lparr>db_events := t\<rparr>) else Error Database)"

definition set_staging ::
  "worker_artifact_staging list \<Rightarrow> db \<Rightarrow> (db \<Rightarrow> 'a outcome) \<Rightarrow> 'a outcome" where
  "set_staging t d k = (if staging_table_ok t then k (d\<lparr>db_staging := t\<rparr>) else Error Database)"

definition update_sessions ::
  "(worker_session \<Rightarrow> bool) \<Rightarrow> (worker_session \<Rightarrow> worker_session) \<Rightarrow> db \<Rightarrow> (db \<Rightarrow> 'a outcome)
     \<Rightarrow> 'a outcome" where
  "update_sessions P f d = set_sessions (update_where P f (db_sessions d)) d"

definition update_attempts ::
  "(worker_attempt \<Rightarrow> bool) \<Rightarrow> (worker_attempt \<Rightarrow> worker_attempt) \<Rightarrow> db \<Rightarrow> (db \<Rightarrow> 'a outcome)
     \<Rightarrow> 'a outcome" where
  "update_attempts P f d = set_attempts (update_where P f (db_attempts d)) d"

definition update_jobs ::
  "(job \<Rightarrow> bool) \<Rightarrow> (job \<Rightarrow> job) \<Rightarrow> db \<Rightarrow> (db \<Rightarrow> 'a outcome) \<Rightarrow> 'a outcome" where
  "update_jobs P f d = set_jobs (update_where P f (db_jobs d)) d"

definition update_obligations ::
  "(worker_cleanup_obligation \<Rightarrow> bool) \<Rightarrow> (worker_cleanup_obligation \<Rightarrow> worker_cleanup_obligation)
     \<Rightarrow> db \<Rightarrow> db" where
  "update_obligations P f d = d\<lparr>db_obligations := update_where P f (db_obligations d)\<rparr>"

definition insert_job_event :: "job_event \<Rightarrow> db \<Rightarrow> db" where
  "insert_job_event e d = d\<lparr>db_job_events := db_job_events d @ [e]\<rparr>"

text \<open>\<open>INSERT INTO worker_cleanup_obligation .. ON CONFLICT (attempt_id) DO NOTHING\<close>; the identity is
  the next value of the table's sequence.\<close>

definition insert_obligation ::
  "uuid \<Rightarrow> uuid \<Rightarrow> uuid \<Rightarrow> uuid \<Rightarrow> bool \<Rightarrow> string \<Rightarrow> instant \<Rightarrow> db \<Rightarrow> db" where
  "insert_obligation worker_id sess_id attempt_id job_id requeue reason now d =
     (if list_ex (\<lambda>ob. co_attempt_id ob = attempt_id) (db_obligations d)
      then d\<lparr>db_obligation_sequence := db_obligation_sequence d + 1\<rparr>
      else d\<lparr>db_obligations := db_obligations d @
               [\<lparr>co_id = db_obligation_sequence d, co_worker_id = worker_id,
                 co_worker_session_id = sess_id, co_attempt_id = attempt_id, co_job_id = job_id,
                 co_status = CleanupPending, co_requeue_job = requeue, co_reason = reason,
                 co_created_at = now, co_completed_at = None\<rparr>],
             db_obligation_sequence := db_obligation_sequence d + 1\<rparr>)"

lemmas statement_defs = update_sessions_def update_attempts_def update_jobs_def

lemma committed_statement [simp, table_simps]:
  "committed (set_sessions t d k) =
     (if session_table_ok t then committed (k (d\<lparr>db_sessions := t\<rparr>)) else None)"
  "committed (set_attempts t2 d k) =
     (if attempt_table_ok t2 then committed (k (d\<lparr>db_attempts := t2\<rparr>)) else None)"
  "committed (set_submissions t3 d k) =
     (if submission_table_ok t3
      then committed (k (d\<lparr>db_submissions := t3\<rparr>)) else None)"
  "committed (set_jobs t4 d k) =
     (if job_table_ok t4 then committed (k (d\<lparr>db_jobs := t4\<rparr>)) else None)"
  "committed (set_events t5 d k) =
     (if event_table_ok t5 then committed (k (d\<lparr>db_events := t5\<rparr>)) else None)"
  "committed (set_staging t6 d k) =
     (if staging_table_ok t6 then committed (k (d\<lparr>db_staging := t6\<rparr>)) else None)"
  "committed (set_specs t7 d k) =
     (if spec_table_ok t7 then committed (k (d\<lparr>db_specs := t7\<rparr>)) else None)"
  by (simp_all add: set_specs_def set_sessions_def set_attempts_def set_submissions_def set_jobs_def set_events_def
      set_staging_def)

section \<open>The abstract state\<close>

text \<open>A table seen as a map from its key to the part of the row that \<open>Fleet_Core\<close> speaks about.\<close>

definition view :: "('r \<Rightarrow> 'k) \<Rightarrow> ('r \<Rightarrow> 'v) \<Rightarrow> 'r list \<Rightarrow> 'k \<rightharpoonup> 'v" where
  "view key g t = (\<lambda>k. map_option g (row_of key t k))"

definition abs_job :: "job \<Rightarrow> job_core" where
  "abs_job j = \<lparr>jc_submission = j_task_submission_id j, jc_status = j_status j, jc_claim = j_claim_token j\<rparr>"

definition abs_attempt :: "worker_attempt \<Rightarrow> attempt_core" where
  "abs_attempt a = \<lparr>at_job = wa_job_id a, at_submission = wa_task_submission_id a,
     at_status = wa_status a, at_fence = wa_fencing_generation a, at_claim = wa_claim_token a\<rparr>"

definition abs_obligation :: "worker_cleanup_obligation \<Rightarrow> obligation_core" where
  "abs_obligation ob = \<lparr>ob_attempt = co_attempt_id ob, ob_job = co_job_id ob,
     ob_pending = (co_status ob = CleanupPending), ob_requeue = co_requeue_job ob\<rparr>"

definition core_of :: "db \<Rightarrow> core" where
  "core_of d = \<lparr>c_jobs = view j_id abs_job (db_jobs d),
     c_attempts = view wa_attempt_id abs_attempt (db_attempts d),
     c_obligations = view co_id abs_obligation (db_obligations d),
     c_fences = view ts_id ts_fencing_generation (db_submissions d)\<rparr>"

lemma core_of_sel [simp]:
  "c_jobs (core_of d) = view j_id abs_job (db_jobs d)"
  "c_attempts (core_of d) = view wa_attempt_id abs_attempt (db_attempts d)"
  "c_obligations (core_of d) = view co_id abs_obligation (db_obligations d)"
  "c_fences (core_of d) = view ts_id ts_fencing_generation (db_submissions d)"
  by (simp_all add: core_of_def)

lemma view_Some: "view key g t k = Some v \<longleftrightarrow> (\<exists>r. row_of key t k = Some r \<and> g r = v)"
  by (auto simp: view_def)

lemma view_None: "view key g t k = None \<longleftrightarrow> row_of key t k = None"
  by (simp add: view_def)

lemma view_same:
  assumes "\<And>r. P r \<Longrightarrow> key (f r) = key r" "\<And>r. r \<in> set t \<Longrightarrow> P r \<Longrightarrow> g (f r) = g r"
  shows "view key g (update_where P f t) = view key g t"
proof
  fix k
  show "view key g (update_where P f t) k = view key g t k"
    using assms by (cases "row_of key t k") (auto simp: view_def row_of_update_where dest!: row_of_Some)
qed

lemma view_update_key:
  assumes "\<And>r. P r \<Longrightarrow> key (f r) = key r" "\<And>r. P r \<Longrightarrow> key r = k" "row_of key t k = Some r" "P r"
  shows "view key g (update_where P f t) = (view key g t)(k \<mapsto> g (f r))"
  using assms by (auto simp: view_def row_of_update_key fun_eq_iff)

lemma view_insert:
  assumes "row_of key t (key r) = None"
  shows "view key g (t @ [r]) = (view key g t)(key r \<mapsto> g r)"
  using row_of_insert [OF assms] by (auto simp: view_def fun_eq_iff)

lemma core_eqI:
  assumes "c_jobs c = c_jobs c'" "c_attempts c = c_attempts c'" "c_obligations c = c_obligations c'"
    "c_fences c = c_fences c'"
  shows "c = (c' :: core)"
  using assms by simp

section \<open>Well-formed databases\<close>

text \<open>The constraints of the tables hold, the obligation sequence is ahead of every obligation, and
  the abstract state is coherent.\<close>

definition schema_ok :: "db \<Rightarrow> bool" where
  "schema_ok d \<longleftrightarrow> session_table_ok (db_sessions d) \<and> attempt_table_ok (db_attempts d)
     \<and> submission_table_ok (db_submissions d) \<and> spec_table_ok (db_specs d) \<and> job_table_ok (db_jobs d)
     \<and> event_table_ok (db_events d) \<and> staging_table_ok (db_staging d)
     \<and> distinct (map co_id (db_obligations d))
     \<and> list_all (\<lambda>ob. co_id ob < db_obligation_sequence d) (db_obligations d)"

definition well_formed :: "db \<Rightarrow> bool" where
  "well_formed d \<longleftrightarrow> schema_ok d \<and> coherent (core_of d)"

section \<open>Reasoning about transactions\<close>

text \<open>A transaction ensures a property when every commit has it.\<close>

definition ensures :: "(db \<Rightarrow> bool) \<Rightarrow> 'a outcome \<Rightarrow> bool" where
  "ensures Q oc \<longleftrightarrow> (\<forall>d'. committed oc = Some d' \<longrightarrow> Q d')"

named_theorems tx_intro

lemma ensures_end [tx_intro]:
  "ensures Q (Error e)" "ensures Q (Rollback a)"
  "Q d \<Longrightarrow> ensures Q (Commit a d)" "Q d \<Longrightarrow> ensures Q (CommitError e d)"
  by (simp_all add: ensures_def)

lemma ensures_statement [tx_intro]:
  "(session_table_ok t \<Longrightarrow> ensures Q (k (d\<lparr>db_sessions := t\<rparr>))) \<Longrightarrow> ensures Q (set_sessions t d k)"
  "(attempt_table_ok t2 \<Longrightarrow> ensures Q (k (d\<lparr>db_attempts := t2\<rparr>))) \<Longrightarrow> ensures Q (set_attempts t2 d k)"
  "(submission_table_ok t3 \<Longrightarrow> ensures Q (k (d\<lparr>db_submissions := t3\<rparr>)))
     \<Longrightarrow> ensures Q (set_submissions t3 d k)"
  "(job_table_ok t4 \<Longrightarrow> ensures Q (k (d\<lparr>db_jobs := t4\<rparr>)))
     \<Longrightarrow> ensures Q (set_jobs t4 d k)"
  "(event_table_ok t5 \<Longrightarrow> ensures Q (k (d\<lparr>db_events := t5\<rparr>))) \<Longrightarrow> ensures Q (set_events t5 d k)"
  "(staging_table_ok t6 \<Longrightarrow> ensures Q (k (d\<lparr>db_staging := t6\<rparr>))) \<Longrightarrow> ensures Q (set_staging t6 d k)"
  "(spec_table_ok t7 \<Longrightarrow> ensures Q (k (d\<lparr>db_specs := t7\<rparr>))) \<Longrightarrow> ensures Q (set_specs t7 d k)"
  by (simp_all add: ensures_def)

lemma ensures_update [tx_intro]:
  "(session_table_ok (update_where P f (db_sessions d)) \<Longrightarrow>
      ensures Q (k (d\<lparr>db_sessions := update_where P f (db_sessions d)\<rparr>)))
     \<Longrightarrow> ensures Q (update_sessions P f d k)"
  "(attempt_table_ok (update_where P2 f2 (db_attempts d)) \<Longrightarrow>
      ensures Q (k (d\<lparr>db_attempts := update_where P2 f2 (db_attempts d)\<rparr>)))
     \<Longrightarrow> ensures Q (update_attempts P2 f2 d k)"
  "(job_table_ok (update_where P3 f3 (db_jobs d)) \<Longrightarrow>
      ensures Q (k (d\<lparr>db_jobs := update_where P3 f3 (db_jobs d)\<rparr>)))
     \<Longrightarrow> ensures Q (update_jobs P3 f3 d k)"
  by (simp_all add: ensures_def statement_defs)

lemma ensures_branch [tx_intro]:
  "(b \<Longrightarrow> ensures Q x) \<Longrightarrow> (\<not> b \<Longrightarrow> ensures Q y) \<Longrightarrow> ensures Q (if b then x else y)"
  "(opt = None \<Longrightarrow> ensures Q n) \<Longrightarrow> (\<And>v. opt = Some v \<Longrightarrow> ensures Q (s v))
     \<Longrightarrow> ensures Q (case opt of None \<Rightarrow> n | Some v \<Rightarrow> s v)"
  "(\<And>e. r = Inl e \<Longrightarrow> ensures Q (l e)) \<Longrightarrow> (\<And>v. r = Inr v \<Longrightarrow> ensures Q (s2 v))
     \<Longrightarrow> ensures Q (case r of Inl e \<Rightarrow> l e | Inr v \<Rightarrow> s2 v)"
  "(\<And>x y. p = (x, y) \<Longrightarrow> ensures Q (s3 x y)) \<Longrightarrow> ensures Q (case p of (x, y) \<Rightarrow> s3 x y)"
  "ensures Q (f4 v4) \<Longrightarrow> ensures Q (let x = v4 in f4 x)"
  by (simp_all split: option.split sum.split prod.split)

lemma ensures_run_tx: "ensures Q (tx d) \<Longrightarrow> Q d \<Longrightarrow> Q (snd (run_tx tx d))"
  unfolding ensures_def by (rule run_tx_preserves) auto

text \<open>The same for the answer together with the tables; \<open>None\<close> is the answer of an operation that fails
  after its commit.\<close>

definition yields :: "('a option \<Rightarrow> db \<Rightarrow> bool) \<Rightarrow> 'a outcome \<Rightarrow> bool" where
  "yields R oc = (case oc of Commit a d \<Rightarrow> R (Some a) d | CommitError _ d \<Rightarrow> R None d | _ \<Rightarrow> True)"

named_theorems yield_intro

lemma yields_end [yield_intro]:
  "yields R (Error e)" "yields R (Rollback a)"
  "R (Some a) d \<Longrightarrow> yields R (Commit a d)" "R None d \<Longrightarrow> yields R (CommitError e d)"
  by (simp_all add: yields_def)

lemma yields_statement [yield_intro]:
  "(session_table_ok t \<Longrightarrow> yields R (k (d\<lparr>db_sessions := t\<rparr>))) \<Longrightarrow> yields R (set_sessions t d k)"
  "(attempt_table_ok t2 \<Longrightarrow> yields R (k (d\<lparr>db_attempts := t2\<rparr>))) \<Longrightarrow> yields R (set_attempts t2 d k)"
  "(submission_table_ok t3 \<Longrightarrow> yields R (k (d\<lparr>db_submissions := t3\<rparr>)))
     \<Longrightarrow> yields R (set_submissions t3 d k)"
  "(job_table_ok t4 \<Longrightarrow> yields R (k (d\<lparr>db_jobs := t4\<rparr>)))
     \<Longrightarrow> yields R (set_jobs t4 d k)"
  "(event_table_ok t5 \<Longrightarrow> yields R (k (d\<lparr>db_events := t5\<rparr>))) \<Longrightarrow> yields R (set_events t5 d k)"
  "(staging_table_ok t6 \<Longrightarrow> yields R (k (d\<lparr>db_staging := t6\<rparr>))) \<Longrightarrow> yields R (set_staging t6 d k)"
  by (simp_all add: yields_def set_sessions_def set_attempts_def set_submissions_def set_jobs_def
      set_events_def set_staging_def)

lemma yields_update [yield_intro]:
  "(session_table_ok (update_where P f (db_sessions d)) \<Longrightarrow>
      yields R (k (d\<lparr>db_sessions := update_where P f (db_sessions d)\<rparr>)))
     \<Longrightarrow> yields R (update_sessions P f d k)"
  "(attempt_table_ok (update_where P2 f2 (db_attempts d)) \<Longrightarrow>
      yields R (k (d\<lparr>db_attempts := update_where P2 f2 (db_attempts d)\<rparr>)))
     \<Longrightarrow> yields R (update_attempts P2 f2 d k)"
  "(job_table_ok (update_where P3 f3 (db_jobs d)) \<Longrightarrow>
      yields R (k (d\<lparr>db_jobs := update_where P3 f3 (db_jobs d)\<rparr>)))
     \<Longrightarrow> yields R (update_jobs P3 f3 d k)"
  by (simp_all add: statement_defs yields_statement)

lemma yields_branch [yield_intro]:
  "(b \<Longrightarrow> yields R x) \<Longrightarrow> (\<not> b \<Longrightarrow> yields R y) \<Longrightarrow> yields R (if b then x else y)"
  "(opt = None \<Longrightarrow> yields R n) \<Longrightarrow> (\<And>v. opt = Some v \<Longrightarrow> yields R (s v))
     \<Longrightarrow> yields R (case opt of None \<Rightarrow> n | Some v \<Rightarrow> s v)"
  "(\<And>e. r = Inl e \<Longrightarrow> yields R (l e)) \<Longrightarrow> (\<And>v. r = Inr v \<Longrightarrow> yields R (s2 v))
     \<Longrightarrow> yields R (case r of Inl e \<Rightarrow> l e | Inr v \<Rightarrow> s2 v)"
  "(\<And>x y. p = (x, y) \<Longrightarrow> yields R (s3 x y)) \<Longrightarrow> yields R (case p of (x, y) \<Rightarrow> s3 x y)"
  "yields R (f4 v4) \<Longrightarrow> yields R (let x = v4 in f4 x)"
  by (simp_all split: option.split sum.split prod.split)

lemma yields_Commit: "yields R oc \<Longrightarrow> oc = Commit a d \<Longrightarrow> R (Some a) d"
  by (simp add: yields_def)

lemma yields_CommitError: "yields R oc \<Longrightarrow> oc = CommitError e d \<Longrightarrow> R None d"
  by (simp add: yields_def)

text \<open>What a table update leaves alone.\<close>

lemma core_of_frame [simp]:
  "core_of (d\<lparr>db_sessions := t1\<rparr>) = core_of d"
  "core_of (d\<lparr>db_registry := t2\<rparr>) = core_of d"
  "core_of (d\<lparr>db_identities := t3\<rparr>) = core_of d"
  "core_of (d\<lparr>db_specs := t4\<rparr>) = core_of d"
  "core_of (d\<lparr>db_events := t5\<rparr>) = core_of d"
  "core_of (d\<lparr>db_progress := t6\<rparr>) = core_of d"
  "core_of (d\<lparr>db_staging := t7\<rparr>) = core_of d"
  "core_of (d\<lparr>db_job_events := t8\<rparr>) = core_of d"
  "core_of (d\<lparr>db_job_results := t9\<rparr>) = core_of d"
  "core_of (d\<lparr>db_job_metrics := t10\<rparr>) = core_of d"
  "core_of (d\<lparr>db_block_results := t11\<rparr>) = core_of d"
  "core_of (d\<lparr>db_scheduler := t12\<rparr>) = core_of d"
  "core_of (d\<lparr>db_scheduler_audit := t13\<rparr>) = core_of d"
  "core_of (d\<lparr>db_protocol := t14\<rparr>) = core_of d"
  "core_of (d\<lparr>db_protocol_audit := t15\<rparr>) = core_of d"
  "core_of (d\<lparr>db_lifecycle_audit := t16\<rparr>) = core_of d"
  "core_of (d\<lparr>db_abort_audit := t17\<rparr>) = core_of d"
  "core_of (d\<lparr>db_obligation_sequence := t18\<rparr>) = core_of d"
  "core_of (d\<lparr>db_slack := t19\<rparr>) = core_of d"
  "core_of (d\<lparr>db_steps := t20\<rparr>) = core_of d"
  "core_of (d\<lparr>db_provenance := t21\<rparr>) = core_of d"
  "core_of (d\<lparr>db_github := t22\<rparr>) = core_of d"
  "core_of (d\<lparr>db_idempotency := t23\<rparr>) = core_of d"
  "core_of (insert_job_event e d) = core_of d"
  by (simp_all add: core_of_def insert_job_event_def)

lemma schema_ok_update:
  "schema_ok d \<Longrightarrow> session_table_ok t1 \<Longrightarrow> schema_ok (d\<lparr>db_sessions := t1\<rparr>)"
  "schema_ok d \<Longrightarrow> attempt_table_ok t2 \<Longrightarrow> schema_ok (d\<lparr>db_attempts := t2\<rparr>)"
  "schema_ok d \<Longrightarrow> submission_table_ok t3 \<Longrightarrow> schema_ok (d\<lparr>db_submissions := t3\<rparr>)"
  "schema_ok d \<Longrightarrow> job_table_ok t4 \<Longrightarrow> schema_ok (d\<lparr>db_jobs := t4\<rparr>)"
  "schema_ok d \<Longrightarrow> event_table_ok t5 \<Longrightarrow> schema_ok (d\<lparr>db_events := t5\<rparr>)"
  "schema_ok d \<Longrightarrow> staging_table_ok t6 \<Longrightarrow> schema_ok (d\<lparr>db_staging := t6\<rparr>)"
  "schema_ok d \<Longrightarrow> spec_table_ok t7 \<Longrightarrow> schema_ok (d\<lparr>db_specs := t7\<rparr>)"
  by (simp_all add: schema_ok_def)

lemma schema_ok_frame:
  "schema_ok d \<Longrightarrow> schema_ok (d\<lparr>db_registry := t2\<rparr>)"
  "schema_ok d \<Longrightarrow> schema_ok (d\<lparr>db_identities := t3\<rparr>)"
  "schema_ok d \<Longrightarrow> schema_ok (d\<lparr>db_slack := t4\<rparr>)"
  "schema_ok d \<Longrightarrow> schema_ok (d\<lparr>db_progress := t6\<rparr>)"
  "schema_ok d \<Longrightarrow> schema_ok (d\<lparr>db_job_events := t8\<rparr>)"
  "schema_ok d \<Longrightarrow> schema_ok (d\<lparr>db_job_results := t9\<rparr>)"
  "schema_ok d \<Longrightarrow> schema_ok (d\<lparr>db_job_metrics := t10\<rparr>)"
  "schema_ok d \<Longrightarrow> schema_ok (d\<lparr>db_block_results := t11\<rparr>)"
  "schema_ok d \<Longrightarrow> schema_ok (d\<lparr>db_scheduler := t12\<rparr>)"
  "schema_ok d \<Longrightarrow> schema_ok (d\<lparr>db_scheduler_audit := t13\<rparr>)"
  "schema_ok d \<Longrightarrow> schema_ok (d\<lparr>db_protocol := t14\<rparr>)"
  "schema_ok d \<Longrightarrow> schema_ok (d\<lparr>db_protocol_audit := t15\<rparr>)"
  "schema_ok d \<Longrightarrow> schema_ok (d\<lparr>db_lifecycle_audit := t16\<rparr>)"
  "schema_ok d \<Longrightarrow> schema_ok (d\<lparr>db_abort_audit := t17\<rparr>)"
  "schema_ok d \<Longrightarrow> schema_ok (d\<lparr>db_steps := t20\<rparr>)"
  "schema_ok d \<Longrightarrow> schema_ok (d\<lparr>db_provenance := t21\<rparr>)"
  "schema_ok d \<Longrightarrow> schema_ok (d\<lparr>db_github := t22\<rparr>)"
  "schema_ok d \<Longrightarrow> schema_ok (d\<lparr>db_idempotency := t23\<rparr>)"
  "schema_ok d \<Longrightarrow> schema_ok (insert_job_event e d)"
  by (simp_all add: schema_ok_def insert_job_event_def)

text \<open>An update of specifications that keeps the constrained columns.\<close>

lemma spec_table_ok_update_where:
  assumes "spec_table_ok t" "\<And>s. sp_id (f s) = sp_id s"
    "\<And>s. sp_task_submission_id (f s) = sp_task_submission_id s" "\<And>s. sp_spec_index (f s) = sp_spec_index s"
    "\<And>s. sp_requested_run_count (f s) = sp_requested_run_count s"
  shows "spec_table_ok (update_where P f t)"
  using assms by (auto simp: spec_table_ok_def spec_check_def list_all_iff in_update_where map_update_where)

lemma schema_ok_update_specs:
  assumes "schema_ok d" "\<And>s. sp_id (f s) = sp_id s"
    "\<And>s. sp_task_submission_id (f s) = sp_task_submission_id s" "\<And>s. sp_spec_index (f s) = sp_spec_index s"
    "\<And>s. sp_requested_run_count (f s) = sp_requested_run_count s"
  shows "schema_ok (d\<lparr>db_specs := update_where P f (db_specs d)\<rparr>)"
proof -
  have "spec_table_ok (update_where P f (db_specs d))"
    using assms by (intro spec_table_ok_update_where) (simp_all add: schema_ok_def)
  with assms(1) show ?thesis by (rule schema_ok_update)
qed

text \<open>An update of obligations that keeps the identities.\<close>

lemma schema_ok_update_obligations:
  assumes "schema_ok d" "\<And>ob. co_id (f ob) = co_id ob"
  shows "schema_ok (update_obligations P f d)"
proof -
  have "map co_id (update_where P f (db_obligations d)) = map co_id (db_obligations d)"
    using assms(2) by (intro map_update_where)
  moreover have "list_all (\<lambda>ob. co_id ob < db_obligation_sequence d) (update_where P f (db_obligations d))"
    using assms by (auto simp: schema_ok_def in_update_where list_all_iff)
  ultimately show ?thesis using assms(1) by (simp add: schema_ok_def update_obligations_def)
qed

lemma schema_ok_insert_obligation:
  "schema_ok d \<Longrightarrow> schema_ok (insert_obligation w s a j r reason now d)"
  by (fastforce simp: schema_ok_def insert_obligation_def list_all_iff image_iff)

lemmas schema_intros = schema_ok_update schema_ok_frame schema_ok_update_obligations
  schema_ok_insert_obligation

lemma schema_distinct:
  assumes "schema_ok d"
  shows "distinct (map ws_worker_session_id (db_sessions d))"
    "distinct (map wa_attempt_id (db_attempts d))"
    "distinct (map ts_id (db_submissions d))"
    "distinct (map j_id (db_jobs d))"
    "distinct (map co_id (db_obligations d))"
  using assms by (simp_all add: schema_ok_def session_table_ok_def attempt_table_ok_def
      submission_table_ok_def job_table_ok_def)

text \<open>One step of the implementation: the tables still satisfy their constraints, and the abstract
  state has moved by transitions of the abstract machine.\<close>

definition refines :: "db \<Rightarrow> db \<Rightarrow> bool" where
  "refines d d' \<longleftrightarrow> schema_ok d' \<and> core_step\<^sup>*\<^sup>* (core_of d) (core_of d')"

lemma refines_refl: "schema_ok d \<Longrightarrow> refines d d"
  by (simp add: refines_def)

lemma refines_trans: "refines d d' \<Longrightarrow> refines d' d'' \<Longrightarrow> refines d d''"
  by (auto simp: refines_def)

lemma refines_stutter: "schema_ok d' \<Longrightarrow> core_of d' = core_of d \<Longrightarrow> refines d d'"
  by (simp add: refines_def)

lemma refines_step: "schema_ok d' \<Longrightarrow> core_step (core_of d) (core_of d') \<Longrightarrow> refines d d'"
  by (auto simp: refines_def)

lemma refines_wf: "well_formed d \<Longrightarrow> refines d d' \<Longrightarrow> well_formed d'"
  by (auto simp: refines_def well_formed_def intro: core_steps_coherent)

lemma refines_settled: "well_formed d \<Longrightarrow> refines d d' \<Longrightarrow> settled_within (core_of d) (core_of d')"
  by (auto simp: refines_def well_formed_def intro: core_steps_settled)

lemma wfD: "well_formed d \<Longrightarrow> schema_ok d" "well_formed d \<Longrightarrow> coherent (core_of d)"
  by (simp_all add: well_formed_def)

lemma ensures_refines_core:
  assumes "ensures schema_ok oc" "ensures (\<lambda>d'. core_of d' = core_of d) oc"
  shows "ensures (refines d) oc"
  using assms by (auto simp: ensures_def refines_stutter)

lemma ensures_refines_step:
  assumes "ensures schema_ok oc" "ensures (\<lambda>d'. core_step (core_of d) (core_of d')) oc"
  shows "ensures (refines d) oc"
  using assms by (auto simp: ensures_def refines_step)

lemma ensures_mono: "ensures Q oc \<Longrightarrow> (\<And>d'. Q d' \<Longrightarrow> R d') \<Longrightarrow> ensures R oc"
  by (auto simp: ensures_def)

end
