(* ===== verification/Fleet_Sample.thy ===== *)
theory Fleet_Sample
  imports Fleet_Statements
begin

text \<open>
  A small fleet: one worker with one session, one submission of one build-only task with its job, and
  the attempts given as an argument. The states of this fleet are the concrete inputs at which the
  properties of the store are instantiated.
\<close>

definition sample_hash :: string where
  "sample_hash = replicate 64 CHR ''a''"

definition sample_contract :: protocol_contract where
  "sample_contract = \<lparr>pc_revision = 2, pc_features = supported\<rparr>"

definition sample_registry :: worker_registry where
  "sample_registry = \<lparr>wr_worker_id = 1, wr_display_name = ''worker'', wr_allowed_capabilities = [''build_only''],
     wr_measurement_profile = None, wr_enabled = True, wr_draining = False, wr_lifecycle_generation = 0,
     wr_shutdown_session_id = None\<rparr>"

definition sample_session :: "session_status \<Rightarrow> worker_session" where
  "sample_session status = \<lparr>ws_worker_session_id = 2, ws_worker_id = 1, ws_status = status, ws_protocol_version = 1,
     ws_software_version = ''1.0'', ws_advertised_capabilities = [''build_only''],
     ws_effective_capabilities = [''build_only''],
     ws_resource_facts = \<lparr>rf_logical_cpus = 8, rf_memory_bytes = 1024\<rparr>, ws_reliable_buffer_len = 0,
     ws_started_at = 0, ws_last_heartbeat_at = 0, ws_expires_at = 1000000000, ws_ended_at = None,
     ws_identity_key_sha256 = sample_hash, ws_protocol_offer = None, ws_protocol_contract = sample_contract,
     ws_preflight_report = None\<rparr>"

definition sample_submission :: "int \<Rightarrow> task_submission" where
  "sample_submission fence = \<lparr>ts_id = 3, ts_required_worker_id = None,
     ts_assigned_worker_id = (if fence = 0 then None else Some 1),
     ts_required_measurement_profile = None, ts_assigned_measurement_profile = None,
     ts_execution_generation = 1, ts_fencing_generation = fence, ts_github_installation_id = 1,
     ts_github_repo_id = 1, ts_source = SourceScheduler, ts_intent = CacheWarm, ts_artifact_prefix = ''3'',
     ts_recovery_of_submission_id = None, ts_contract_version = None, ts_request_digest = None\<rparr>"

definition sample_spec :: task_spec where
  "sample_spec = \<lparr>sp_id = 4, sp_task_submission_id = 3, sp_spec_index = 0,
     sp_git_commit_hash = Some (replicate 40 CHR ''c''), sp_baseline_calibration_id = None,
     sp_requested_run_count = 1, sp_github_repo_id = 1, sp_task_kind = KindBuildOnly,
     sp_build_target = StacksBench, sp_git_ref_kind = RefBranch, sp_git_ref_display = ''main'',
     sp_git_committed_at = None, sp_workload_key = None\<rparr>"

definition sample_job :: "job_status \<Rightarrow> job" where
  "sample_job status = \<lparr>j_id = 5, j_task_submission_id = 3, j_task_spec_id = 4, j_github_installation_id = 1,
     j_github_repo_id = 1, j_status = status, j_source = SourceScheduler, j_task_kind = KindBuildOnly,
     j_required_capability = ''build_only'', j_git_commit_hash = Some (replicate 40 CHR ''c''),
     j_execution_payload_version = Some 1, j_execution_payload = Some TaskBuildOnly,
     j_execution_payload_hash = Some sample_hash,
     j_claim_token = (if status = JobQueued then None else Some 7),
     j_claimed_at = (if status = JobQueued then None else Some 10), j_created_at = 0, j_task_run_index = 0,
     j_intent = CacheWarm, j_build_target = StacksBench, j_git_ref_kind = RefBranch,
     j_git_ref_display = ''main'', j_git_committed_at = None, j_workload_key = None\<rparr>"

text \<open>The attempt \<open>6\<close> of the job, offered or running, with the first fence of the submission.\<close>

definition sample_attempt :: "attempt_status \<Rightarrow> worker_attempt" where
  "sample_attempt status = \<lparr>wa_attempt_id = 6, wa_job_id = 5, wa_task_submission_id = 3, wa_worker_id = 1,
     wa_worker_session_id = 2, wa_status = status, wa_fencing_generation = 1, wa_execution_generation = 1,
     wa_claim_token = 7, wa_trace_id = 8, wa_capability = ''build_only'', wa_payload_hash = sample_hash,
     wa_offer_expires_at = 100000000, wa_lease_expires_at = 100000000, wa_highest_contiguous_reliable_seq = 0,
     wa_projected_reliable_seq = 0, wa_terminal_reliable_seq = None, wa_terminal_payload_digest = None,
     wa_terminal_outcome = None, wa_terminal_artifacts = None,
     wa_accepted_at = (if status = AttemptOffered then None else Some 10), wa_terminal_at = None,
     wa_created_at = 10, wa_scheduler_generation = 0\<rparr>"

definition sample_identity :: attempt_identity where
  "sample_identity = \<lparr>ai_worker_session_id = 2, ai_attempt_id = 6, ai_fencing_generation = 1, ai_lease_token = []\<rparr>"

definition sample_db :: "session_status \<Rightarrow> int \<Rightarrow> job_status \<Rightarrow> worker_attempt list \<Rightarrow> db" where
  "sample_db session fence status attempts = \<lparr>db_registry = [sample_registry],
     db_identities = [\<lparr>wk_identity_key_sha256 = sample_hash, wk_worker_id = 1, wk_created_at = 0, wk_revoked_at = None\<rparr>],
     db_sessions = [sample_session session], db_submissions = [sample_submission fence],
     db_specs = [sample_spec], db_jobs = [sample_job status], db_attempts = attempts, db_events = [],
     db_progress = [], db_staging = [], db_obligations = [], db_job_events = [], db_job_results = [],
     db_job_metrics = [], db_block_results = [],
     db_repos = [\<lparr>gr_id = 1, gr_owner = ''owner'', gr_name = ''repo''\<rparr>], db_slack = [], db_steps = [],
     db_provenance = [], db_github = [], db_idempotency = [],
     db_scheduler = \<lparr>sc_paused = False, sc_generation = 0, sc_actor = ''migration'', sc_reason = ''initial'',
       sc_changed_at = 0\<rparr>,
     db_scheduler_audit = [],
     db_protocol = \<lparr>pp_minimum_revision = 1, pp_generation = 0, pp_actor = ''migration'', pp_reason = ''initial'',
       pp_rollback_evidence = ''none'', pp_changed_at = 0\<rparr>,
     db_protocol_audit = [], db_lifecycle_audit = [], db_abort_audit = [], db_obligation_sequence = 1\<rparr>"

definition queued_db :: db where
  "queued_db = sample_db SessionIdle 0 JobQueued []"

definition offered_db :: db where
  "offered_db = sample_db SessionOffered 1 JobClaimed [sample_attempt AttemptOffered]"

definition running_db :: db where
  "running_db = sample_db SessionRunning 1 JobRunning [sample_attempt AttemptRunning]"

text \<open>The attempt expired while it was running; its worker owes the cleanup and the job waits for it.\<close>

definition sample_obligation :: worker_cleanup_obligation where
  "sample_obligation = \<lparr>co_id = 1, co_worker_id = 1, co_worker_session_id = 2, co_attempt_id = 6, co_job_id = 5,
     co_status = CleanupPending, co_requeue_job = True, co_reason = ''lease expired'', co_created_at = 20,
     co_completed_at = None\<rparr>"

definition fenced_db :: db where
  "fenced_db = (sample_db SessionIdle 1 JobRunning [sample_attempt AttemptExpired])
     \<lparr>db_obligations := [sample_obligation], db_obligation_sequence := 2\<rparr>"

lemma sample_tables [simp]:
  "db_registry (sample_db session fence status attempts) = [sample_registry]"
  "db_identities (sample_db session fence status attempts) = [\<lparr>wk_identity_key_sha256 = sample_hash, wk_worker_id = 1, wk_created_at = 0, wk_revoked_at = None\<rparr>]"
  "db_sessions (sample_db session fence status attempts) = [sample_session session]"
  "db_submissions (sample_db session fence status attempts) = [sample_submission fence]"
  "db_specs (sample_db session fence status attempts) = [sample_spec]"
  "db_jobs (sample_db session fence status attempts) = [sample_job status]"
  "db_attempts (sample_db session fence status attempts) = attempts"
  "db_events (sample_db session fence status attempts) = []"
  "db_progress (sample_db session fence status attempts) = []"
  "db_staging (sample_db session fence status attempts) = []"
  "db_obligations (sample_db session fence status attempts) = []"
  "db_job_events (sample_db session fence status attempts) = []"
  "db_job_results (sample_db session fence status attempts) = []"
  "db_job_metrics (sample_db session fence status attempts) = []"
  "db_block_results (sample_db session fence status attempts) = []"
  "db_repos (sample_db session fence status attempts) = [\<lparr>gr_id = 1, gr_owner = ''owner'', gr_name = ''repo''\<rparr>]"
  "db_slack (sample_db session fence status attempts) = []"
  "db_steps (sample_db session fence status attempts) = []"
  "db_provenance (sample_db session fence status attempts) = []"
  "db_github (sample_db session fence status attempts) = []"
  "db_idempotency (sample_db session fence status attempts) = []"
  "db_scheduler (sample_db session fence status attempts) = \<lparr>sc_paused = False, sc_generation = 0, sc_actor = ''migration'', sc_reason = ''initial'', sc_changed_at = 0\<rparr>"
  "db_scheduler_audit (sample_db session fence status attempts) = []"
  "db_protocol (sample_db session fence status attempts) = \<lparr>pp_minimum_revision = 1, pp_generation = 0, pp_actor = ''migration'', pp_reason = ''initial'', pp_rollback_evidence = ''none'', pp_changed_at = 0\<rparr>"
  "db_protocol_audit (sample_db session fence status attempts) = []"
  "db_lifecycle_audit (sample_db session fence status attempts) = []"
  "db_abort_audit (sample_db session fence status attempts) = []"
  "db_obligation_sequence (sample_db session fence status attempts) = 1"
  by (simp_all add: sample_db_def)

lemmas statement_eval = update_sessions_def set_sessions_def update_jobs_def set_jobs_def update_attempts_def set_attempts_def
  set_submissions_def affected_def

lemmas sample_states = queued_db_def offered_db_def running_db_def fenced_db_def

lemmas sample_rows = sample_registry_def sample_session_def sample_submission_def sample_spec_def sample_job_def
  sample_attempt_def sample_obligation_def

lemma lowercase_sha256_sample [simp]: "lowercase_sha256 sample_hash"
  by (simp add: sample_hash_def lowercase_sha256_def is_ascii_digit_def byte_of_def list_all_iff)

lemmas table_checks = session_table_ok_def attempt_table_ok_def submission_table_ok_def spec_table_ok_def
  job_table_ok_def event_table_ok_def staging_table_ok_def session_check_def attempt_check_def
  submission_check_def contract_check_def spec_check_def job_check_def event_check_def staging_check_def

lemma sample_schema_ok [simp]: "schema_ok queued_db" "schema_ok offered_db" "schema_ok running_db" "schema_ok fenced_db"
  unfolding schema_ok_def
  by (simp_all add: sample_states table_checks sample_rows live_session_def executing_def terminal_def)

lemma sample_coherent: "coherent (core_of queued_db)" "coherent (core_of offered_db)" "coherent (core_of running_db)"
  "coherent (core_of fenced_db)"
  by (auto simp: coherent_def core_inv_defs view_def sample_states sample_rows abs_job_def abs_attempt_def abs_obligation_def
      split: if_splits)

lemma sample_well_formed [simp]: "well_formed queued_db" "well_formed offered_db" "well_formed running_db" "well_formed fenced_db"
  by (simp_all add: well_formed_def sample_coherent)

lemma sample_selection [simp]: "validate_selection current_offer sample_contract = Inr ()"
  unfolding validate_selection_def validate_current_offer
  by (auto simp: sample_contract_def supported_revision_def revision_defs current_offer_def features_at_def)

lemma sample_support [simp]: "supports_capability sample_contract cap" "supports_payload sample_contract payload"
  "pc_revision sample_contract = 2" "f |\<in>| pc_features sample_contract"
  by (simp_all add: supports_capability_def supports_payload_def sample_contract_def supported_revision_def revision_defs)

end
