(* ===== verification/Fleet_Store_Offers.thy ===== *)
theory Fleet_Store_Offers
  imports Fleet_Sample
begin

text \<open>
  Offering work (\<open>crates/sbgh-postgres/src/stores/fleet.rs\<close>): a worker polls, receives an offer for
  the oldest job it may run, accepts it and renews its lease. The arguments \<open>now\<close> and \<open>utc\<close> are
  the transaction's \<open>NOW()\<close> and the daemon's \<open>Utc::now()\<close>; generated UUIDs are arguments, and
  \<open>locked\<close> is the set of job rows that \<open>SKIP LOCKED\<close> passes over. The repository join is on the
  repository table, the lease token is the empty string of the source.
\<close>

section \<open>Decoding rows\<close>

definition capability :: "string \<Rightarrow> store_error + worker_capability" where
  "capability value =
     (if value = ''benchmark'' then Inr Benchmark
      else if value = ''build_only'' then Inr BuildOnly
      else if value = ''block_validation'' then Inr BlockValidation
      else Inl (Config (''unknown worker capability from database: '' @ value)))"

definition millis :: "instant \<Rightarrow> int" where
  "millis timestamp = timestamp div 1000"

text \<open>The length of \<open>make_interval(secs => duration_seconds(d))\<close>.\<close>

definition duration_seconds :: "duration \<Rightarrow> duration" where
  "duration_seconds t = max (num_milliseconds t) 1 * 1000"

record offered_assignment_t =
  oa_offer :: work_offer
  oa_context_repository :: string
  oa_context_commit :: string
  oa_installation_id :: int
  oa_github_repo_id :: int
  oa_payload :: task_payload
  oa_vcpu_cpuset :: "string option"
  oa_measurement_profile :: "string option"

text \<open>A row of \<open>OFFER_SELECT\<close>: an attempt joined with its job, the job's repository and the
  submission.\<close>

record offer_row =
  or_attempt :: worker_attempt
  or_job :: job
  or_repo :: github_repo
  or_submission :: task_submission

definition offer_join :: "db \<Rightarrow> worker_attempt \<Rightarrow> offer_row option" where
  "offer_join d a =
     (case row_of j_id (db_jobs d) (wa_job_id a) of
        None \<Rightarrow> None
      | Some j \<Rightarrow>
          (case row_of gr_id (db_repos d) (j_github_repo_id j) of
             None \<Rightarrow> None
           | Some r \<Rightarrow>
               (case row_of ts_id (db_submissions d) (wa_task_submission_id a) of
                  None \<Rightarrow> None
                | Some s \<Rightarrow> Some \<lparr>or_attempt = a, or_job = j, or_repo = r, or_submission = s\<rparr>)))"

definition OFFER_SELECT :: "db \<Rightarrow> offer_row list" where
  "OFFER_SELECT d = List.map_filter (offer_join d) (db_attempts d)"

definition repository_name :: "github_repo \<Rightarrow> string" where
  "repository_name r = gr_owner r @ ''/'' @ gr_name r"

definition offer_from_row :: "offer_row \<Rightarrow> store_error + offered_assignment_t" where
  "offer_from_row row =
     (let a = or_attempt row; j = or_job row in
      case j_execution_payload j of
        None \<Rightarrow> Inl Database
      | Some payload \<Rightarrow>
          and_then (capability (wa_capability a)) (\<lambda>cap.
            case j_git_commit_hash j of
              None \<Rightarrow> Inl Database
            | Some commit \<Rightarrow>
                Inr \<lparr>oa_offer = \<lparr>
                       wo_identity = \<lparr>ai_worker_session_id = wa_worker_session_id a,
                         ai_attempt_id = wa_attempt_id a,
                         ai_fencing_generation = word_of_int (wa_fencing_generation a),
                         ai_lease_token = []\<rparr>,
                       wo_job_id = wa_job_id a, wo_trace_id = wa_trace_id a,
                       wo_capability = cap,
                       wo_requirements = offer_requirements_from payload,
                       wo_payload_hash = wa_payload_hash a,
                       wo_offer_expires_at_ms = millis (wa_offer_expires_at a)\<rparr>,
                     oa_context_repository = repository_name (or_repo row),
                     oa_context_commit = commit,
                     oa_installation_id = j_github_installation_id j,
                     oa_github_repo_id = j_github_repo_id j,
                     oa_payload = payload, oa_vcpu_cpuset = None,
                     oa_measurement_profile = ts_assigned_measurement_profile (or_submission row)\<rparr>))"

section \<open>Policies\<close>

text \<open>\<open>scheduler::lock_policy\<close> reads the singleton row; \<open>protocol::lock_policy\<close> also refuses a
  revision outside the supported window.\<close>

definition protocol_lock_policy :: "db \<Rightarrow> (protocol_policy \<Rightarrow> 'a outcome) \<Rightarrow> 'a outcome" where
  "protocol_lock_policy d k =
     (if supported_revision (pp_minimum_revision (db_protocol d)) then k (db_protocol d)
      else Error (Config ''protocol floor is outside the supported rolling window''))"

definition has_pending_cleanup :: "db \<Rightarrow> uuid \<Rightarrow> bool" where
  "has_pending_cleanup d worker_id \<longleftrightarrow>
     list_ex (\<lambda>ob. co_worker_id ob = worker_id \<and> co_status ob = CleanupPending) (db_obligations d)"

definition overlaps :: "string list \<Rightarrow> string list \<Rightarrow> bool" where
  "overlaps xs ys \<longleftrightarrow> list_ex (\<lambda>x. x \<in> set ys) xs"

section \<open>Polling\<close>

definition poll_session :: "db \<Rightarrow> uuid \<Rightarrow> uuid \<Rightarrow> instant \<Rightarrow> (worker_session \<times> worker_registry) option" where
  "poll_session d worker_id worker_session_id now =
     (case row_of wr_worker_id (db_registry d) worker_id of
        None \<Rightarrow> None
      | Some registry \<Rightarrow>
          (case find (\<lambda>s. ws_worker_session_id s = worker_session_id \<and> ws_worker_id s = worker_id
               \<and> wr_enabled registry
               \<and> overlaps (ws_advertised_capabilities s) (wr_allowed_capabilities registry)
               \<and> ws_expires_at s > now
               \<and> ws_status s \<in> {SessionRegistered, SessionIdle, SessionOffered, SessionDraining})
             (db_sessions d) of
             None \<Rightarrow> None
           | Some s \<Rightarrow> Some (s, registry)))"

record candidate =
  cd_job :: job
  cd_submission :: task_submission
  cd_repo :: github_repo

definition candidate_join :: "db \<Rightarrow> job \<Rightarrow> candidate option" where
  "candidate_join d j =
     (case row_of ts_id (db_submissions d) (j_task_submission_id j) of
        None \<Rightarrow> None
      | Some s \<Rightarrow>
          (case row_of gr_id (db_repos d) (j_github_repo_id j) of
             None \<Rightarrow> None
           | Some r \<Rightarrow> Some \<lparr>cd_job = j, cd_submission = s, cd_repo = r\<rparr>))"

definition eligible ::
  "db \<Rightarrow> uuid \<Rightarrow> string list \<Rightarrow> string option \<Rightarrow> (uuid \<Rightarrow> bool) \<Rightarrow> candidate \<Rightarrow> bool" where
  "eligible d worker_id capabilities profile locked c \<longleftrightarrow>
     (let j = cd_job c; s = cd_submission c in
      j_status j = JobQueued \<and> j_execution_payload j \<noteq> None \<and> j_git_commit_hash j \<noteq> None
      \<and> (j_source j \<noteq> SourceSlack
         \<or> list_ex (\<lambda>sl. sl_task_submission_id sl = ts_id s \<and> sl_report_message_ts sl \<noteq> None) (db_slack d))
      \<and> j_required_capability j \<in> set capabilities
      \<and> (ts_required_worker_id s = None \<or> ts_required_worker_id s = Some worker_id)
      \<and> (ts_assigned_worker_id s = None \<or> ts_assigned_worker_id s = Some worker_id)
      \<and> (j_task_kind j \<noteq> KindBenchmark \<or> ts_required_measurement_profile s = None
         \<or> ts_required_measurement_profile s = profile)
      \<and> (j_task_kind j \<noteq> KindBenchmark \<or> ts_assigned_measurement_profile s = None
         \<or> ts_assigned_measurement_profile s = profile)
      \<and> \<not> list_ex (\<lambda>a. wa_task_submission_id a = ts_id s \<and> active (wa_status a)) (db_attempts d)
      \<and> \<not> locked (j_id j))"

definition next_candidate ::
  "db \<Rightarrow> uuid \<Rightarrow> string list \<Rightarrow> string option \<Rightarrow> (uuid \<Rightarrow> bool) \<Rightarrow> candidate option" where
  "next_candidate d worker_id capabilities profile locked =
     first_by (\<lambda>c. (j_created_at (cd_job c), j_id (cd_job c)))
       (filter (eligible d worker_id capabilities profile locked)
         (List.map_filter (candidate_join d) (db_jobs d)))"

definition supported_names :: "protocol_contract \<Rightarrow> string list \<Rightarrow> string list" where
  "supported_names contract names =
     filter (\<lambda>name. case capability name of Inl _ \<Rightarrow> False | Inr c \<Rightarrow> supports_capability contract c) names"

definition existing_offer :: "db \<Rightarrow> uuid \<Rightarrow> uuid \<Rightarrow> instant \<Rightarrow> offer_row option" where
  "existing_offer d worker_id worker_session_id now =
     first_by (\<lambda>row. wa_created_at (or_attempt row))
       (filter (\<lambda>row. wa_worker_id (or_attempt row) = worker_id
            \<and> wa_worker_session_id (or_attempt row) = worker_session_id
            \<and> wa_status (or_attempt row) = AttemptOffered
            \<and> wa_offer_expires_at (or_attempt row) > now)
         (OFFER_SELECT d))"

record new_ids =
  id_claim_token :: uuid
  id_attempt :: uuid
  id_trace :: uuid

text \<open>The second half of \<open>poll_offer\<close>: claim the selected job for this session. The placement of
  the submission, the claim of the job and the new attempt are the statements' conditions and
  values.\<close>

definition may_place :: "uuid \<Rightarrow> uuid \<Rightarrow> task_submission \<Rightarrow> bool" where
  "may_place worker_id submission_id r \<longleftrightarrow> ts_id r = submission_id
     \<and> (ts_assigned_worker_id r = None \<or> ts_assigned_worker_id r = Some worker_id)
     \<and> (ts_required_worker_id r = None \<or> ts_required_worker_id r = Some worker_id)"

definition place :: "uuid \<Rightarrow> string option \<Rightarrow> int \<Rightarrow> task_submission \<Rightarrow> task_submission" where
  "place worker_id profile fence r = r\<lparr>
     ts_assigned_worker_id := (case ts_assigned_worker_id r of None \<Rightarrow> Some worker_id | Some w \<Rightarrow> Some w),
     ts_assigned_measurement_profile :=
       (case ts_assigned_measurement_profile r of None \<Rightarrow> profile | Some p \<Rightarrow> Some p),
     ts_fencing_generation := fence\<rparr>"

definition is_queued :: "uuid \<Rightarrow> job \<Rightarrow> bool" where
  "is_queued job_id r \<longleftrightarrow> j_id r = job_id \<and> j_status r = JobQueued"

definition claim :: "uuid \<Rightarrow> instant \<Rightarrow> job \<Rightarrow> job" where
  "claim token now r = r\<lparr>j_status := JobClaimed, j_claim_token := Some token, j_claimed_at := Some now\<rparr>"

definition offered_attempt ::
  "uuid \<Rightarrow> uuid \<Rightarrow> new_ids \<Rightarrow> job \<Rightarrow> task_submission \<Rightarrow> string \<Rightarrow> instant \<Rightarrow> instant \<Rightarrow> instant \<Rightarrow> int
     \<Rightarrow> worker_attempt" where
  "offered_attempt worker_id worker_session_id ids j s payload_hash offer_expires_at lease_expires_at now
     generation =
     \<lparr>wa_attempt_id = id_attempt ids, wa_job_id = j_id j,
      wa_task_submission_id = j_task_submission_id j, wa_worker_id = worker_id,
      wa_worker_session_id = worker_session_id, wa_status = AttemptOffered,
      wa_fencing_generation = ts_fencing_generation s + 1,
      wa_execution_generation = ts_execution_generation s,
      wa_claim_token = id_claim_token ids, wa_trace_id = id_trace ids,
      wa_capability = j_required_capability j, wa_payload_hash = payload_hash,
      wa_offer_expires_at = offer_expires_at, wa_lease_expires_at = lease_expires_at,
      wa_highest_contiguous_reliable_seq = 0, wa_projected_reliable_seq = 0,
      wa_terminal_reliable_seq = None, wa_terminal_payload_digest = None,
      wa_terminal_outcome = None, wa_terminal_artifacts = None, wa_accepted_at = None,
      wa_terminal_at = None, wa_created_at = now, wa_scheduler_generation = generation\<rparr>"

definition make_offer ::
  "uuid \<Rightarrow> uuid \<Rightarrow> duration \<Rightarrow> duration \<Rightarrow> instant \<Rightarrow> instant \<Rightarrow> new_ids \<Rightarrow> string option \<Rightarrow> int
     \<Rightarrow> protocol_contract \<Rightarrow> candidate \<Rightarrow> db \<Rightarrow> offered_assignment_t option outcome" where
  "make_offer worker_id worker_session_id offer_ttl lease_ttl now utc ids measurement_profile generation
     contract c d =
     (let j = cd_job c; s = cd_submission c in
      case j_execution_payload j of
        None \<Rightarrow> Error Database
      | Some payload \<Rightarrow>
      if \<not> supports_payload contract payload then Rollback None
      else case capability (j_required_capability j) of
        Inl e \<Rightarrow> Error e
      | Inr task_capability \<Rightarrow>
      let fence = ts_fencing_generation s + 1;
          offer_expires_at = utc + offer_ttl;
          lease_expires_at = utc + lease_ttl;
          profile = (if task_capability = Benchmark then measurement_profile else None);
          placed = may_place worker_id (j_task_submission_id j)
      in set_submissions (update_where placed (place worker_id profile fence) (db_submissions d)) d (\<lambda>d1.
         if affected placed (db_submissions d) \<noteq> 1 then Rollback None
         else update_jobs (is_queued (j_id j)) (claim (id_claim_token ids) now) d1 (\<lambda>d2.
         if affected (is_queued (j_id j)) (db_jobs d1) \<noteq> 1 then Rollback None
         else case j_execution_payload_hash j of
           None \<Rightarrow> Error Database
         | Some payload_hash \<Rightarrow>
             set_attempts (db_attempts d2 @ [offered_attempt worker_id worker_session_id ids j s
               payload_hash offer_expires_at lease_expires_at now generation]) d2 (\<lambda>d3.
             update_sessions (\<lambda>r. ws_worker_session_id r = worker_session_id)
               (\<lambda>r. r\<lparr>ws_status := SessionOffered, ws_last_heartbeat_at := now\<rparr>) d3 (\<lambda>d4.
             case j_git_commit_hash j of
               None \<Rightarrow> CommitError Database d4
             | Some commit \<Rightarrow>
             Commit (Some \<lparr>oa_offer = \<lparr>
                 wo_identity = \<lparr>ai_worker_session_id = worker_session_id,
                   ai_attempt_id = id_attempt ids, ai_fencing_generation = word_of_int fence,
                   ai_lease_token = []\<rparr>,
                 wo_job_id = j_id j, wo_trace_id = id_trace ids, wo_capability = task_capability,
                 wo_requirements = offer_requirements_from payload, wo_payload_hash = payload_hash,
                 wo_offer_expires_at_ms = millis offer_expires_at\<rparr>,
               oa_context_repository = repository_name (cd_repo c), oa_context_commit = commit,
               oa_installation_id = j_github_installation_id j,
               oa_github_repo_id = j_github_repo_id j, oa_payload = payload, oa_vcpu_cpuset = None,
               oa_measurement_profile = profile\<rparr>) d4)))))"

definition poll_offer ::
  "uuid \<Rightarrow> uuid \<Rightarrow> duration \<Rightarrow> duration \<Rightarrow> instant \<Rightarrow> instant \<Rightarrow> new_ids \<Rightarrow> (uuid \<Rightarrow> bool) \<Rightarrow> db
     \<Rightarrow> offered_assignment_t option outcome" where
  "poll_offer worker_id worker_session_id offer_ttl lease_ttl now utc ids locked d =
     protocol_lock_policy d (\<lambda>protocol_policy.
     case poll_session d worker_id worker_session_id now of
       None \<Rightarrow> Rollback None
     | Some (session, registry) \<Rightarrow>
     update_sessions (\<lambda>r. ws_worker_session_id r = worker_session_id)
       (\<lambda>r. r\<lparr>ws_last_heartbeat_at := now,
             ws_expires_at := now + duration_seconds (lease_ttl * 2)\<rparr>) d (\<lambda>d1.
     let contract = ws_protocol_contract session; policy = db_scheduler d in
     case validate_selection current_offer contract of
       Inl e \<Rightarrow> Error (Config (negotiation_error_to_string e))
     | Inr _ \<Rightarrow>
     if pc_revision contract < pp_minimum_revision protocol_policy
     then Error (SessionRegistration ProtocolIncompatible)
     else if wr_draining registry \<or> wr_shutdown_session_id registry = Some worker_session_id
     then update_sessions (\<lambda>r. ws_worker_session_id r = worker_session_id)
            (\<lambda>r. r\<lparr>ws_status := SessionDraining\<rparr>) d1 (\<lambda>d2. Commit None d2)
     else if sc_paused policy \<or> has_pending_cleanup d1 worker_id then Commit None d1
     else case existing_offer d1 worker_id worker_session_id now of
       Some row \<Rightarrow>
         if wa_scheduler_generation (or_attempt row) \<noteq> sc_generation policy then Commit None d1
         else (case offer_from_row row of
                 Inl e \<Rightarrow> CommitError e d1
               | Inr offered \<Rightarrow>
                   Commit (if supports_payload contract (oa_payload offered) then Some offered else None) d1)
     | None \<Rightarrow>
         let capabilities = supported_names contract
               (filter (\<lambda>c. c \<in> set (wr_allowed_capabilities registry)) (ws_advertised_capabilities session))
         in case next_candidate d1 worker_id capabilities (wr_measurement_profile registry) locked of
              None \<Rightarrow>
                update_sessions (\<lambda>r. ws_worker_session_id r = worker_session_id)
                  (\<lambda>r. r\<lparr>ws_status := SessionIdle, ws_last_heartbeat_at := now\<rparr>) d1
                  (\<lambda>d2. Commit None d2)
            | Some c \<Rightarrow>
                make_offer worker_id worker_session_id offer_ttl lease_ttl now utc ids
                  (wr_measurement_profile registry) (sc_generation policy) contract c d1))"

section \<open>Accepting an offer\<close>

text \<open>The attempt row that an identity names: the four equalities of the statements' conditions.\<close>

definition names_attempt :: "uuid \<Rightarrow> attempt_identity \<Rightarrow> worker_attempt \<Rightarrow> bool" where
  "names_attempt worker_id identity a \<longleftrightarrow>
     wa_attempt_id a = ai_attempt_id identity \<and> wa_worker_id a = worker_id
     \<and> wa_worker_session_id a = ai_worker_session_id identity
     \<and> wa_fencing_generation a = as_i64 (ai_fencing_generation identity)"

definition has_claim :: "worker_attempt \<Rightarrow> job \<Rightarrow> bool" where
  "has_claim attempt j \<longleftrightarrow> j_id j = wa_job_id attempt \<and> j_claim_token j = Some (wa_claim_token attempt)
     \<and> j_status j = JobClaimed"

definition awaits_acceptance :: "uuid \<Rightarrow> attempt_identity \<Rightarrow> instant \<Rightarrow> worker_attempt \<Rightarrow> bool" where
  "awaits_acceptance worker_id identity now a \<longleftrightarrow> names_attempt worker_id identity a
     \<and> wa_status a = AttemptOffered \<and> wa_offer_expires_at a > now"

definition begin_running :: "instant \<Rightarrow> duration \<Rightarrow> worker_attempt \<Rightarrow> worker_attempt" where
  "begin_running now lease_ttl a = a\<lparr>wa_status := AttemptRunning, wa_accepted_at := Some now,
     wa_lease_expires_at := now + duration_seconds lease_ttl\<rparr>"

definition accept_offer ::
  "uuid \<Rightarrow> attempt_identity \<Rightarrow> duration \<Rightarrow> instant \<Rightarrow> db \<Rightarrow> bool outcome" where
  "accept_offer worker_id identity lease_ttl now d =
     protocol_lock_policy d (\<lambda>protocol_policy.
     case row_of wr_worker_id (db_registry d) worker_id of
       None \<Rightarrow> Rollback False
     | Some worker \<Rightarrow>
     case find (names_attempt worker_id identity) (db_attempts d) of
       None \<Rightarrow> Rollback False
     | Some attempt \<Rightarrow>
     if executing (wa_status attempt) then Commit True d
     else if wa_status attempt \<noteq> AttemptOffered \<or> \<not> wr_enabled worker \<or> wr_draining worker
       \<or> wr_shutdown_session_id worker = Some (ai_worker_session_id identity)
       \<or> sc_paused (db_scheduler d) \<or> has_pending_cleanup d worker_id
       \<or> wa_scheduler_generation attempt \<noteq> sc_generation (db_scheduler d)
     then Rollback False
     else if \<not> list_ex (\<lambda>s. ws_worker_session_id s = ai_worker_session_id identity
            \<and> ws_worker_id s = worker_id
            \<and> pc_revision (ws_protocol_contract s) \<ge> pp_minimum_revision protocol_policy) (db_sessions d)
     then Error (SessionRegistration ProtocolIncompatible)
     else
       let claimed = has_claim attempt; offered = awaits_acceptance worker_id identity now
       in update_jobs claimed (\<lambda>j. j\<lparr>j_status := JobRunning\<rparr>) d (\<lambda>d1.
          if affected claimed (db_jobs d) \<noteq> 1 then Rollback False
          else update_attempts offered (begin_running now lease_ttl) d1 (\<lambda>d2.
          if affected offered (db_attempts d1) \<noteq> 1 then Rollback False
          else update_sessions (\<lambda>s. ws_worker_session_id s = ai_worker_session_id identity)
                 (\<lambda>s. s\<lparr>ws_status := SessionRunning, ws_last_heartbeat_at := now\<rparr>) d2 (\<lambda>d3.
          Commit True (insert_job_event \<lparr>je_job_id = wa_job_id attempt, je_event_kind = EventClaimed,
            je_event_status = StatusSuccess, je_remark = None,
            je_detail = Some (JObject
              [(''attempt_id'', JString (uuid_to_string (ai_attempt_id identity))),
               (''fencing_generation'', JNumber (show_nat (unat (ai_fencing_generation identity)))),
               (''worker_id'', JString (uuid_to_string worker_id))]),
            je_occurred_at = now\<rparr> d3)))))"

section \<open>Heartbeats\<close>

record attempt_heartbeat =
  ah_desired_state :: desired_state
  ah_lease_expires_at :: instant
  ah_highest_contiguous_reliable_seq :: u64

text \<open>The worker of an attempt is still enabled and allowed the attempt's capability.\<close>

definition attempt_authorized :: "db \<Rightarrow> worker_attempt \<Rightarrow> bool" where
  "attempt_authorized d a \<longleftrightarrow>
     list_ex (\<lambda>r. wr_worker_id r = wa_worker_id a \<and> wr_enabled r
        \<and> wa_capability a \<in> set (wr_allowed_capabilities r)) (db_registry d)"

definition heartbeat_attempt ::
  "uuid \<Rightarrow> attempt_identity \<Rightarrow> duration \<Rightarrow> u32 option \<Rightarrow> instant \<Rightarrow> db
     \<Rightarrow> attempt_heartbeat option outcome" where
  "heartbeat_attempt worker_id identity lease_ttl reliable_buffer_len now d =
     (let renewed = (\<lambda>a. names_attempt worker_id identity a \<and> attempt_authorized d a
          \<and> row_of ws_worker_session_id (db_sessions d) (wa_worker_session_id a) \<noteq> None
          \<and> executing (wa_status a) \<and> wa_lease_expires_at a > now);
          lease = now + duration_seconds lease_ttl
      in case (find renewed (db_attempts d), row_of wr_worker_id (db_registry d) worker_id,
               row_of ws_worker_session_id (db_sessions d) (ai_worker_session_id identity)) of
        (Some attempt, Some registry, Some session) \<Rightarrow>
          update_attempts renewed (\<lambda>a. a\<lparr>wa_lease_expires_at := lease\<rparr>) d (\<lambda>d1.
          update_sessions (\<lambda>s. ws_worker_session_id s = ai_worker_session_id identity)
            (\<lambda>s. s\<lparr>ws_last_heartbeat_at := now,
                  ws_expires_at := now + duration_seconds (lease_ttl * 2),
                  ws_reliable_buffer_len := (case reliable_buffer_len of
                     None \<Rightarrow> ws_reliable_buffer_len s | Some n \<Rightarrow> int (unat n))\<rparr>) d1 (\<lambda>d2.
          Commit (Some \<lparr>
            ah_desired_state =
              (if wa_status attempt = AttemptCancelRequested then Cancel
               else if wr_draining registry
                 \<and> ResidentCordon |\<notin>| pc_features (ws_protocol_contract session) then Drain
               else Continue),
            ah_lease_expires_at = lease,
            ah_highest_contiguous_reliable_seq =
              word_of_int (wa_highest_contiguous_reliable_seq attempt)\<rparr>) d2))
      | _ \<Rightarrow> Rollback None)"

section \<open>Queries\<close>

datatype idle_worker_control_t = ControlPoll | LegacyDrain | ControlShutdownAfterIdle

definition worker_busy :: "db \<Rightarrow> uuid \<Rightarrow> bool" where
  "worker_busy d worker_id \<longleftrightarrow>
     list_ex (\<lambda>a. wa_worker_id a = worker_id \<and> active (wa_status a)) (db_attempts d)
     \<or> has_pending_cleanup d worker_id"

definition idle_worker_control ::
  "uuid \<Rightarrow> uuid \<Rightarrow> instant \<Rightarrow> db \<Rightarrow> store_error + idle_worker_control_t" where
  "idle_worker_control worker_id worker_session_id clock d =
     (case row_of wr_worker_id (db_registry d) worker_id of
        None \<Rightarrow> Inl FleetSessionInactive
      | Some registry \<Rightarrow>
      case find (\<lambda>s. ws_worker_id s = worker_id \<and> ws_worker_session_id s = worker_session_id
             \<and> wr_enabled registry
             \<and> overlaps (ws_advertised_capabilities s) (wr_allowed_capabilities registry)
             \<and> ws_ended_at s = None \<and> ws_expires_at s > clock) (db_sessions d) of
        None \<Rightarrow> Inl FleetSessionInactive
      | Some session \<Rightarrow>
          if worker_busy d worker_id then Inr ControlPoll
          else if wr_shutdown_session_id registry = Some worker_session_id
            \<and> ShutdownAfterIdle |\<in>| pc_features (ws_protocol_contract session)
          then Inr ControlShutdownAfterIdle
          else if wr_draining registry
            \<and> ResidentCordon |\<notin>| pc_features (ws_protocol_contract session)
          then Inr LegacyDrain
          else Inr ControlPoll)"

definition session_is_active :: "uuid \<Rightarrow> uuid \<Rightarrow> instant \<Rightarrow> db \<Rightarrow> bool" where
  "session_is_active worker_id worker_session_id now d \<longleftrightarrow>
     list_ex (\<lambda>s. ws_worker_id s = worker_id \<and> ws_worker_session_id s = worker_session_id
        \<and> live_session (ws_status s) \<and> ws_expires_at s > now
        \<and> list_ex (\<lambda>r. wr_worker_id r = ws_worker_id s \<and> wr_enabled r
             \<and> overlaps (ws_advertised_capabilities s) (wr_allowed_capabilities r)) (db_registry d))
       (db_sessions d)"

definition transpose_row :: "offer_row option \<Rightarrow> store_error + offered_assignment_t option" where
  "transpose_row row = (case row of None \<Rightarrow> Inr None
     | Some r \<Rightarrow> and_then (offer_from_row r) (\<lambda>offered. Inr (Some offered)))"

definition offered_assignment ::
  "uuid \<Rightarrow> attempt_identity \<Rightarrow> instant \<Rightarrow> db \<Rightarrow> store_error + offered_assignment_t option" where
  "offered_assignment worker_id identity now d =
     transpose_row (find (\<lambda>row. let a = or_attempt row in
         names_attempt worker_id identity a \<and> active (wa_status a) \<and> wa_lease_expires_at a > now
         \<and> attempt_authorized d a
         \<and> list_ex (\<lambda>s. ws_worker_session_id s = wa_worker_session_id a \<and> ws_expires_at s > now
              \<and> ws_status s \<notin> {SessionOffline, SessionDeregistered}) (db_sessions d))
       (OFFER_SELECT d))"

definition completion_assignment ::
  "uuid \<Rightarrow> attempt_identity \<Rightarrow> db \<Rightarrow> store_error + offered_assignment_t option" where
  "completion_assignment worker_id identity d =
     transpose_row (find (\<lambda>row. let a = or_attempt row in
         names_attempt worker_id identity a
         \<and> (executing (wa_status a) \<or> terminal (wa_status a)) \<and> attempt_authorized d a)
       (OFFER_SELECT d))"

section \<open>The store implements the abstract transitions\<close>

lemma candidate_rows:
  assumes "next_candidate d worker_id caps profile locked = Some c"
  shows "cd_job c \<in> set (db_jobs d)"
    and "row_of ts_id (db_submissions d) (j_task_submission_id (cd_job c)) = Some (cd_submission c)"
    and "eligible d worker_id caps profile locked c"
proof -
  from first_by_Some [OF assms [unfolded next_candidate_def]]
  have c: "c \<in> set (List.map_filter (candidate_join d) (db_jobs d))"
    and e: "eligible d worker_id caps profile locked c" by auto
  from c obtain j where "j \<in> set (db_jobs d)" "candidate_join d j = Some c"
    by (auto simp: List.map_filter_def)
  with e show "cd_job c \<in> set (db_jobs d)"
    "row_of ts_id (db_submissions d) (j_task_submission_id (cd_job c)) = Some (cd_submission c)"
    "eligible d worker_id caps profile locked c"
    by (auto simp: candidate_join_def split: option.splits)
qed

lemma schema_make_offer:
  assumes "schema_ok d"
  shows "ensures schema_ok (make_offer w sid ottl lttl now utc ids prof gen contract c d)"
  unfolding make_offer_def Let_def
  by (intro tx_intro schema_intros assms) (simp_all add: assms)

lemma idle_submission_core:
  assumes "\<not> list_ex (\<lambda>a. wa_task_submission_id a = s \<and> active (wa_status a)) (db_attempts d)"
  shows "idle_submission (core_of d) s"
  using assms
  by (auto simp: idle_submission_def view_Some abs_attempt_def list_ex_iff dest!: row_of_Some)

text \<open>The tables after \<open>make_offer\<close> as a state of the abstract machine.\<close>

lemma offer_core_step:
  assumes keys: "distinct (map j_id (db_jobs d))" "distinct (map ts_id (db_submissions d))"
    and coh: "coherent (core_of d)"
    and cand: "next_candidate d w caps prof locked = Some c"
    and att: "attempt_table_ok (db_attempts d @ [a])"
    and a: "wa_job_id a = j_id (cd_job c)" "wa_task_submission_id a = j_task_submission_id (cd_job c)"
      "wa_status a = AttemptOffered" "wa_claim_token a = t"
      "wa_fencing_generation a = ts_fencing_generation (cd_submission c) + 1"
    and d': "db_jobs d' = update_where (is_queued (j_id (cd_job c))) (claim t now) (db_jobs d)"
      "db_submissions d' = update_where (may_place w (j_task_submission_id (cd_job c)))
         (place w p (ts_fencing_generation (cd_submission c) + 1)) (db_submissions d)"
      "db_attempts d' = db_attempts d @ [a]" "db_obligations d' = db_obligations d"
  shows "core_step (core_of d) (core_of d')"
proof -
  let ?j = "cd_job c" and ?s = "cd_submission c" and ?a = "wa_attempt_id a"
  note rows = candidate_rows [OF cand]
  have j: "row_of j_id (db_jobs d) (j_id ?j) = Some ?j"
    using row_of_in_set [OF keys(1) rows(1)] .
  have s: "ts_id ?s = j_task_submission_id ?j" using rows(2) row_of_Some by fastforce
  have e: "is_queued (j_id ?j) ?j" "may_place w (j_task_submission_id ?j) ?s"
    "idle_submission (core_of d) (j_task_submission_id ?j)"
    using rows(3) s idle_submission_core [of "ts_id ?s" d]
    by (auto simp: eligible_def Let_def is_queued_def may_place_def)
  have fresh: "row_of wa_attempt_id (db_attempts d) ?a = None"
    using att by (auto simp: attempt_table_ok_def row_of_None)
  have ob: "\<forall>i obl. c_obligations (core_of d) i = Some obl \<longrightarrow> ob_attempt obl \<noteq> ?a"
    using coherentD(5) [OF coh] fresh
    by (fastforce simp: obligations_own_jobs_def obligation_ok_def view_Some)
  have jobs: "view j_id abs_job (db_jobs d') = (view j_id abs_job (db_jobs d))(j_id ?j \<mapsto> abs_job (claim t now ?j))"
    unfolding d' using j e(1) by (intro view_update_key) (auto simp: is_queued_def claim_def)
  have subs: "view ts_id ts_fencing_generation (db_submissions d')
      = (view ts_id ts_fencing_generation (db_submissions d))
          (j_task_submission_id ?j \<mapsto> ts_fencing_generation ?s + 1)"
    using view_update_key [where key = ts_id and P = "may_place w (j_task_submission_id ?j)"
        and f = "place w p (ts_fencing_generation ?s + 1)" and t = "db_submissions d"
        and g = ts_fencing_generation and r = ?s] rows(2) e(2)
    unfolding d' by (auto simp: may_place_def place_def)
  have atts: "view wa_attempt_id abs_attempt (db_attempts d') = (view wa_attempt_id abs_attempt (db_attempts d))(?a \<mapsto> abs_attempt a)"
    unfolding d' using fresh by (rule view_insert)
  have "core_of d' = set_fence (jc_submission (abs_job ?j)) (ts_fencing_generation ?s + 1)
      (set_job (j_id ?j) ((abs_job ?j)\<lparr>jc_status := JobClaimed, jc_claim := Some t\<rparr>)
        (set_attempt ?a (abs_attempt a) (core_of d)))"
    by (rule core_eqI) (simp_all add: jobs subs atts d'(4), simp_all add: abs_job_def claim_def)
  then show ?thesis
    using j e rows(2) fresh ob a
    by (simp del: core_of_sel) (rule core_step.offer,
      auto simp: view_Some view_None abs_job_def abs_attempt_def is_queued_def)
qed

lemma make_offer_core:
  assumes sch: "schema_ok d" and coh: "coherent (core_of d)"
    and cand: "next_candidate d w caps prof locked = Some c"
  shows "ensures (\<lambda>d'. core_step (core_of d) (core_of d'))
    (make_offer w sid ottl lttl now utc ids prof' gen contract c d)"
  unfolding make_offer_def Let_def
  by (intro tx_intro offer_core_step [OF schema_distinct(4) [OF sch] schema_distinct(3) [OF sch] coh cand])
    (auto simp: offered_attempt_def)



text \<open>Polling, accepting and renewing a lease keep the constraints and implement the abstract
  machine.\<close>

lemma poll_offer_refines:
  assumes "well_formed d"
  shows "ensures (refines d) (poll_offer w sid ottl lttl now utc ids locked d)"
proof -
  note sch = wfD(1) [OF assms] and coh = wfD(2) [OF assms]
  have offer: "ensures (refines d) (make_offer w sid ottl lttl now utc ids p gen contract c d1)"
    if d1: "schema_ok d1" "core_of d1 = core_of d" and c: "next_candidate d1 w caps prof locked = Some c"
    for p gen contract c d1 caps prof
  proof -
    have "ensures (refines d1) (make_offer w sid ottl lttl now utc ids p gen contract c d1)"
      using d1 coh by (intro ensures_refines_step schema_make_offer make_offer_core [OF _ _ c]) simp_all
    then show ?thesis by (rule ensures_mono) (simp add: refines_def d1)
  qed
  show ?thesis
    unfolding poll_offer_def protocol_lock_policy_def Let_def
    by (intro tx_intro offer) (auto intro!: refines_stutter schema_intros sch)
qed

lemma find_named:
  assumes "distinct (map wa_attempt_id t)" "find (names_attempt w identity) t = Some a"
  shows "row_of wa_attempt_id t (ai_attempt_id identity) = Some a" "wa_attempt_id a = ai_attempt_id identity"
    "a \<in> set t"
  using find_conv [OF assms(2)] row_of_in_set [OF assms(1)] by (fastforce simp: names_attempt_def)+

text \<open>Changing one attempt row and its job row, both selected by their keys.\<close>

lemma core_set_attempt_job:
  assumes "row_of wa_attempt_id (db_attempts d) aid = Some a" "row_of j_id (db_jobs d) jid = Some j"
    and "\<And>r. P r \<Longrightarrow> wa_attempt_id r = aid" "\<And>r. P r \<Longrightarrow> wa_attempt_id (f r) = wa_attempt_id r" "P a"
    and "\<And>r. R r \<Longrightarrow> j_id r = jid" "\<And>r. R r \<Longrightarrow> j_id (g r) = j_id r" "R j"
    and "db_attempts d' = update_where P f (db_attempts d)" "db_jobs d' = update_where R g (db_jobs d)"
    and "db_obligations d' = db_obligations d" "db_submissions d' = db_submissions d"
  shows "core_of d' = set_job jid (abs_job (g j)) (set_attempt aid (abs_attempt (f a)) (core_of d))"
proof -
  have "view wa_attempt_id abs_attempt (db_attempts d')
      = (view wa_attempt_id abs_attempt (db_attempts d))(aid \<mapsto> abs_attempt (f a))"
    unfolding assms(9) using assms(1,3-5) by (intro view_update_key) auto
  moreover have "view j_id abs_job (db_jobs d') = (view j_id abs_job (db_jobs d))(jid \<mapsto> abs_job (g j))"
    unfolding assms(10) using assms(2,6-8) by (intro view_update_key) auto
  ultimately show ?thesis by (intro core_eqI) (simp_all add: assms(11,12))
qed

lemma accept_core_step:
  assumes keys: "distinct (map wa_attempt_id (db_attempts d))" "distinct (map j_id (db_jobs d))"
    and att: "find (names_attempt w identity) (db_attempts d) = Some a" "wa_status a = AttemptOffered"
    and job: "affected (has_claim a) (db_jobs d) = 1"
    and upd: "affected (awaits_acceptance w identity now) (db_attempts d) = 1"
    and d': "db_attempts d' = update_where (awaits_acceptance w identity now) (begin_running now ttl) (db_attempts d)"
      "db_jobs d' = update_where (has_claim a) (\<lambda>j. j\<lparr>j_status := JobRunning\<rparr>) (db_jobs d)"
      "db_obligations d' = db_obligations d" "db_submissions d' = db_submissions d"
  shows "core_step (core_of d) (core_of d')"
proof -
  note a = find_named [OF keys(1) att(1)]
  obtain j where j: "row_of j_id (db_jobs d) (wa_job_id a) = Some j" "has_claim a j"
    using affected_key_one [OF keys(2) _ job, of "wa_job_id a"] by (auto simp: has_claim_def)
  have key: "awaits_acceptance w identity now r \<Longrightarrow> wa_attempt_id r = ai_attempt_id identity" for r
    by (auto simp: awaits_acceptance_def names_attempt_def)
  obtain r where "row_of wa_attempt_id (db_attempts d) (ai_attempt_id identity) = Some r"
    "awaits_acceptance w identity now r"
    using affected_key_one [OF keys(1) key upd] .
  with a have "awaits_acceptance w identity now a" by simp
  then have "core_of d' = set_job (wa_job_id a) (abs_job (j\<lparr>j_status := JobRunning\<rparr>))
      (set_attempt (ai_attempt_id identity) (abs_attempt (begin_running now ttl a)) (core_of d))"
    by (intro core_set_attempt_job [OF a(1) j(1), where P = "awaits_acceptance w identity now"
            and R = "has_claim a" and f = "begin_running now ttl"])
      (use j key d' in \<open>auto simp: begin_running_def has_claim_def\<close>)
  moreover have "abs_job (j\<lparr>j_status := JobRunning\<rparr>) = (abs_job j)\<lparr>jc_status := JobRunning\<rparr>"
    "abs_attempt (begin_running now ttl a) = (abs_attempt a)\<lparr>at_status := AttemptRunning\<rparr>"
    by (simp_all add: abs_job_def abs_attempt_def begin_running_def)
  moreover have "core_step (core_of d) (set_job (at_job (abs_attempt a)) ((abs_job j)\<lparr>jc_status := JobRunning\<rparr>)
      (set_attempt (ai_attempt_id identity) ((abs_attempt a)\<lparr>at_status := AttemptRunning\<rparr>) (core_of d)))"
    using a j att(2)
    by (intro core_step.accept) (auto simp: view_Some abs_attempt_def abs_job_def has_claim_def)
  moreover have "at_job (abs_attempt a) = wa_job_id a" by (simp add: abs_attempt_def)
  ultimately show ?thesis by simp
qed

lemma accept_offer_refines:
  assumes "well_formed d"
  shows "ensures (refines d) (accept_offer w identity ttl now d)"
proof -
  note sch = wfD(1) [OF assms]
  have run: "refines d d'"
    if "find (names_attempt w identity) (db_attempts d) = Some a" "wa_status a = AttemptOffered"
      "affected (has_claim a) (db_jobs d) = 1" "affected (awaits_acceptance w identity now) (db_attempts d) = 1"
      "db_attempts d' = update_where (awaits_acceptance w identity now) (begin_running now ttl) (db_attempts d)"
      "db_jobs d' = update_where (has_claim a) (\<lambda>j. j\<lparr>j_status := JobRunning\<rparr>) (db_jobs d)"
      "db_obligations d' = db_obligations d" "db_submissions d' = db_submissions d" "schema_ok d'"
    for a d'
    using that by (intro refines_step accept_core_step [OF schema_distinct(2) [OF sch] schema_distinct(4) [OF sch]])
  show ?thesis
    unfolding accept_offer_def protocol_lock_policy_def Let_def
    by (intro tx_intro run refines_refl schema_intros sch) (simp_all add: insert_job_event_def)
qed

lemma heartbeat_attempt_refines:
  assumes "well_formed d"
  shows "ensures (refines d) (heartbeat_attempt w identity hb ttl now d)"
  unfolding heartbeat_attempt_def Let_def
  by (intro tx_intro) (auto intro!: refines_stutter schema_intros wfD(1) [OF assms] view_same core_eqI
      simp: abs_attempt_def)

section \<open>What polling and renewing promise\<close>

lemmas poll_eval = poll_offer_def protocol_lock_policy_def supported_revision_def revision_defs
    poll_session_def overlaps_def Let_def live_session_def has_pending_cleanup_def existing_offer_def OFFER_SELECT_def
    next_candidate_def first_by_def supported_names_def capability_def candidate_join_def eligible_def
    make_offer_def may_place_def is_queued_def claim_def place_def offered_attempt_def

definition candidates :: "db \<Rightarrow> candidate list" where
  "candidates d = List.map_filter (candidate_join d) (db_jobs d)"

definition worker_capabilities :: "worker_session \<Rightarrow> worker_registry \<Rightarrow> string list" where
  "worker_capabilities s r = supported_names (ws_protocol_contract s)
     (filter (\<lambda>c. c \<in> set (wr_allowed_capabilities r)) (ws_advertised_capabilities s))"

lemma make_offer_commit:
  assumes "make_offer w sid ottl lttl now utc ids profile generation contract c d = Commit (Some offer) d'"
  shows "wo_job_id (oa_offer offer) = j_id (cd_job c) \<and> ai_attempt_id (wo_identity (oa_offer offer)) = id_attempt ids
    \<and> (\<exists>a. db_attempts d' = db_attempts d @ [a] \<and> wa_attempt_id a = id_attempt ids \<and> wa_status a = AttemptOffered
        \<and> wa_job_id a = j_id (cd_job c) \<and> wa_worker_id a = w \<and> wa_worker_session_id a = sid
        \<and> wa_fencing_generation a = ts_fencing_generation (cd_submission c) + 1)"
  using assms
  by (auto simp: make_offer_def Let_def statement_eval offered_attempt_def split: option.splits sum.splits if_splits)

lemma candidates_frame [simp]: "candidates (d\<lparr>db_sessions := t\<rparr>) = candidates d"
proof -
  have "candidate_join (d\<lparr>db_sessions := t\<rparr>) = candidate_join d"
    by (auto simp: candidate_join_def fun_eq_iff split: option.split)
  then show ?thesis by (simp add: candidates_def)
qed

lemma eligible_frame [simp]: "eligible (d\<lparr>db_sessions := t\<rparr>) = eligible d"
  by (simp add: eligible_def [abs_def] fun_eq_iff)

lemma next_candidate_Some:
  assumes "next_candidate d w caps profile locked = Some c"
  shows "c \<in> set (candidates d) \<and> eligible d w caps profile locked c
    \<and> (\<forall>c' \<in> set (candidates d). eligible d w caps profile locked c'
         \<longrightarrow> (j_created_at (cd_job c), j_id (cd_job c)) \<le> (j_created_at (cd_job c'), j_id (cd_job c')))"
  using first_by_Some [OF assms [unfolded next_candidate_def]] by (simp add: candidates_def)

text \<open>C6: An offer that a poll creates is for the oldest job, in the order of creation and then of the
  identifier, among all the queued jobs that are eligible for the worker and not locked by another poll; it adds
  exactly one attempt, offered to the polling session with the next fence of its submission.\<close>

theorem poll_offer_oldest_eligible:
  assumes "poll_offer w sid ottl lttl now utc ids locked d = Commit (Some offer) d'" "db_attempts d' \<noteq> db_attempts d"
  shows "\<exists>s r c. poll_session d w sid now = Some (s, r) \<and> c \<in> set (candidates d)
    \<and> eligible d w (worker_capabilities s r) (wr_measurement_profile r) locked c
    \<and> (\<forall>c' \<in> set (candidates d). eligible d w (worker_capabilities s r) (wr_measurement_profile r) locked c'
         \<longrightarrow> (j_created_at (cd_job c), j_id (cd_job c)) \<le> (j_created_at (cd_job c'), j_id (cd_job c')))
    \<and> wo_job_id (oa_offer offer) = j_id (cd_job c)
    \<and> (\<exists>a. db_attempts d' = db_attempts d @ [a] \<and> wa_attempt_id a = ai_attempt_id (wo_identity (oa_offer offer))
        \<and> wa_status a = AttemptOffered
        \<and> wa_job_id a = j_id (cd_job c) \<and> wa_worker_id a = w \<and> wa_worker_session_id a = sid
        \<and> wa_fencing_generation a = ts_fencing_generation (cd_submission c) + 1)"
proof -
  obtain s r d1 c where poll: "poll_session d w sid now = Some (s, r)"
    and d1: "\<exists>t. d1 = d\<lparr>db_sessions := t\<rparr>"
    and c: "next_candidate d1 w (worker_capabilities s r) (wr_measurement_profile r) locked = Some c"
    and made: "make_offer w sid ottl lttl now utc ids (wr_measurement_profile r) (sc_generation (db_scheduler d))
        (ws_protocol_contract s) c d1 = Commit (Some offer) d'"
    using assms
    by (auto simp: poll_offer_def protocol_lock_policy_def statement_eval Let_def worker_capabilities_def
        split: option.splits sum.splits prod.splits if_splits)
  from d1 next_candidate_Some [OF c] make_offer_commit [OF made] poll show ?thesis by auto
qed

theorem poll_offer_oldest_eligible_witness:
  "\<exists>offer d'. poll_offer 1 2 60 60 10 10 \<lparr>id_claim_token = 7, id_attempt = 6, id_trace = 8\<rparr> (\<lambda>_. False) queued_db
      = Commit (Some offer) d' \<and> wo_job_id (oa_offer offer) = 5 \<and> length (db_attempts d') = 1"
proof -
  obtain offer d' where poll: "poll_offer 1 2 60 60 10 10 \<lparr>id_claim_token = 7, id_attempt = 6, id_trace = 8\<rparr>
      (\<lambda>_. False) queued_db = Commit (Some offer) d'" and new: "db_attempts d' \<noteq> db_attempts queued_db"
    by (simp add: poll_eval statement_eval sample_states sample_rows table_checks length_between_def)
  have jobs: "c \<in> set (candidates queued_db) \<Longrightarrow> j_id (cd_job c) = 5" for c
    by (auto simp: candidates_def sample_states sample_rows candidate_join_def)
  from poll_offer_oldest_eligible [OF poll new] poll jobs show ?thesis by (auto simp: sample_states)
qed

lemma poll_session_registry:
  "poll_session d w sid now = Some (s, r) \<Longrightarrow> row_of wr_worker_id (db_registry d) w = Some r"
  by (auto simp: poll_session_def split: option.splits)

text \<open>C28: While the scheduler is paused, or while the worker is draining, is shutting the session down or owes
  the cleanup of an earlier attempt, a committed poll answers without an offer and changes neither attempts nor jobs.\<close>

theorem closed_worker_gets_no_offer:
  assumes "poll_offer w sid ottl lttl now utc ids locked d = Commit x d'"
    "sc_paused (db_scheduler d) \<or> has_pending_cleanup d w
     \<or> (\<exists>r. row_of wr_worker_id (db_registry d) w = Some r
          \<and> (wr_draining r \<or> wr_shutdown_session_id r = Some sid))"
  shows "x = None \<and> db_attempts d' = db_attempts d \<and> db_jobs d' = db_jobs d"
  using assms poll_session_registry [of d w sid now]
  by (fastforce simp: poll_offer_def protocol_lock_policy_def statement_eval Let_def has_pending_cleanup_def
      split: option.splits sum.splits prod.splits if_splits)

theorem closed_worker_gets_no_offer_witness:
  "\<exists>d'. poll_offer 1 2 60 60 10 10 \<lparr>id_claim_token = 7, id_attempt = 6, id_trace = 8\<rparr> (\<lambda>_. False) fenced_db
      = Commit None d' \<and> db_attempts d' = [sample_attempt AttemptExpired]"
proof -
  obtain x d' where poll: "poll_offer 1 2 60 60 10 10 \<lparr>id_claim_token = 7, id_attempt = 6, id_trace = 8\<rparr>
      (\<lambda>_. False) fenced_db = Commit x d'"
    by (simp add: poll_eval statement_eval sample_states sample_rows table_checks)
  have "has_pending_cleanup fenced_db 1"
    by (simp add: has_pending_cleanup_def sample_states sample_obligation_def)
  with closed_worker_gets_no_offer [OF poll] poll show ?thesis by (simp add: sample_states)
qed

lemma names_attempt_unique:
  assumes "schema_ok d" "a \<in> set (db_attempts d)" "b \<in> set (db_attempts d)" "names_attempt w identity a"
    "names_attempt w identity b"
  shows "a = b"
  using row_of_in_set [OF schema_distinct(2) [OF assms(1)]] assms(2-5) by (metis names_attempt_def option.inject)

text \<open>C29: An offer can not be accepted once it has expired: the transaction commits nothing. An attempt whose
  lease has lapsed, or that is not being executed, can not renew its lease: the heartbeat is refused and rolled back.\<close>

theorem lapsed_rights_are_refused:
  assumes "schema_ok d" "a \<in> set (db_attempts d)" "names_attempt w identity a"
  shows "(wa_status a = AttemptOffered \<and> wa_offer_expires_at a \<le> now
      \<longrightarrow> committed (accept_offer w identity ttl now d) = None)
    \<and> (wa_lease_expires_at a \<le> now \<or> \<not> executing (wa_status a)
      \<longrightarrow> heartbeat_attempt w identity ttl buffered now d = Rollback None)"
proof (intro conjI impI)
  note same = names_attempt_unique [OF assms(1) _ assms(2) _ assms(3)]
  have found: "b = a" if "find (names_attempt w identity) (db_attempts d) = Some b" for b
    using that same [of b] by (auto simp: find_Some_iff)
  assume "wa_status a = AttemptOffered \<and> wa_offer_expires_at a \<le> now"
  then have none: "\<not> awaits_acceptance w identity now b" if "b \<in> set (db_attempts d)" for b
    using that same [of b] by (auto simp: awaits_acceptance_def)
  then have "filter (awaits_acceptance w identity now) (db_attempts d) = []" by (simp add: filter_empty_conv)
  with \<open>wa_status a = AttemptOffered \<and> _\<close> found show "committed (accept_offer w identity ttl now d) = None"
    by (auto simp: accept_offer_def protocol_lock_policy_def statement_eval Let_def executing_def split: option.split)
next
  assume lapsed: "wa_lease_expires_at a \<le> now \<or> \<not> executing (wa_status a)"
  have "find (\<lambda>b. names_attempt w identity b \<and> attempt_authorized d b
      \<and> row_of ws_worker_session_id (db_sessions d) (wa_worker_session_id b) \<noteq> None
      \<and> executing (wa_status b) \<and> wa_lease_expires_at b > now) (db_attempts d) = None"
    using lapsed names_attempt_unique [OF assms(1) _ assms(2) _ assms(3)] by (fastforce simp: find_None_iff)
  then show "heartbeat_attempt w identity ttl buffered now d = Rollback None"
    by (simp add: heartbeat_attempt_def)
qed

theorem lapsed_rights_are_refused_witness:
  "committed (accept_offer 1 sample_identity 60 200000000 offered_db) = None
   \<and> heartbeat_attempt 1 sample_identity 60 None 200000000 running_db = Rollback None"
  using lapsed_rights_are_refused [OF sample_schema_ok(2), of "sample_attempt AttemptOffered" 1 sample_identity 200000000]
    lapsed_rights_are_refused [OF sample_schema_ok(3), of "sample_attempt AttemptRunning" 1 sample_identity 200000000]
  by (simp add: sample_states sample_attempt_def sample_identity_def names_attempt_def as_i64_def)

text \<open>The names of the capabilities in the tables are read back as they were written, and every other
  name is refused: decoding inverts the encoding and succeeds only on an encoding.\<close>

lemma capability_round_trip:
  "capability (capability_as_str c) = Inr c \<and> (capability s = Inr c \<longleftrightarrow> s = capability_as_str c)"
  by (cases c) (auto simp: capability_def)

end
