(* ===== verification/Fleet_Store_Fencing.thy ===== *)
theory Fleet_Store_Fencing
  imports Fleet_Store_Offers
begin

text \<open>
  How an attempt ends without a result: cancellation (\<open>stores/fleet/cancellation.rs\<close>), expiry of an
  offer or a lease, and the cleanup obligation that keeps a job with its worker until the worker
  confirms that nothing of the fenced attempt is left (\<open>stores/fleet.rs\<close>). Each operation is shown to
  implement transitions of the abstract machine.
\<close>

section \<open>Loops over selected rows\<close>

fun tx_for :: "('x \<Rightarrow> db \<Rightarrow> (db \<Rightarrow> 'a outcome) \<Rightarrow> 'a outcome) \<Rightarrow> 'x list \<Rightarrow> db \<Rightarrow> (db \<Rightarrow> 'a outcome)
    \<Rightarrow> 'a outcome" where
  "tx_for f [] d k = k d"
| "tx_for f (x # xs) d k = f x d (\<lambda>d'. tx_for f xs d' k)"

text \<open>An invariant over the rows still to be visited.\<close>

lemma ensures_tx_for:
  assumes "I xs d" "\<And>x ys d k. I (x # ys) d \<Longrightarrow> (\<And>d'. I ys d' \<Longrightarrow> ensures Q (k d')) \<Longrightarrow> ensures Q (f x d k)"
    "\<And>d'. I [] d' \<Longrightarrow> ensures Q (k d')"
  shows "ensures Q (tx_for f xs d k)"
  using assms(1) by (induction xs arbitrary: d) (auto intro: assms(2,3))

section \<open>Discarding what an attempt has not reported\<close>

definition discard_event :: "string \<Rightarrow> instant \<Rightarrow> worker_attempt_event \<Rightarrow> worker_attempt_event" where
  "discard_event reason now e = e\<lparr>
     we_projected_at := Some (case we_projected_at e of Some t \<Rightarrow> t | None \<Rightarrow> now),
     we_projection_discarded_reason :=
       (if we_projected_at e = None then Some reason else we_projection_discarded_reason e)\<rparr>"

definition discard_progress :: "string \<Rightarrow> instant \<Rightarrow> worker_attempt_progress \<Rightarrow> worker_attempt_progress" where
  "discard_progress reason now e = e\<lparr>
     wp_projected_at := Some (case wp_projected_at e of Some t \<Rightarrow> t | None \<Rightarrow> now),
     wp_projection_discarded_reason :=
       (if wp_projected_at e = None then Some reason else wp_projection_discarded_reason e)\<rparr>"

definition discard_attempt_projection ::
  "uuid \<Rightarrow> string \<Rightarrow> instant \<Rightarrow> db \<Rightarrow> (db \<Rightarrow> 'a outcome) \<Rightarrow> 'a outcome" where
  "discard_attempt_projection attempt_id reason now d k =
     set_events (update_where (\<lambda>e. we_attempt_id e = attempt_id \<and> we_projected_at e = None)
       (discard_event reason now) (db_events d)) d (\<lambda>d1.
     let d2 = d1\<lparr>db_progress := update_where (\<lambda>e. wp_attempt_id e = attempt_id \<and> wp_projected_at e = None)
           (discard_progress reason now) (db_progress d1)\<rparr>
     in update_attempts (\<lambda>a. wa_attempt_id a = attempt_id)
          (\<lambda>a. a\<lparr>wa_projected_reliable_seq := wa_highest_contiguous_reliable_seq a\<rparr>) d2 k)"

section \<open>Cancellation\<close>

definition stop_requeue :: "worker_cleanup_obligation \<Rightarrow> worker_cleanup_obligation" where
  "stop_requeue ob = ob\<lparr>co_requeue_job := False\<rparr>"

definition unstarted :: "uuid \<Rightarrow> job \<Rightarrow> bool" where
  "unstarted job_id j \<longleftrightarrow> j_id j = job_id \<and> j_status j \<in> {JobQueued, JobClaimed}"

definition cancel_unstarted :: "job \<Rightarrow> job" where
  "cancel_unstarted j = j\<lparr>j_status := JobCancelled, j_claim_token := None, j_claimed_at := None\<rparr>"

definition fence_offer :: "worker_attempt \<Rightarrow> worker_attempt" where
  "fence_offer a = a\<lparr>wa_status := AttemptFenced\<rparr>"

definition release_session :: "instant \<Rightarrow> worker_session \<Rightarrow> worker_session" where
  "release_session now s = s\<lparr>ws_status := SessionIdle, ws_last_heartbeat_at := now\<rparr>"

text \<open>The end of \<open>request\<close>, for a job that no running attempt holds.\<close>

definition cancel_job ::
  "instant \<Rightarrow> uuid \<Rightarrow> job_status \<Rightarrow> int list \<Rightarrow> db \<Rightarrow> (bool \<Rightarrow> db \<Rightarrow> 'a outcome) \<Rightarrow> 'a outcome" where
  "cancel_job now job_id job_status cleanup_ids d k =
     (if cleanup_ids \<noteq> [] \<and> job_status = JobRunning
      then k True (update_obligations (\<lambda>ob. co_id ob \<in> set cleanup_ids) stop_requeue d)
      else update_jobs (unstarted job_id) cancel_unstarted d (\<lambda>d1.
        if affected (unstarted job_id) (db_jobs d) = 1
        then k True (insert_job_event \<lparr>je_job_id = job_id, je_event_kind = EventCancelled,
          je_event_status = StatusSuccess,
          je_remark = Some ''cancelled before worker execution started'', je_detail = None,
          je_occurred_at = now\<rparr> d1)
        else k False d1))"

definition cancellation_request :: "uuid \<Rightarrow> instant \<Rightarrow> db \<Rightarrow> (bool \<Rightarrow> db \<Rightarrow> 'a outcome) \<Rightarrow> 'a outcome" where
  "cancellation_request job_id now d k =
     (let attempt = find (\<lambda>a. wa_job_id a = job_id \<and> active (wa_status a)) (db_attempts d);
          cleanup_ids = map co_id (sort_key co_id
            (filter (\<lambda>ob. co_job_id ob = job_id \<and> co_status ob = CleanupPending) (db_obligations d)))
      in case row_of j_id (db_jobs d) job_id of
        None \<Rightarrow> k False d
      | Some job \<Rightarrow>
        if j_status job = JobCancelled then k True d
        else case attempt of
          Some a \<Rightarrow>
            if executing (wa_status a)
            then update_attempts (\<lambda>r. wa_attempt_id r = wa_attempt_id a)
                   (\<lambda>r. r\<lparr>wa_status := AttemptCancelRequested\<rparr>) d (k True)
            else discard_attempt_projection (wa_attempt_id a) ''offered work was cancelled'' now d (\<lambda>d1.
              update_attempts (\<lambda>r. wa_attempt_id r = wa_attempt_id a \<and> wa_status r = AttemptOffered)
                fence_offer d1 (\<lambda>d2.
              update_sessions (\<lambda>s. ws_worker_session_id s = wa_worker_session_id a
                  \<and> ws_status s = SessionOffered) (release_session now) d2 (\<lambda>d3.
              cancel_job now job_id (j_status job) cleanup_ids d3 k)))
        | None \<Rightarrow> cancel_job now job_id (j_status job) cleanup_ids d k)"

definition request_cancel :: "uuid \<Rightarrow> instant \<Rightarrow> db \<Rightarrow> bool outcome" where
  "request_cancel job_id now d = cancellation_request job_id now d Commit"

section \<open>Slack jobs that can no longer be reported\<close>

definition fail_locked_queued_job ::
  "instant \<Rightarrow> string \<Rightarrow> uuid \<Rightarrow> uuid list \<Rightarrow> db \<Rightarrow> (uuid list \<Rightarrow> db \<Rightarrow> 'a outcome) \<Rightarrow> 'a outcome" where
  "fail_locked_queued_job now remark job_id failed d k =
     (let queued = (\<lambda>j. j_id j = job_id \<and> j_status j = JobQueued)
      in update_jobs queued (\<lambda>j. j\<lparr>j_status := JobFailed\<rparr>) d (\<lambda>d1.
         if affected queued (db_jobs d) \<noteq> 1 then k failed d1
         else k (failed @ [job_id]) (insert_job_event \<lparr>je_job_id = job_id, je_event_kind = EventFailed,
           je_event_status = StatusFail, je_remark = Some remark, je_detail = None,
           je_occurred_at = now\<rparr> d1)))"

fun fail_locked_queued_jobs ::
  "instant \<Rightarrow> string \<Rightarrow> uuid list \<Rightarrow> uuid list \<Rightarrow> db \<Rightarrow> (uuid list \<Rightarrow> db \<Rightarrow> 'a outcome) \<Rightarrow> 'a outcome" where
  "fail_locked_queued_jobs now remark [] failed d k = k failed d"
| "fail_locked_queued_jobs now remark (job_id # job_ids) failed d k =
     fail_locked_queued_job now remark job_id failed d (\<lambda>failed d.
       fail_locked_queued_jobs now remark job_ids failed d k)"

definition queued_slack :: "(uuid \<Rightarrow> bool) \<Rightarrow> job \<Rightarrow> bool" where
  "queued_slack locked j \<longleftrightarrow> j_source j = SourceSlack \<and> j_status j = JobQueued \<and> \<not> locked (j_id j)"

definition expire_unreported_slack_jobs ::
  "duration \<Rightarrow> string \<Rightarrow> instant \<Rightarrow> (uuid \<Rightarrow> bool) \<Rightarrow> db \<Rightarrow> uuid list outcome" where
  "expire_unreported_slack_jobs admission_timeout remark now locked d =
     (let timeout = max (num_milliseconds admission_timeout) 0 * 1000;
          due = (\<lambda>j. queued_slack locked j \<and> j_created_at j \<le> now - timeout);
          by_age = sort_key (\<lambda>j. (j_created_at j, j_id j));
          unreported = by_age (concat (map (\<lambda>slack. filter (\<lambda>j. due j
              \<and> j_task_submission_id j = sl_task_submission_id slack) (db_jobs d))
            (filter (\<lambda>slack. sl_report_message_ts slack = None) (db_slack d))));
          malformed = by_age (filter (\<lambda>j. due j
              \<and> \<not> list_ex (\<lambda>slack. sl_task_submission_id slack = j_task_submission_id j) (db_slack d))
            (db_jobs d))
      in fail_locked_queued_jobs now remark (map j_id unreported @ map j_id malformed) [] d Commit)"

definition fail_queued_slack_jobs_without_connector ::
  "string \<Rightarrow> instant \<Rightarrow> (uuid \<Rightarrow> bool) \<Rightarrow> db \<Rightarrow> uuid list outcome" where
  "fail_queued_slack_jobs_without_connector remark now locked d =
     fail_locked_queued_jobs now remark
       (map j_id (sort_key (\<lambda>j. (j_created_at j, j_id j)) (filter (queued_slack locked) (db_jobs d)))) [] d Commit"

section \<open>Expiry of offers and leases\<close>

definition stale :: "instant \<Rightarrow> (uuid \<Rightarrow> bool) \<Rightarrow> worker_attempt \<Rightarrow> bool" where
  "stale now locked a \<longleftrightarrow> active (wa_status a)
     \<and> (if wa_status a = AttemptOffered then wa_offer_expires_at a else wa_lease_expires_at a) \<le> now
     \<and> \<not> locked (wa_attempt_id a)"

definition requeue_job :: "job \<Rightarrow> job" where
  "requeue_job j = j\<lparr>j_status := JobQueued, j_claim_token := None, j_claimed_at := None\<rparr>"

text \<open>What happens to the job of an attempt that is taken away: an offer gives it back, a running one
  leaves it with an obligation to clean up. Both \<open>expire_stale_attempts\<close> and \<open>register_session\<close> do
  this.\<close>

definition release_job ::
  "string \<Rightarrow> instant \<Rightarrow> worker_attempt \<Rightarrow> db \<Rightarrow> (db \<Rightarrow> 'a outcome) \<Rightarrow> 'a outcome" where
  "release_job reason now row d k =
     (if wa_status row = AttemptOffered
      then update_jobs (\<lambda>j. j_id j = wa_job_id row \<and> j_status j = JobClaimed) requeue_job d k
      else k (insert_obligation (wa_worker_id row) (wa_worker_session_id row) (wa_attempt_id row)
             (wa_job_id row) (wa_status row = AttemptRunning) reason now d))"

definition expire_attempt ::
  "instant \<Rightarrow> worker_attempt \<Rightarrow> db \<Rightarrow> (db \<Rightarrow> 'a outcome) \<Rightarrow> 'a outcome" where
  "expire_attempt now row d k =
     discard_attempt_projection (wa_attempt_id row) ''attempt lease expired before report projection'' now d
       (\<lambda>d1.
     update_attempts (\<lambda>a. wa_attempt_id a = wa_attempt_id row) (\<lambda>a. a\<lparr>wa_status := AttemptExpired\<rparr>) d1 (\<lambda>d2.
     release_job ''lease expired while local execution may exist'' now row d2 (\<lambda>d3.
     update_sessions (\<lambda>s. ws_worker_session_id s = wa_worker_session_id row
            \<and> ws_status s \<notin> {SessionOffline, SessionDeregistered})
          (\<lambda>s. s\<lparr>ws_status := SessionOffline, ws_ended_at := Some now\<rparr>) d3 k)))"

definition expire_stale_attempts :: "instant \<Rightarrow> (uuid \<Rightarrow> bool) \<Rightarrow> db \<Rightarrow> u64 outcome" where
  "expire_stale_attempts now locked d =
     (let rows = filter (stale now locked) (db_attempts d)
      in tx_for (expire_attempt now) rows d (Commit (of_nat (length rows))))"

section \<open>Cleanup obligations\<close>

definition current_session :: "uuid \<Rightarrow> uuid \<Rightarrow> instant \<Rightarrow> db \<Rightarrow> bool" where
  "current_session worker_id worker_session_id now d \<longleftrightarrow>
     list_ex (\<lambda>s. ws_worker_id s = worker_id \<and> ws_worker_session_id s = worker_session_id
       \<and> live_session (ws_status s) \<and> ws_expires_at s > now) (db_sessions d)"

definition cleanup_obligations ::
  "uuid \<Rightarrow> uuid \<Rightarrow> instant \<Rightarrow> db \<Rightarrow> worker_cleanup_obligation list" where
  "cleanup_obligations worker_id worker_session_id now d =
     sort_key co_created_at (filter (\<lambda>ob. co_worker_id ob = worker_id \<and> co_status ob = CleanupPending
       \<and> current_session worker_id worker_session_id now d) (db_obligations d))"

definition settle :: "instant \<Rightarrow> worker_cleanup_obligation \<Rightarrow> worker_cleanup_obligation" where
  "settle now ob = ob\<lparr>co_status := CleanupCompleted, co_completed_at := Some now\<rparr>"

definition owed :: "uuid \<Rightarrow> uuid \<Rightarrow> int \<Rightarrow> instant \<Rightarrow> db \<Rightarrow> worker_cleanup_obligation \<Rightarrow> bool" where
  "owed worker_id worker_session_id obligation_id now d ob \<longleftrightarrow>
     co_id ob = obligation_id \<and> co_worker_id ob = worker_id \<and> co_status ob = CleanupPending
     \<and> current_session worker_id worker_session_id now d"

definition complete_cleanup :: "uuid \<Rightarrow> uuid \<Rightarrow> int \<Rightarrow> instant \<Rightarrow> db \<Rightarrow> bool outcome" where
  "complete_cleanup worker_id worker_session_id obligation_id now d =
     (let pending = owed worker_id worker_session_id obligation_id now d
      in case find pending (db_obligations d) of
        None \<Rightarrow>
          if \<not> current_session worker_id worker_session_id now d then Error FleetSessionInactive
          else Rollback (list_ex (\<lambda>ob. co_worker_id ob = worker_id \<and> co_id ob = obligation_id
                 \<and> co_status ob = CleanupCompleted) (db_obligations d))
      | Some row \<Rightarrow>
          let d1 = update_obligations pending (settle now) d;
              running = (\<lambda>j. j_id j = co_job_id row \<and> j_status j = JobRunning)
          in if co_requeue_job row then update_jobs running requeue_job d1 (Commit True)
             else update_jobs running (\<lambda>j. j\<lparr>j_status := JobCancelled\<rparr>) d1 (\<lambda>d2.
               Commit True (if affected running (db_jobs d1) = 1
                 then insert_job_event \<lparr>je_job_id = co_job_id row, je_event_kind = EventCancelled,
                   je_event_status = StatusSuccess,
                   je_remark = Some ''cancelled attempt was fenced after its lease expired'',
                   je_detail = None, je_occurred_at = now\<rparr> d2
                 else d2)))"

section \<open>The abstract state after a statement\<close>

lemma core_of_update_attempt:
  assumes "row_of wa_attempt_id (db_attempts d) i = Some a" "P a"
    "\<And>r. P r \<Longrightarrow> wa_attempt_id r = i" "\<And>r. wa_attempt_id (f r) = wa_attempt_id r"
  shows "core_of (d\<lparr>db_attempts := update_where P f (db_attempts d)\<rparr>) = set_attempt i (abs_attempt (f a)) (core_of d)"
  using assms by (intro core_eqI) (simp_all add: view_update_key)

lemma core_of_update_job:
  assumes "row_of j_id (db_jobs d) i = Some j" "P j"
    "\<And>r. P r \<Longrightarrow> j_id r = i" "\<And>r. j_id (f r) = j_id r"
  shows "core_of (d\<lparr>db_jobs := update_where P f (db_jobs d)\<rparr>) = set_job i (abs_job (f j)) (core_of d)"
  using assms by (intro core_eqI) (simp_all add: view_update_key)

lemma core_of_update_obligation:
  assumes "row_of co_id (db_obligations d) i = Some ob" "P ob"
    "\<And>r. r \<in> set (db_obligations d) \<Longrightarrow> P r \<Longrightarrow> co_id r = i" "\<And>r. co_id (f r) = co_id r"
  shows "core_of (update_obligations P f d) = set_obligation i (abs_obligation (f ob)) (core_of d)"
proof -
  have "update_where P f (db_obligations d) = update_where (\<lambda>r. P r \<and> co_id r = i) f (db_obligations d)"
    unfolding update_where_def by (rule map_cong [OF refl]) (use assms(3) in auto)
  moreover have "view co_id abs_obligation (update_where (\<lambda>r. P r \<and> co_id r = i) f (db_obligations d))
      = (view co_id abs_obligation (db_obligations d))(i \<mapsto> abs_obligation (f ob))"
    using assms row_of_Some [OF assms(1)] by (intro view_update_key) auto
  ultimately show ?thesis by (intro core_eqI) (simp_all add: update_obligations_def)
qed

lemma core_of_same_attempts:
  assumes "\<And>r. P r \<Longrightarrow> wa_attempt_id (f r) = wa_attempt_id r" "\<And>r. P r \<Longrightarrow> abs_attempt (f r) = abs_attempt r"
  shows "core_of (d\<lparr>db_attempts := update_where P f (db_attempts d)\<rparr>) = core_of d"
  using assms by (intro core_eqI) (simp_all add: view_same)

lemma core_of_insert_obligation:
  assumes "schema_ok d" "\<And>ob. ob \<in> set (db_obligations d) \<Longrightarrow> co_attempt_id ob \<noteq> a"
  shows "core_of (insert_obligation w s a j r reason now d) =
    set_obligation (db_obligation_sequence d)
      \<lparr>ob_attempt = a, ob_job = j, ob_pending = True, ob_requeue = r\<rparr> (core_of d)"
    "row_of co_id (db_obligations d) (db_obligation_sequence d) = None"
proof -
  have "\<not> list_ex (\<lambda>ob. co_attempt_id ob = a) (db_obligations d)"
    using assms(2) by (auto simp: list_ex_iff)
  moreover show fresh: "row_of co_id (db_obligations d) (db_obligation_sequence d) = None"
    using assms(1) by (auto simp: schema_ok_def list_all_iff row_of_None)
  ultimately show "core_of (insert_obligation w s a j r reason now d) =
    set_obligation (db_obligation_sequence d)
      \<lparr>ob_attempt = a, ob_job = j, ob_pending = True, ob_requeue = r\<rparr> (core_of d)"
    using view_insert [of co_id "db_obligations d" "\<lparr>co_id = db_obligation_sequence d, co_worker_id = w,
          co_worker_session_id = s, co_attempt_id = a, co_job_id = j, co_status = CleanupPending,
          co_requeue_job = r, co_reason = reason, co_created_at = now, co_completed_at = None\<rparr>" abs_obligation]
    by (intro core_eqI) (simp_all add: insert_obligation_def abs_obligation_def)
qed

lemma abs_simps [simp]:
  "abs_attempt (a\<lparr>wa_status := s\<rparr>) = (abs_attempt a)\<lparr>at_status := s\<rparr>"
  "abs_attempt (a\<lparr>wa_projected_reliable_seq := n\<rparr>) = abs_attempt a"
  "abs_attempt (fence_offer a) = (abs_attempt a)\<lparr>at_status := AttemptFenced\<rparr>"
  "wa_attempt_id (fence_offer a) = wa_attempt_id a"
  "abs_job (j\<lparr>j_status := js\<rparr>) = (abs_job j)\<lparr>jc_status := js\<rparr>"
  "abs_job (cancel_unstarted j) = (abs_job j)\<lparr>jc_status := JobCancelled, jc_claim := None\<rparr>"
  "j_id (cancel_unstarted j) = j_id j"
  "abs_job (requeue_job j) = (abs_job j)\<lparr>jc_status := JobQueued, jc_claim := None\<rparr>"
  "j_id (requeue_job j) = j_id j"
  "abs_obligation (stop_requeue ob) = (abs_obligation ob)\<lparr>ob_requeue := False\<rparr>"
  "co_id (stop_requeue ob) = co_id ob"
  "abs_obligation (settle now ob) = (abs_obligation ob)\<lparr>ob_pending := False\<rparr>"
  "co_id (settle now ob) = co_id ob"
  by (simp_all add: abs_attempt_def abs_job_def abs_obligation_def fence_offer_def cancel_unstarted_def
      requeue_job_def stop_requeue_def settle_def)

lemma abs_sel [simp]:
  "at_job (abs_attempt a) = wa_job_id a" "at_submission (abs_attempt a) = wa_task_submission_id a"
  "at_status (abs_attempt a) = wa_status a" "at_fence (abs_attempt a) = wa_fencing_generation a"
  "at_claim (abs_attempt a) = wa_claim_token a"
  "jc_status (abs_job j) = j_status j" "jc_submission (abs_job j) = j_task_submission_id j"
  "jc_claim (abs_job j) = j_claim_token j"
  "ob_job (abs_obligation ob) = co_job_id ob" "ob_attempt (abs_obligation ob) = co_attempt_id ob"
  "ob_pending (abs_obligation ob) \<longleftrightarrow> co_status ob = CleanupPending"
  "ob_requeue (abs_obligation ob) = co_requeue_job ob"
  by (simp_all add: abs_attempt_def abs_job_def abs_obligation_def)

text \<open>What the coherence of the abstract state says about rows.\<close>

lemma wf_attempt_job:
  assumes "well_formed d" "row_of wa_attempt_id (db_attempts d) i = Some a" "active (wa_status a)"
  obtains j where "row_of j_id (db_jobs d) (wa_job_id a) = Some j"
    "j_status j = (if wa_status a = AttemptOffered then JobClaimed else JobRunning)"
    "j_claim_token j = Some (wa_claim_token a)" "j_task_submission_id j = wa_task_submission_id a"
proof -
  have "attempts_own_jobs (core_of d)" using assms(1) by (simp add: well_formed_def coherent_def)
  then have "owns (core_of d) (abs_attempt a)"
    using assms(2,3) by (force simp: attempts_own_jobs_def view_def)
  then show ?thesis using that by (auto simp: owns_def view_Some)
qed

lemma wf_obligation:
  assumes "well_formed d" "row_of co_id (db_obligations d) i = Some ob"
  obtains a where "row_of wa_attempt_id (db_attempts d) (co_attempt_id ob) = Some a" "wa_job_id a = co_job_id ob"
    "wa_status a \<in> {AttemptExpired, AttemptFenced}"
    "co_status ob = CleanupPending \<Longrightarrow>
      \<exists>j. row_of j_id (db_jobs d) (co_job_id ob) = Some j \<and> j_status j = JobRunning"
proof -
  have "obligations_own_jobs (core_of d)" using assms(1) by (simp add: well_formed_def coherent_def)
  then have "obligation_ok (core_of d) (abs_obligation ob)"
    using assms(2) by (auto simp: obligations_own_jobs_def view_Some)
  then show ?thesis
    using that by (auto simp: obligation_ok_def view_Some)
qed

lemma wf_no_obligation:
  assumes "well_formed d" "row_of wa_attempt_id (db_attempts d) i = Some a" "active (wa_status a)"
    "ob \<in> set (db_obligations d)"
  shows "co_attempt_id ob \<noteq> i"
proof
  assume "co_attempt_id ob = i"
  moreover have "row_of co_id (db_obligations d) (co_id ob) = Some ob"
    using row_of_in_set [OF schema_distinct(5) [OF wfD(1) [OF assms(1)]] assms(4)] .
  ultimately obtain b where "row_of wa_attempt_id (db_attempts d) i = Some b"
    "wa_status b \<in> {AttemptExpired, AttemptFenced}"
    using wf_obligation [OF assms(1)] by metis
  then show False using assms(2,3) by auto
qed

lemma wf_one_pending:
  assumes "well_formed d" "ob \<in> set (db_obligations d)" "ob' \<in> set (db_obligations d)"
    "co_status ob = CleanupPending" "co_status ob' = CleanupPending" "co_job_id ob = co_job_id ob'"
  shows "co_id ob = co_id ob'"
proof -
  have "one_obligation (core_of d)" using assms(1) by (simp add: well_formed_def coherent_def)
  moreover have "c_obligations (core_of d) (co_id b) = Some (abs_obligation b)"
    if "b \<in> set (db_obligations d)" for b
    using row_of_in_set [OF schema_distinct(5) [OF wfD(1) [OF assms(1)]] that] by (simp add: view_def)
  ultimately show ?thesis
    using assms(2-6) unfolding one_obligation_def by (simp del: core_of_sel)
qed

section \<open>The operations implement the abstract machine\<close>

text \<open>What discarding the projection of an attempt leaves alone.\<close>

lemma ensures_discard:
  assumes "schema_ok d"
    "\<And>d'. schema_ok d' \<Longrightarrow> core_of d' = core_of d \<Longrightarrow> db_jobs d' = db_jobs d \<Longrightarrow> db_obligations d' = db_obligations d
      \<Longrightarrow> db_obligation_sequence d' = db_obligation_sequence d \<Longrightarrow> ensures Q (k d')"
  shows "ensures Q (discard_attempt_projection i reason now d k)"
  unfolding discard_attempt_projection_def Let_def
  by (intro tx_intro assms(2)) (auto intro!: schema_intros assms(1) core_eqI view_same)

lemma refines_insert_job_event [simp]: "refines d (insert_job_event e d') \<longleftrightarrow> refines d d'"
  by (simp add: refines_def insert_job_event_def schema_ok_def core_of_def)

lemma core_row_attempt:
  assumes "core_of d' = core_of d" "row_of wa_attempt_id (db_attempts d) i = Some a"
  obtains a' where "row_of wa_attempt_id (db_attempts d') i = Some a'" "abs_attempt a' = abs_attempt a"
proof -
  have "c_attempts (core_of d') i = Some (abs_attempt a)" using assms by (simp only: core_of_sel(2) view_def) simp
  then show ?thesis using that by (auto simp: view_Some)
qed

lemma cancel_job_refines:
  assumes "well_formed d" "row_of j_id (db_jobs d) i = Some j"
    "ids = map co_id (sort_key co_id (filter (\<lambda>ob. co_job_id ob = i \<and> co_status ob = CleanupPending) (db_obligations d)))"
    "\<And>a. a \<in> set (db_attempts d) \<Longrightarrow> wa_job_id a = i \<Longrightarrow> \<not> active (wa_status a)"
    "\<And>b d'. refines d d' \<Longrightarrow> ensures Q (k b d')"
  shows "ensures Q (cancel_job now i (j_status j) ids d k)"
proof -
  note sch = wfD(1) [OF assms(1)]
  have pending: "refines d (update_obligations (\<lambda>ob. co_id ob \<in> set ids) stop_requeue d)" if ids: "ids \<noteq> []"
  proof -
    obtain ob where ob: "ob \<in> set (db_obligations d)" "co_job_id ob = i" "co_status ob = CleanupPending"
      using hd_in_set [OF ids] by (auto simp: assms(3))
    note row = row_of_in_set [OF schema_distinct(5) [OF sch] ob(1)]
    have "r \<in> set (db_obligations d) \<Longrightarrow> co_id r \<in> set ids \<Longrightarrow> co_id r = co_id ob" for r
      using wf_one_pending [OF assms(1) _ ob(1) _ ob(3)] ob(2) row_of_in_set [OF schema_distinct(5) [OF sch]]
      by (fastforce simp: assms(3))
    moreover have "co_id ob \<in> set ids" using ob by (auto simp: assms(3))
    ultimately have "core_of (update_obligations (\<lambda>ob. co_id ob \<in> set ids) stop_requeue d) =
        set_obligation (co_id ob) ((abs_obligation ob)\<lparr>ob_requeue := False\<rparr>) (core_of d)"
      using core_of_update_obligation [OF row] by simp
    moreover have "core_step (core_of d) \<dots>"
      using row ob(3) by (intro core_step.cancel_fenced) (simp_all add: view_def)
    ultimately show ?thesis by (intro refines_step) (simp_all add: schema_intros sch)
  qed
  have free: "j_status j \<noteq> JobClaimed"
  proof
    assume "j_status j = JobClaimed"
    moreover have "jobs_owned (core_of d)" using assms(1) by (simp add: well_formed_def coherent_def)
    ultimately have "\<exists>a. owner_attempt (core_of d) i a"
      using assms(2) by (auto simp: jobs_owned_def job_owned_def view_def)
    then show False
      using assms(4) row_of_Some by (fastforce simp: owner_attempt_def view_Some)
  qed
  have unst: "refines d d'"
    if "d' = d\<lparr>db_jobs := update_where (unstarted i) cancel_unstarted (db_jobs d)\<rparr>" "schema_ok d'" for d'
  proof (cases "unstarted i j")
    case True
    then have "core_of d' = set_job i ((abs_job j)\<lparr>jc_status := JobCancelled, jc_claim := None\<rparr>) (core_of d)"
      using core_of_update_job [OF assms(2), of "unstarted i"] that(1) by (simp add: unstarted_def)
    moreover have "core_step (core_of d) \<dots>"
      using True free assms(2) by (intro core_step.drop_queued) (auto simp: view_def unstarted_def)
    ultimately show ?thesis using that(2) by (auto intro: refines_step)
  next
    case False
    then have "update_where (unstarted i) cancel_unstarted (db_jobs d) = db_jobs d"
      using assms(2) row_of_in_set [OF schema_distinct(4) [OF sch]]
      by (intro update_where_none) (auto simp: unstarted_def)
    then show ?thesis using that sch by (auto intro: refines_refl)
  qed
  show ?thesis
    unfolding cancel_job_def
    by (intro tx_intro assms(5) pending) (auto intro!: unst schema_intros sch)
qed

text \<open>Withdrawing an offer: the attempt is fenced or expired and its job changes with it.\<close>

lemma cancel_offered_refines:
  assumes "well_formed d" "row_of wa_attempt_id (db_attempts d) i = Some a" "wa_status a = AttemptOffered"
    and d2: "schema_ok d2" "core_of d2 = set_attempt i ((abs_attempt a)\<lparr>at_status := AttemptFenced\<rparr>) (core_of d)"
      "db_jobs d2 = db_jobs d"
    and k: "\<And>b d'. refines d d' \<Longrightarrow> ensures Q (k b d')"
  shows "ensures Q (cancel_job now (wa_job_id a) JobClaimed ids d2 k)"
proof -
  obtain j where j: "row_of j_id (db_jobs d) (wa_job_id a) = Some j" "j_status j = JobClaimed"
    using wf_attempt_job [OF assms(1,2)] assms(3) by auto
  have un: "unstarted (wa_job_id a) j" using row_of_Some [OF j(1)] j(2) by (simp add: unstarted_def)
  have "core_of (d2\<lparr>db_jobs := update_where (unstarted (wa_job_id a)) cancel_unstarted (db_jobs d2)\<rparr>)
      = set_job (wa_job_id a) ((abs_job j)\<lparr>jc_status := JobCancelled, jc_claim := None\<rparr>) (core_of d2)"
    using core_of_update_job [of d2 "wa_job_id a" j "unstarted (wa_job_id a)"] un j(1) d2(3)
    by (simp add: unstarted_def)
  moreover have "core_step (core_of d) (set_job (at_job (abs_attempt a))
      ((abs_job j)\<lparr>jc_status := JobCancelled, jc_claim := None\<rparr>)
      (set_attempt i ((abs_attempt a)\<lparr>at_status := AttemptFenced\<rparr>) (core_of d)))"
    using assms(2,3) j by (intro core_step.cancel_offered) (simp_all add: view_def)
  ultimately have step: "core_step (core_of d)
      (core_of (d2\<lparr>db_jobs := update_where (unstarted (wa_job_id a)) cancel_unstarted (db_jobs d2)\<rparr>))"
    by (simp add: d2)
  show ?thesis
    unfolding cancel_job_def
    by (intro tx_intro k) (auto intro!: refines_step step schema_intros d2)
qed

text \<open>Changing the status of one attempt after its projection was discarded.\<close>

lemma ensures_discard_mark:
  assumes "schema_ok d" "row_of wa_attempt_id (db_attempts d) i = Some a"
    "\<And>r. P r \<Longrightarrow> wa_attempt_id r = i" "\<And>r. abs_attempt r = abs_attempt a \<Longrightarrow> wa_attempt_id r = i \<Longrightarrow> P r"
    "\<And>r. wa_attempt_id (f r) = wa_attempt_id r" "\<And>r. abs_attempt (f r) = (abs_attempt r)\<lparr>at_status := s\<rparr>"
    "\<And>d'. schema_ok d' \<Longrightarrow> core_of d' = set_attempt i ((abs_attempt a)\<lparr>at_status := s\<rparr>) (core_of d)
      \<Longrightarrow> db_jobs d' = db_jobs d \<Longrightarrow> db_obligations d' = db_obligations d
      \<Longrightarrow> db_obligation_sequence d' = db_obligation_sequence d \<Longrightarrow> ensures Q (k d')"
  shows "ensures Q (discard_attempt_projection i reason now d (\<lambda>d1. update_attempts P f d1 k))"
proof (intro ensures_discard [OF assms(1)] tx_intro)
  fix d1
  assume d1: "schema_ok d1" "core_of d1 = core_of d" "db_jobs d1 = db_jobs d" "db_obligations d1 = db_obligations d"
    "db_obligation_sequence d1 = db_obligation_sequence d"
    and tab: "attempt_table_ok (update_where P f (db_attempts d1))"
  obtain a1 where a1: "row_of wa_attempt_id (db_attempts d1) i = Some a1" "abs_attempt a1 = abs_attempt a"
    using core_row_attempt [OF d1(2) assms(2)] .
  moreover from this have "P a1" using assms(4) row_of_Some [OF a1(1)] by simp
  ultimately have "core_of (d1\<lparr>db_attempts := update_where P f (db_attempts d1)\<rparr>) =
      set_attempt i ((abs_attempt a)\<lparr>at_status := s\<rparr>) (core_of d)"
    using core_of_update_attempt [of d1 i a1 P f] assms(3,5,6) d1(2) by simp
  then show "ensures Q (k (d1\<lparr>db_attempts := update_where P f (db_attempts d1)\<rparr>))"
    using d1 tab by (intro assms(7)) (simp_all add: schema_intros)
qed

lemma request_offered_refines:
  assumes "well_formed d" "row_of wa_attempt_id (db_attempts d) (wa_attempt_id a) = Some a" "wa_status a = AttemptOffered"
    "\<And>b d'. refines d d' \<Longrightarrow> ensures Q (k b d')"
  shows "ensures Q (discard_attempt_projection (wa_attempt_id a) reason now d (\<lambda>d1.
        update_attempts (\<lambda>r. wa_attempt_id r = wa_attempt_id a \<and> wa_status r = AttemptOffered)
          fence_offer d1 (\<lambda>d2. update_sessions P (release_session now) d2 (\<lambda>d3.
        cancel_job now (wa_job_id a) JobClaimed ids d3 k))))"
proof (rule ensures_discard_mark [OF wfD(1) [OF assms(1)] assms(2), where s = AttemptFenced])
  show "wa_attempt_id r = wa_attempt_id a \<and> wa_status r = AttemptOffered"
    if "abs_attempt r = abs_attempt a" "wa_attempt_id r = wa_attempt_id a" for r
    using that assms(3) by (metis abs_sel(3))
qed (auto intro!: tx_intro cancel_offered_refines [OF assms(1,2,3)] schema_intros assms(4))

lemma request_running_refines:
  assumes "well_formed d" "row_of wa_attempt_id (db_attempts d) (wa_attempt_id a) = Some a" "executing (wa_status a)"
    "\<And>b d'. refines d d' \<Longrightarrow> ensures Q (k b d')"
  shows "ensures Q (update_attempts (\<lambda>r. wa_attempt_id r = wa_attempt_id a)
      (\<lambda>r. r\<lparr>wa_status := AttemptCancelRequested\<rparr>) d (k True))"
proof (intro tx_intro assms(4) refines_step)
  show "core_step (core_of d) (core_of (d\<lparr>db_attempts := update_where (\<lambda>r. wa_attempt_id r = wa_attempt_id a)
      (\<lambda>r. r\<lparr>wa_status := AttemptCancelRequested\<rparr>) (db_attempts d)\<rparr>))"
    using core_of_update_attempt [OF assms(2), of "\<lambda>r. wa_attempt_id r = wa_attempt_id a"]
      core_step.request_cancel [of "core_of d" "wa_attempt_id a" "abs_attempt a"] assms(2,3)
    by (simp add: view_def)
qed (simp add: schema_intros wfD(1) [OF assms(1)])

lemma request_refines:
  assumes "well_formed d" "\<And>b d'. refines d d' \<Longrightarrow> ensures Q (k b d')"
  shows "ensures Q (cancellation_request i now d k)"
proof (cases "find (\<lambda>a. wa_job_id a = i \<and> active (wa_status a)) (db_attempts d)")
  case None
  then have idle: "\<not> active (wa_status a)" if "a \<in> set (db_attempts d)" "wa_job_id a = i" for a
    using that by (auto simp: find_None_iff)
  show ?thesis
    unfolding cancellation_request_def Let_def None option.case
    by (intro tx_intro assms(2) refines_refl wfD(1) [OF assms(1)] cancel_job_refines [OF assms(1) _ refl idle])
next
  case (Some a)
  have a: "row_of wa_attempt_id (db_attempts d) (wa_attempt_id a) = Some a" "wa_job_id a = i" "active (wa_status a)"
    using find_conv [OF Some] row_of_in_set [OF schema_distinct(2) [OF wfD(1) [OF assms(1)]]] by auto
  have offered: "wa_status a = AttemptOffered \<and> j_status j = JobClaimed"
    if "\<not> executing (wa_status a)" "row_of j_id (db_jobs d) i = Some j" for j
    using wf_attempt_job [OF assms(1) a(1,3)] that a active_cases by fastforce
  show ?thesis
    unfolding cancellation_request_def Let_def Some option.case
    by (intro tx_intro assms(2) refines_refl wfD(1) [OF assms(1)] request_running_refines [OF assms(1) a(1)])
      (use offered a request_offered_refines [OF assms(1) a(1) _ assms(2)] in auto)
qed

lemma request_cancel_refines: "well_formed d \<Longrightarrow> ensures (refines d) (request_cancel i now d)"
  unfolding request_cancel_def by (rule request_refines) (simp_all add: tx_intro)

text \<open>An update of at most one job.\<close>

lemma refines_update_job:
  assumes "schema_ok d" "\<And>r. P r \<Longrightarrow> j_id r = i" "\<And>r. j_id (f r) = j_id r"
    "schema_ok (d\<lparr>db_jobs := update_where P f (db_jobs d)\<rparr>)"
    "\<And>j. row_of j_id (db_jobs d) i = Some j \<Longrightarrow> P j
      \<Longrightarrow> core_step (core_of d) (set_job i (abs_job (f j)) (core_of d))"
  shows "refines d (d\<lparr>db_jobs := update_where P f (db_jobs d)\<rparr>)"
proof (cases "\<exists>j. row_of j_id (db_jobs d) i = Some j \<and> P j")
  case True
  then obtain j where "row_of j_id (db_jobs d) i = Some j" "P j" by blast
  then show ?thesis using assms core_of_update_job [of d i j P f] by (intro refines_step) simp_all
next
  case False
  then have "update_where P f (db_jobs d) = db_jobs d"
    using assms(2) row_of_in_set [OF schema_distinct(4) [OF assms(1)]]
    by (intro update_where_none) metis
  then show ?thesis using assms(1) by (simp add: refines_refl)
qed

lemma fail_locked_queued_job_refines:
  assumes "schema_ok d" "\<And>failed d'. refines d d' \<Longrightarrow> ensures Q (k failed d')"
  shows "ensures Q (fail_locked_queued_job now remark i failed d k)"
proof -
  have step: "core_step (core_of d) (set_job i ((abs_job j)\<lparr>jc_status := JobFailed\<rparr>) (core_of d))"
    if "row_of j_id (db_jobs d) i = Some j" "j_status j = JobQueued" for i j
    using core_step.drop_queued [of "core_of d" i "abs_job j" JobFailed "j_claim_token j"] that
    by (simp add: view_def abs_job_def)
  show ?thesis
    unfolding fail_locked_queued_job_def Let_def
    by (intro tx_intro assms(2)) (auto intro!: refines_update_job [where i = i] step schema_intros assms(1))
qed

lemma fail_locked_queued_jobs_refines:
  assumes "schema_ok d" "\<And>failed d'. refines d d' \<Longrightarrow> ensures Q (k failed d')"
  shows "ensures Q (fail_locked_queued_jobs now remark job_ids failed d k)"
  using assms
proof (induction job_ids arbitrary: failed d)
  case (Cons i job_ids)
  show ?case
    unfolding fail_locked_queued_jobs.simps
  proof (rule fail_locked_queued_job_refines [OF Cons.prems(1)])
    fix failed' d'
    assume d': "refines d d'"
    then show "ensures Q (fail_locked_queued_jobs now remark job_ids failed' d' k)"
      by (intro Cons.IH Cons.prems(2) refines_trans [OF d']) (simp add: refines_def)
  qed
qed (simp add: refines_refl)

lemma slack_expiry_refines:
  assumes "well_formed d"
  shows "ensures (refines d) (expire_unreported_slack_jobs timeout remark now locked d)"
    "ensures (refines d) (fail_queued_slack_jobs_without_connector remark now locked d)"
  unfolding expire_unreported_slack_jobs_def fail_queued_slack_jobs_without_connector_def Let_def
  by (rule fail_locked_queued_jobs_refines [OF wfD(1) [OF assms]]; simp add: tx_intro)+

text \<open>Taking an active attempt away.\<close>

lemma ensures_end_attempt:
  assumes "well_formed d" "row_of wa_attempt_id (db_attempts d) (wa_attempt_id a) = Some b" "abs_attempt b = abs_attempt a"
    "active (wa_status a)" "s \<in> {AttemptExpired, AttemptFenced}"
    "\<And>d'. refines d d' \<Longrightarrow> (\<And>i. i \<noteq> wa_attempt_id a \<Longrightarrow> c_attempts (core_of d') i = c_attempts (core_of d) i)
      \<Longrightarrow> ensures Q (k d')"
  shows "ensures Q (discard_attempt_projection (wa_attempt_id a) why now d (\<lambda>d1.
     update_attempts (\<lambda>r. wa_attempt_id r = wa_attempt_id a) (\<lambda>r. r\<lparr>wa_status := s\<rparr>) d1 (\<lambda>d2.
     release_job reason now a d2 k)))"
proof (rule ensures_discard_mark [OF wfD(1) [OF assms(1)] assms(2), where s = s])
  fix d2
  assume d2: "schema_ok d2"
    "core_of d2 = set_attempt (wa_attempt_id a) ((abs_attempt b)\<lparr>at_status := s\<rparr>) (core_of d)"
    "db_jobs d2 = db_jobs d" "db_obligations d2 = db_obligations d"
    "db_obligation_sequence d2 = db_obligation_sequence d"
  have b: "wa_job_id b = wa_job_id a" "wa_status b = wa_status a" using assms(3) by (metis abs_sel(1,3))+
  let ?att = "(abs_attempt a)\<lparr>at_status := s\<rparr>"
  show "ensures Q (release_job reason now a d2 k)"
  proof (cases "wa_status a = AttemptOffered")
    case True
    let ?P = "\<lambda>j. j_id j = wa_job_id a \<and> j_status j = JobClaimed"
    obtain j where j: "row_of j_id (db_jobs d) (wa_job_id a) = Some j" "j_status j = JobClaimed"
      using wf_attempt_job [OF assms(1,2)] True b by (metis active_simps(1))
    have "core_of (d2\<lparr>db_jobs := update_where ?P requeue_job (db_jobs d2)\<rparr>) =
        set_job (wa_job_id a) (abs_job (requeue_job j)) (set_attempt (wa_attempt_id a) ?att (core_of d))"
      "core_step (core_of d) (set_job (wa_job_id a) (abs_job (requeue_job j))
          (set_attempt (wa_attempt_id a) ?att (core_of d)))"
      using True assms(2,3,5) b j d2(2,3) row_of_Some [OF j(1)] core_of_update_job [of d2 "wa_job_id a" j ?P requeue_job]
        core_step.withdraw [of "core_of d" "wa_attempt_id a" "abs_attempt a" "abs_job j" s]
      by (simp_all add: view_def)
    then show ?thesis
      unfolding release_job_def if_P [OF True]
      by (intro tx_intro assms(6) refines_step) (simp_all add: schema_intros d2 del: core_of_sel)
  next
    case False
    let ?ob = "insert_obligation (wa_worker_id a) (wa_worker_session_id a) (wa_attempt_id a)
      (wa_job_id a) (wa_status a = AttemptRunning) reason now d2"
    note fresh = core_of_insert_obligation [of d2 "wa_attempt_id a",
        OF d2(1) wf_no_obligation [OF assms(1,2), folded d2(4)]]
    have ex: "executing (wa_status a)" using False assms(4) active_cases by blast
    have eq: "core_of ?ob = set_obligation (db_obligation_sequence d) \<lparr>ob_attempt = wa_attempt_id a,
        ob_job = wa_job_id a, ob_pending = True, ob_requeue = (wa_status a = AttemptRunning)\<rparr>
      (set_attempt (wa_attempt_id a) ?att (core_of d))"
      using fresh assms(3,4) b d2 by simp
    have "core_step (core_of d) (core_of ?ob)"
      unfolding eq using fresh(2) assms(2-5) b d2 ex by (intro core_step.fence) (simp_all add: view_def)
    with eq show ?thesis
      unfolding release_job_def if_not_P [OF False]
      by (intro assms(6) refines_step) (simp_all add: schema_intros d2 del: core_of_sel)
  qed
qed simp_all

text \<open>Expiry of one attempt, and of all the attempts that were selected.\<close>

lemma expire_attempt_refines:
  assumes "well_formed d" "row_of wa_attempt_id (db_attempts d) (wa_attempt_id a) = Some b" "abs_attempt b = abs_attempt a"
    "active (wa_status a)"
    "\<And>d'. refines d d' \<Longrightarrow> (\<And>i. i \<noteq> wa_attempt_id a \<Longrightarrow> c_attempts (core_of d') i = c_attempts (core_of d) i)
      \<Longrightarrow> ensures Q (k d')"
  shows "ensures Q (expire_attempt now a d k)"
  unfolding expire_attempt_def
  by (intro ensures_end_attempt [OF assms(1-4)] tx_intro assms(5))
    (simp_all add: refines_def schema_intros del: core_of_sel)

lemma ensures_tx_for_attempts:
  assumes wf: "well_formed d"
    and sel: "distinct (map wa_attempt_id xs)" "\<And>a. a \<in> set xs \<Longrightarrow> active (wa_status a) \<and> a \<in> set (db_attempts d)"
    and step: "\<And>a b d k. well_formed d \<Longrightarrow> row_of wa_attempt_id (db_attempts d) (wa_attempt_id a) = Some b
      \<Longrightarrow> abs_attempt b = abs_attempt a \<Longrightarrow> active (wa_status a)
      \<Longrightarrow> (\<And>d'. refines d d' \<Longrightarrow> (\<And>i. i \<noteq> wa_attempt_id a \<Longrightarrow> c_attempts (core_of d') i = c_attempts (core_of d) i)
        \<Longrightarrow> ensures Q (k d')) \<Longrightarrow> ensures Q (f a d k)"
    and k: "\<And>d'. refines d d' \<Longrightarrow> ensures Q (k d')"
  shows "ensures Q (tx_for f xs d k)"
proof -
  define left where "left xs d' \<longleftrightarrow> refines d d' \<and> distinct (map wa_attempt_id xs) \<and>
      (\<forall>a \<in> set xs. active (wa_status a) \<and> c_attempts (core_of d') (wa_attempt_id a) = Some (abs_attempt a))" for xs d'
  have "left xs d"
    using sel row_of_in_set [OF schema_distinct(2) [OF wfD(1) [OF wf]]]
    by (auto simp: left_def refines_refl wfD(1) [OF wf] view_def)
  then show ?thesis
  proof (rule ensures_tx_for)
    fix a xs d1 and k :: "db \<Rightarrow> 'a outcome"
    assume l: "left (a # xs) d1" and k: "\<And>d'. left xs d' \<Longrightarrow> ensures Q (k d')"
    obtain b where b: "row_of wa_attempt_id (db_attempts d1) (wa_attempt_id a) = Some b" "abs_attempt b = abs_attempt a"
      using l by (auto simp: left_def view_Some)
    have ok: "well_formed d1" "active (wa_status a)" using l wf by (auto simp: left_def intro: refines_wf)
    show "ensures Q (f a d1 k)"
    proof (rule step [OF ok(1) b ok(2)])
      fix d'
      assume d': "refines d1 d'" "\<And>i. i \<noteq> wa_attempt_id a \<Longrightarrow> c_attempts (core_of d') i = c_attempts (core_of d1) i"
      have "wa_attempt_id x \<noteq> wa_attempt_id a" if "x \<in> set xs" for x
        using l that by (auto simp: left_def image_iff)
      then show "ensures Q (k d')"
        using d' l by (intro k) (auto simp: left_def simp del: core_of_sel intro: refines_trans)
    qed
  qed (auto simp: left_def intro: k)
qed

lemma expire_stale_attempts_refines:
  assumes "well_formed d"
  shows "ensures (refines d) (expire_stale_attempts now locked d)"
  unfolding expire_stale_attempts_def Let_def
proof (rule ensures_tx_for_attempts [OF assms])
  show "distinct (map wa_attempt_id (filter (stale now locked) (db_attempts d)))"
    using schema_distinct(2) [OF wfD(1) [OF assms]] by (rule distinct_map_filter)
qed (auto simp: stale_def tx_intro intro: expire_attempt_refines)

lemma complete_cleanup_refines:
  assumes "well_formed d"
  shows "ensures (refines d) (complete_cleanup w s i now d)"
proof -
  note sch = wfD(1) [OF assms]
  let ?P = "owed w s i now d"
  have upd: "refines d (d1\<lparr>db_jobs := update_where (\<lambda>j. j_id j = co_job_id ob \<and> j_status j = JobRunning) f (db_jobs d1)\<rparr>)"
    if d1: "d1 = update_obligations ?P (settle now) d" and ob: "find ?P (db_obligations d) = Some ob"
      and f: "\<And>j. j_id (f j) = j_id j" "\<And>j. abs_job (f j) = (if co_requeue_job ob
          then (abs_job j)\<lparr>jc_status := JobQueued, jc_claim := None\<rparr> else (abs_job j)\<lparr>jc_status := JobCancelled\<rparr>)"
      and tab: "job_table_ok (update_where (\<lambda>j. j_id j = co_job_id ob \<and> j_status j = JobRunning) f (db_jobs d1))"
    for d1 ob f
  proof (rule refines_step)
    have in_ob: "ob \<in> set (db_obligations d)" "owed w s i now d ob" using find_conv [OF ob] by auto
    then have row: "row_of co_id (db_obligations d) i = Some ob"
      using row_of_in_set [OF schema_distinct(5) [OF sch]] by (auto simp: owed_def)
    obtain j where j: "row_of j_id (db_jobs d) (co_job_id ob) = Some j" "j_status j = JobRunning"
      using wf_obligation [OF assms row] in_ob(2) by (metis owed_def)
    have "core_of d1 = set_obligation i ((abs_obligation ob)\<lparr>ob_pending := False\<rparr>) (core_of d)"
      unfolding d1 using core_of_update_obligation [OF row, of ?P "settle now"] in_ob(2) by (simp add: owed_def)
    moreover have "db_jobs d1 = db_jobs d" by (simp add: d1 update_obligations_def)
    ultimately have "core_of (d1\<lparr>db_jobs := update_where (\<lambda>j. j_id j = co_job_id ob \<and> j_status j = JobRunning) f (db_jobs d1)\<rparr>)
        = set_job (co_job_id ob) (abs_job (f j)) (set_obligation i ((abs_obligation ob)\<lparr>ob_pending := False\<rparr>) (core_of d))"
      using core_of_update_job [of d1 "co_job_id ob" j "\<lambda>j. j_id j = co_job_id ob \<and> j_status j = JobRunning" f]
        j row_of_Some [OF j(1)] f(1) by simp
    moreover have "core_step (core_of d) \<dots>"
      using core_step.requeue [of "core_of d" i "abs_obligation ob" "abs_job j"]
        core_step.settle_cancelled [of "core_of d" i "abs_obligation ob" "abs_job j"] row j in_ob(2)
      by (simp add: view_def owed_def f(2))
    ultimately show "core_step (core_of d) (core_of (d1\<lparr>db_jobs :=
        update_where (\<lambda>j. j_id j = co_job_id ob \<and> j_status j = JobRunning) f (db_jobs d1)\<rparr>))" by simp
  qed (use tab in \<open>simp add: schema_intros sch d1\<close>)
  show ?thesis
    unfolding complete_cleanup_def Let_def
    by (intro tx_intro) (auto intro!: upd)
qed

section \<open>Expiry always completes\<close>

lemma distinct_filter_update_where:
  assumes "\<And>r. P r \<Longrightarrow> g (f r) = g r" "\<And>r. P r \<Longrightarrow> Q (f r) \<Longrightarrow> Q r"
  shows "distinct (map g (filter Q t)) \<Longrightarrow> distinct (map g (filter Q (update_where P f t)))"
proof (induction t)
  case (Cons a t)
  have "set (map g (filter Q (update_where P f t))) \<subseteq> set (map g (filter Q t))"
    by (induction t) (auto simp: assms)
  moreover have "distinct (map g (filter Q t))" "Q a \<Longrightarrow> g a \<notin> set (map g (filter Q t))"
    using Cons.prems by (simp_all split: if_splits)
  ultimately show ?case
    using Cons.IH assms [of a] by (cases "P a") (simp_all, blast+)
qed simp

lemma attempt_table_ok_update:
  assumes "attempt_table_ok t" "\<And>a. a \<in> set t \<Longrightarrow> P a \<Longrightarrow> attempt_check (f a)"
    "\<And>a. (wa_attempt_id (f a), wa_trace_id (f a), wa_job_id (f a), wa_fencing_generation (f a), wa_task_submission_id (f a))
      = (wa_attempt_id a, wa_trace_id a, wa_job_id a, wa_fencing_generation a, wa_task_submission_id a)"
    "\<And>a. P a \<Longrightarrow> active (wa_status (f a)) \<Longrightarrow> active (wa_status a)"
  shows "attempt_table_ok (update_where P f t)"
  using assms
  by (auto simp: attempt_table_ok_def list_all_iff in_update_where map_update_where intro!: distinct_filter_update_where)

lemma expired_session_ok:
  assumes "session_table_ok t"
  shows "session_table_ok (update_where P (\<lambda>s. s\<lparr>ws_status := SessionOffline, ws_ended_at := Some now\<rparr>) t)"
proof -
  have "session_check s \<Longrightarrow> session_check (s\<lparr>ws_status := SessionOffline, ws_ended_at := Some now\<rparr>)" for s
    by (simp add: session_check_def)
  then show ?thesis
    using assms by (auto simp: session_table_ok_def list_all_iff in_update_where map_update_where live_session_def
      intro!: distinct_filter_update_where)
qed

lemma requeued_job_ok:
  assumes "job_table_ok t"
  shows "job_table_ok (update_where P requeue_job t)"
proof -
  have "job_check (requeue_job j) = job_check j" for j by (simp add: job_check_def requeue_job_def)
  then show ?thesis
    using assms by (auto simp: job_table_ok_def list_all_iff in_update_where map_update_where) (auto simp: requeue_job_def map_update_where)
qed

lemma discarded_event_ok:
  assumes "event_table_ok t"
  shows "event_table_ok (update_where P (discard_event reason now) t)"
proof -
  have "event_check e \<Longrightarrow> event_check (discard_event reason now e)" for e by (simp add: event_check_def discard_event_def)
  then show ?thesis
    using assms by (auto simp: event_table_ok_def list_all_iff in_update_where) (simp add: discard_event_def map_update_where)
qed

definition expired :: "worker_attempt \<Rightarrow> worker_attempt" where
  "expired a = a\<lparr>wa_projected_reliable_seq := wa_highest_contiguous_reliable_seq a, wa_status := AttemptExpired\<rparr>"

lemma expired_attempt_ok:
  assumes "attempt_table_ok t" "\<And>a. a \<in> set t \<Longrightarrow> P a \<Longrightarrow> \<not> terminal (wa_status a)"
  shows "attempt_table_ok (update_where P (\<lambda>a. a\<lparr>wa_projected_reliable_seq := wa_highest_contiguous_reliable_seq a\<rparr>) t)"
    "attempt_table_ok (update_where P (\<lambda>a. a\<lparr>wa_status := AttemptExpired\<rparr>) t)"
proof -
  have check: "attempt_check a" if "a \<in> set t" for a using assms(1) that by (simp add: attempt_table_ok_def list_all_iff)
  have "attempt_check (a\<lparr>wa_projected_reliable_seq := wa_highest_contiguous_reliable_seq a\<rparr>)" if "a \<in> set t" for a
    using check [OF that] by (auto simp: attempt_check_def)
  then show "attempt_table_ok (update_where P (\<lambda>a. a\<lparr>wa_projected_reliable_seq := wa_highest_contiguous_reliable_seq a\<rparr>) t)"
    by (intro attempt_table_ok_update [OF assms(1)]) simp_all
  have "attempt_check (a\<lparr>wa_status := AttemptExpired\<rparr>)" if "a \<in> set t" "P a" for a
    using check [OF that(1)] assms(2) [OF that] by (auto simp: attempt_check_def executing_def)
  then show "attempt_table_ok (update_where P (\<lambda>a. a\<lparr>wa_status := AttemptExpired\<rparr>) t)"
    by (intro attempt_table_ok_update [OF assms(1)]) simp_all
qed

lemma update_where_twice:
  "(\<And>r. P r \<Longrightarrow> P (g r)) \<Longrightarrow> update_where P f (update_where P g t) = update_where P (\<lambda>r. f (g r)) t"
  by (induction t) auto

lemma release_job_runs:
  assumes "schema_ok d"
  shows "\<exists>d'. (\<forall>k. release_job reason now row d k = k d') \<and> schema_ok d' \<and> db_attempts d' = db_attempts d"
proof (cases "wa_status row = AttemptOffered")
  case True
  let ?d = "d\<lparr>db_jobs := update_where (\<lambda>j. j_id j = wa_job_id row \<and> j_status j = JobClaimed) requeue_job (db_jobs d)\<rparr>"
  have "job_table_ok (db_jobs ?d)" using assms by (simp add: requeued_job_ok schema_ok_def)
  with True assms show ?thesis
    by (intro exI [of _ ?d]) (simp add: release_job_def update_jobs_def set_jobs_def schema_ok_update)
next
  case False
  let ?d = "insert_obligation (wa_worker_id row) (wa_worker_session_id row) (wa_attempt_id row)
    (wa_job_id row) (wa_status row = AttemptRunning) reason now d"
  have "db_attempts ?d = db_attempts d" by (simp add: insert_obligation_def)
  with False assms show ?thesis
    by (intro exI [of _ ?d]) (simp add: release_job_def schema_ok_insert_obligation)
qed

lemma expire_attempt_runs:
  assumes "schema_ok d" "\<And>a. a \<in> set (db_attempts d) \<Longrightarrow> wa_attempt_id a = wa_attempt_id row \<Longrightarrow> \<not> terminal (wa_status a)"
  shows "\<exists>d'. (\<forall>k :: db \<Rightarrow> 'a outcome. expire_attempt now row d k = k d') \<and> schema_ok d'
    \<and> db_attempts d' = update_where (\<lambda>a. wa_attempt_id a = wa_attempt_id row) expired (db_attempts d)"
proof -
  let ?P = "\<lambda>a. wa_attempt_id a = wa_attempt_id row"
  define d1 where "d1 = d\<lparr>db_events := update_where (\<lambda>e. we_attempt_id e = wa_attempt_id row \<and> we_projected_at e = None)
      (discard_event ''attempt lease expired before report projection'' now) (db_events d),
    db_progress := update_where (\<lambda>e. wp_attempt_id e = wa_attempt_id row \<and> wp_projected_at e = None)
      (discard_progress ''attempt lease expired before report projection'' now) (db_progress d),
    db_attempts := update_where ?P (\<lambda>a. a\<lparr>wa_projected_reliable_seq := wa_highest_contiguous_reliable_seq a\<rparr>) (db_attempts d)\<rparr>"
  define d2 where "d2 = d1\<lparr>db_attempts := update_where ?P (\<lambda>a. a\<lparr>wa_status := AttemptExpired\<rparr>) (db_attempts d1)\<rparr>"
  have tables: "attempt_table_ok (db_attempts d)" "event_table_ok (db_events d)" using assms(1) by (simp_all add: schema_ok_def)
  note one = expired_attempt_ok [OF tables(1), of ?P, OF assms(2)]
  have ok1: "attempt_table_ok (db_attempts d1)" "schema_ok d1"
    using assms(1) one(1) discarded_event_ok [OF tables(2)] by (simp_all add: d1_def schema_intros)
  have "\<not> terminal (wa_status a)" if "a \<in> set (db_attempts d1)" "wa_attempt_id a = wa_attempt_id row" for a
    using that assms(2) by (auto simp: d1_def in_update_where split: if_splits)
  note two = expired_attempt_ok(2) [OF ok1(1), of ?P, OF this]
  have "(\<lambda>a. a\<lparr>wa_projected_reliable_seq := wa_highest_contiguous_reliable_seq a, wa_status := AttemptExpired\<rparr>) = expired"
    by (simp add: expired_def fun_eq_iff)
  then have d2: "schema_ok d2" "db_attempts d2 = update_where ?P expired (db_attempts d)"
    using ok1(2) two by (simp_all add: d2_def schema_intros) (simp add: d1_def update_where_twice)
  obtain d3 where d3: "\<And>k :: db \<Rightarrow> 'a outcome. release_job ''lease expired while local execution may exist'' now row d2 k = k d3" "schema_ok d3"
    "db_attempts d3 = db_attempts d2" using release_job_runs [OF d2(1)] by blast
  have sessions: "session_table_ok (db_sessions d3)" using d3(2) by (simp add: schema_ok_def)
  define d4 where "d4 = d3\<lparr>db_sessions := update_where (\<lambda>s. ws_worker_session_id s = wa_worker_session_id row
            \<and> ws_status s \<notin> {SessionOffline, SessionDeregistered})
          (\<lambda>s. s\<lparr>ws_status := SessionOffline, ws_ended_at := Some now\<rparr>) (db_sessions d3)\<rparr>"
  have "expire_attempt now row d k = k d4" for k :: "db \<Rightarrow> 'a outcome"
    using one(1) two discarded_event_ok [OF tables(2)] expired_session_ok [OF sessions]
    unfolding expire_attempt_def discard_attempt_projection_def statement_eval set_events_def Let_def d4_def
    by (simp add: d3(1) d1_def [symmetric] d2_def [symmetric])
  moreover have "schema_ok d4" "db_attempts d4 = db_attempts d2"
    using schema_ok_update(1) [OF d3(2) expired_session_ok [OF sessions]] d3(3) by (simp_all add: d4_def)
  ultimately show ?thesis using d2(2) by (intro exI [of _ d4]) simp
qed

lemma expired_simps [simp]: "wa_attempt_id (expired a) = wa_attempt_id a" "wa_status (expired a) = AttemptExpired"
  "expired (expired a) = expired a"
  by (simp_all add: expired_def)

lemma expire_loop_runs:
  assumes "schema_ok d" "\<And>a. a \<in> set (db_attempts d) \<Longrightarrow> wa_attempt_id a \<in> wa_attempt_id ` set rows \<Longrightarrow> \<not> terminal (wa_status a)"
  shows "\<exists>d'. (\<forall>k :: db \<Rightarrow> 'a outcome. tx_for (expire_attempt now) rows d k = k d') \<and> schema_ok d'
    \<and> db_attempts d' = update_where (\<lambda>a. wa_attempt_id a \<in> wa_attempt_id ` set rows) expired (db_attempts d)"
  using assms
proof (induction rows arbitrary: d)
  case Nil
  then show ?case by (auto simp: update_where_none)
next
  case (Cons row rows)
  obtain d1 where d1: "\<And>k :: db \<Rightarrow> 'a outcome. expire_attempt now row d k = k d1" "schema_ok d1"
    "db_attempts d1 = update_where (\<lambda>a. wa_attempt_id a = wa_attempt_id row) expired (db_attempts d)"
    using expire_attempt_runs [OF Cons.prems(1), of row] Cons.prems(2) by fastforce
  have "\<not> terminal (wa_status a)" if "a \<in> set (db_attempts d1)" "wa_attempt_id a \<in> wa_attempt_id ` set rows" for a
    using that Cons.prems(2) by (auto simp: d1(3) in_update_where split: if_splits)
  from Cons.IH [OF d1(2) this] obtain d' where d': "\<And>k :: db \<Rightarrow> 'a outcome. tx_for (expire_attempt now) rows d1 k = k d'"
    "schema_ok d'" "db_attempts d' = update_where (\<lambda>a. wa_attempt_id a \<in> wa_attempt_id ` set rows) expired (db_attempts d1)"
    by blast
  have "update_where (\<lambda>a. wa_attempt_id a \<in> wa_attempt_id ` set rows) expired
      (update_where (\<lambda>a. wa_attempt_id a = wa_attempt_id row) expired t) =
    update_where (\<lambda>a. wa_attempt_id a \<in> wa_attempt_id ` set (row # rows)) expired t" for t
    by (induction t) auto
  with d1 d' show ?case by (intro exI [of _ d']) simp
qed

lemma expire_stale_runs:
  assumes "schema_ok d"
  shows "\<exists>d'. expire_stale_attempts now locked d
        = Commit (of_nat (length (filter (stale now locked) (db_attempts d)))) d'
    \<and> schema_ok d' \<and> db_attempts d' = update_where (stale now locked) expired (db_attempts d)
    \<and> filter (stale now locked) (db_attempts d') = []"
proof -
  let ?rows = "filter (stale now locked) (db_attempts d)"
  have same: "wa_attempt_id a \<in> wa_attempt_id ` set ?rows \<longleftrightarrow> stale now locked a" if "a \<in> set (db_attempts d)" for a
    using that row_of_in_set [OF schema_distinct(2) [OF assms]] by (auto simp: image_iff) (metis option.inject)
  then have "\<not> terminal (wa_status a)" if "a \<in> set (db_attempts d)" "wa_attempt_id a \<in> wa_attempt_id ` set ?rows" for a
    using that by (auto simp: stale_def active_def terminal_def)
  from expire_loop_runs [OF assms this] obtain d' where
    d': "\<And>k :: db \<Rightarrow> u64 outcome. tx_for (expire_attempt now) ?rows d k = k d'" "schema_ok d'"
      "db_attempts d' = update_where (\<lambda>a. wa_attempt_id a \<in> wa_attempt_id ` set ?rows) expired (db_attempts d)"
    by blast
  have "update_where (\<lambda>a. wa_attempt_id a \<in> wa_attempt_id ` set ?rows) expired (db_attempts d)
      = update_where (stale now locked) expired (db_attempts d)"
    unfolding update_where_def by (rule map_cong [OF refl]) (simp only: same)
  moreover have "filter (stale now locked) (update_where (stale now locked) expired t) = []" for t
    by (induction t) (auto simp: stale_def)
  ultimately show ?thesis
    using d' by (intro exI [of _ d']) (simp add: expire_stale_attempts_def Let_def)
qed

text \<open>C8: Expiring stale attempts never fails and leaves none behind: on tables that satisfy their
  constraints the transaction commits, its answer is the number of attempts whose offer or lease had run out, exactly those
  become expired with nothing left to project, and no stale attempt remains.\<close>

theorem expiry_completes:
  assumes "schema_ok d"
  shows "\<exists>d'. expire_stale_attempts now locked d
        = Commit (of_nat (length (filter (stale now locked) (db_attempts d)))) d'
    \<and> schema_ok d' \<and> db_attempts d' = update_where (stale now locked) expired (db_attempts d)
    \<and> filter (stale now locked) (db_attempts d') = []"
  by (rule expire_stale_runs [OF assms])

theorem expiry_completes_witness:
  "\<exists>d'. expire_stale_attempts 200000000 (\<lambda>_. False) running_db = Commit 1 d'
     \<and> map wa_status (db_attempts d') = [AttemptExpired]"
  using expiry_completes [OF sample_schema_ok(3), of 200000000 "\<lambda>_. False"]
  by (auto simp: sample_states sample_attempt_def stale_def expired_def)

section \<open>Cleanup happens once\<close>

lemma complete_cleanup_commit:
  assumes "complete_cleanup w s i now d = Commit b d'"
  obtains ob where "find (owed w s i now d) (db_obligations d) = Some ob" "b = True" "db_sessions d' = db_sessions d"
    "db_obligations d' = update_where (owed w s i now d) (settle now) (db_obligations d)"
    "db_jobs d' = update_where (\<lambda>j. j_id j = co_job_id ob \<and> j_status j = JobRunning)
      (if co_requeue_job ob then requeue_job else (\<lambda>j. j\<lparr>j_status := JobCancelled\<rparr>)) (db_jobs d)"
proof -
  obtain ob where ob: "find (owed w s i now d) (db_obligations d) = Some ob"
    using assms by (auto simp: complete_cleanup_def Let_def split: option.splits if_splits)
  then show ?thesis
    using assms that [OF ob]
    by (auto simp: complete_cleanup_def Let_def update_jobs_def set_jobs_def update_obligations_def insert_job_event_def
        split: if_splits)
qed

text \<open>C19: A cleanup commits only for a pending obligation of the reporting worker. It settles the obligation and
  takes its job out of the running state, back into the queue without a claim, or to cancelled when the job must not be run
  again; reporting the same cleanup again is answered with success and changes nothing.\<close>

theorem cleanup_settles_once:
  assumes "complete_cleanup w s i now d = Commit b d'" "well_formed d"
  shows "b \<and> (\<exists>ob j. row_of co_id (db_obligations d) i = Some ob \<and> co_worker_id ob = w \<and> co_status ob = CleanupPending
    \<and> row_of j_id (db_jobs d) (co_job_id ob) = Some j \<and> j_status j = JobRunning
    \<and> row_of co_id (db_obligations d') i = Some (settle now ob)
    \<and> row_of j_id (db_jobs d') (co_job_id ob)
        = Some (if co_requeue_job ob then requeue_job j else j\<lparr>j_status := JobCancelled\<rparr>)
    \<and> complete_cleanup w s i later d'
        = (if current_session w s later d then Rollback True else Error FleetSessionInactive))"
proof -
  note sch = wfD(1) [OF assms(2)]
  from assms(1) obtain ob where ob: "find (owed w s i now d) (db_obligations d) = Some ob" and b: "b = True"
    and same: "db_sessions d' = db_sessions d"
    and obs: "db_obligations d' = update_where (owed w s i now d) (settle now) (db_obligations d)"
    and jobs: "db_jobs d' = update_where (\<lambda>j. j_id j = co_job_id ob \<and> j_status j = JobRunning)
      (if co_requeue_job ob then requeue_job else (\<lambda>j. j\<lparr>j_status := JobCancelled\<rparr>)) (db_jobs d)"
    by (rule complete_cleanup_commit)
  have owed: "co_id ob = i" "co_worker_id ob = w" "co_status ob = CleanupPending" "owed w s i now d ob"
    using find_conv [OF ob] by (auto simp: owed_def)
  then have row: "row_of co_id (db_obligations d) i = Some ob"
    using row_of_in_set [OF schema_distinct(5) [OF sch]] find_conv [OF ob] by blast
  obtain j where j: "row_of j_id (db_jobs d) (co_job_id ob) = Some j" "j_status j = JobRunning"
    using wf_obligation [OF assms(2) row] owed(3) by metis
  have settled: "row_of co_id (db_obligations d') i = Some (settle now ob)"
    using row owed(4) by (simp add: obs row_of_update_where settle_def)
  have "schema_ok d'"
    using complete_cleanup_refines [OF assms(2), of w s i now] assms(1) by (simp add: ensures_def refines_def)
  then have only: "ob' = settle now ob" if "ob' \<in> set (db_obligations d')" "co_id ob' = i" for ob'
    using row_of_in_set [OF schema_distinct(5) that(1)] that(2) settled by simp
  have "find (owed w s i later d') (db_obligations d') = None"
    using only by (fastforce simp: find_None_iff owed_def settle_def)
  moreover have "list_ex (\<lambda>ob. co_worker_id ob = w \<and> co_id ob = i \<and> co_status ob = CleanupCompleted) (db_obligations d')"
    using row_of_Some [OF settled] owed unfolding list_ex_iff by (intro bexI [of _ "settle now ob"]) (simp_all add: settle_def)
  moreover have "current_session w s later d' = current_session w s later d"
    by (simp add: current_session_def same)
  ultimately have "complete_cleanup w s i later d' = (if current_session w s later d then Rollback True else Error FleetSessionInactive)"
    by (simp add: complete_cleanup_def)
  moreover have "row_of j_id (db_jobs d') (co_job_id ob) = Some (if co_requeue_job ob then requeue_job j else j\<lparr>j_status := JobCancelled\<rparr>)"
    using j row_of_Some [OF j(1)] by (simp add: jobs row_of_update_where)
  ultimately show ?thesis using b row owed j settled by blast
qed

theorem cleanup_settles_once_witness:
  "\<exists>d'. complete_cleanup 1 2 1 50 fenced_db = Commit True d'
     \<and> row_of j_id (db_jobs d') 5 = Some (requeue_job (sample_job JobRunning))
     \<and> complete_cleanup 1 2 1 60 d' = Rollback True"
proof -
  obtain d' where tx: "complete_cleanup 1 2 1 50 fenced_db = Commit True d'"
    by (simp add: complete_cleanup_def owed_def current_session_def sample_states sample_rows live_session_def Let_def
        update_obligations_def statement_eval table_checks requeue_job_def)
  from cleanup_settles_once [OF tx sample_well_formed(4), of 60] tx show ?thesis
    by (auto simp: sample_states sample_rows current_session_def live_session_def)
qed

section \<open>Granted cancellations\<close>

definition cancellation_granted :: "uuid \<Rightarrow> db \<Rightarrow> bool" where
  "cancellation_granted i d \<longleftrightarrow>
     (\<exists>j \<in> set (db_jobs d). j_id j = i \<and> j_status j = JobCancelled)
     \<or> (\<exists>a \<in> set (db_attempts d). wa_job_id a = i \<and> wa_status a = AttemptCancelRequested)
     \<or> (\<exists>ob \<in> set (db_obligations d). co_job_id ob = i \<and> co_status ob = CleanupPending \<and> \<not> co_requeue_job ob)"

lemma yields_cancel_job:
  assumes "\<And>n. n \<in> set ids \<Longrightarrow> \<exists>ob \<in> set (db_obligations d). co_id ob = n \<and> co_job_id ob = i \<and> co_status ob = CleanupPending"
  shows "yields (\<lambda>b d'. b = Some True \<longrightarrow> cancellation_granted i d') (cancel_job now i st ids d Commit)"
proof -
  have "cancellation_granted i (d\<lparr>db_jobs := update_where (unstarted i) cancel_unstarted (db_jobs d)\<rparr>)"
    if one: "affected (unstarted i) (db_jobs d) = 1"
  proof -
    obtain j where "j \<in> set (db_jobs d)" "unstarted i j"
      using one affected_zero [of "unstarted i" "db_jobs d"] by (metis zero_neq_one)
    then have "cancel_unstarted j \<in> set (update_where (unstarted i) cancel_unstarted (db_jobs d))"
      "j_id (cancel_unstarted j) = i" "j_status (cancel_unstarted j) = JobCancelled"
      by (auto simp: in_update_where unstarted_def cancel_unstarted_def)
    then show ?thesis by (auto simp: cancellation_granted_def)
  qed
  moreover have "cancellation_granted i (update_obligations (\<lambda>ob. co_id ob \<in> set ids) stop_requeue d)" if ids: "ids \<noteq> []"
  proof -
    obtain ob where "ob \<in> set (db_obligations d)" "co_id ob \<in> set ids" "co_job_id ob = i" "co_status ob = CleanupPending"
      using assms [OF hd_in_set [OF ids]] hd_in_set [OF ids] by auto
    then have "stop_requeue ob \<in> set (db_obligations (update_obligations (\<lambda>ob. co_id ob \<in> set ids) stop_requeue d))"
      "co_job_id (stop_requeue ob) = i" "co_status (stop_requeue ob) = CleanupPending" "\<not> co_requeue_job (stop_requeue ob)"
      by (auto simp: in_update_where update_obligations_def stop_requeue_def)
    then show ?thesis by (auto simp: cancellation_granted_def)
  qed
  ultimately show ?thesis
    unfolding cancel_job_def
    by (intro yield_intro) (auto simp: cancellation_granted_def insert_job_event_def)
qed

lemma request_cancel_granted:
  "yields (\<lambda>b d'. b = Some True \<longrightarrow> cancellation_granted i d') (request_cancel i now d)"
proof -
  let ?ids = "map co_id (sort_key co_id (filter (\<lambda>ob. co_job_id ob = i \<and> co_status ob = CleanupPending) (db_obligations d)))"
  have cancel: "yields (\<lambda>b d'. b = Some True \<longrightarrow> cancellation_granted i d') (cancel_job now i st ?ids d1 Commit)"
    if "db_obligations d1 = db_obligations d" for st d1
    by (rule yields_cancel_job) (auto simp: that)
  have asked: "cancellation_granted i (d\<lparr>db_attempts := update_where (\<lambda>r. wa_attempt_id r = wa_attempt_id a)
      (\<lambda>r. r\<lparr>wa_status := AttemptCancelRequested\<rparr>) (db_attempts d)\<rparr>)"
    if "find (\<lambda>a. wa_job_id a = i \<and> active (wa_status a)) (db_attempts d) = Some a" for a
  proof -
    have "a\<lparr>wa_status := AttemptCancelRequested\<rparr> \<in> set (update_where (\<lambda>r. wa_attempt_id r = wa_attempt_id a)
        (\<lambda>r. r\<lparr>wa_status := AttemptCancelRequested\<rparr>) (db_attempts d))" "wa_job_id a = i"
      using find_conv [OF that] by (auto simp: in_update_where)
    then show ?thesis
      unfolding cancellation_granted_def by (intro disjI2 disjI1 bexI [of _ "a\<lparr>wa_status := AttemptCancelRequested\<rparr>"]) simp_all
  qed
  have already: "cancellation_granted i d" if "row_of j_id (db_jobs d) i = Some j" "j_status j = JobCancelled" for j
    using row_of_Some [OF that(1)] that(2) by (auto simp: cancellation_granted_def)
  show ?thesis
    unfolding request_cancel_def cancellation_request_def Let_def discard_attempt_projection_def
    by (intro yield_intro cancel) (auto intro: asked already)
qed

lemma doomed_granted:
  assumes "well_formed d" "cancellation_granted i d"
  shows "doomed (core_of d) i"
proof (rule doomedI [OF wfD(2) [OF assms(1)]])
  note sch = wfD(1) [OF assms(1)]
  have "\<exists>job. c_jobs (core_of d) i = Some job \<and> jc_status job = JobCancelled"
    if "j \<in> set (db_jobs d)" "j_id j = i" "j_status j = JobCancelled" for j
    using row_of_in_set [OF schema_distinct(4) [OF sch] that(1)] that by (simp add: view_def)
  moreover have "\<exists>a att. c_attempts (core_of d) a = Some att \<and> at_job att = i \<and> at_status att = AttemptCancelRequested"
    if "a \<in> set (db_attempts d)" "wa_job_id a = i" "wa_status a = AttemptCancelRequested" for a
    using row_of_in_set [OF schema_distinct(2) [OF sch] that(1)] that
    by (intro exI [of _ "wa_attempt_id a"] exI [of _ "abs_attempt a"]) (simp add: view_def)
  moreover have "\<exists>n obl. c_obligations (core_of d) n = Some obl \<and> ob_job obl = i \<and> ob_pending obl \<and> \<not> ob_requeue obl"
    if "ob \<in> set (db_obligations d)" "co_job_id ob = i" "co_status ob = CleanupPending" "\<not> co_requeue_job ob" for ob
    using row_of_in_set [OF schema_distinct(5) [OF sch] that(1)] that
    by (intro exI [of _ "co_id ob"] exI [of _ "abs_obligation ob"]) (simp add: view_def)
  ultimately show "(\<exists>job. c_jobs (core_of d) i = Some job \<and> jc_status job = JobCancelled)
     \<or> (\<exists>a att. c_attempts (core_of d) a = Some att \<and> at_job att = i \<and> at_status att = AttemptCancelRequested)
     \<or> (\<exists>n obl. c_obligations (core_of d) n = Some obl \<and> ob_job obl = i \<and> ob_pending obl \<and> \<not> ob_requeue obl)"
    using assms(2) unfolding cancellation_granted_def by blast
qed

lemma request_cancel_dooms:
  assumes "well_formed d" "request_cancel i now d = Commit True d'"
  shows "doomed (core_of d') i" "well_formed d'"
proof -
  show "well_formed d'"
    using request_cancel_refines [OF assms(1), of i now] assms(1,2) by (auto simp: ensures_def intro: refines_wf)
  then show "doomed (core_of d') i"
    using yields_Commit [OF request_cancel_granted assms(2)] by (intro doomed_granted) simp_all
qed

end
