(* ===== verification/Fleet_Store_Sessions.thy ===== *)
theory Fleet_Store_Sessions
  imports Fleet_Store_Fencing
begin

text \<open>
  The worker registry, its identities and the worker sessions (\<open>stores/fleet.rs\<close>,
  \<open>WorkerRegistryStore\<close> and the first operations of \<open>FleetStore\<close>). A worker has at most one live
  session; registering a new one fences whatever its predecessor was doing, and re-registering the
  same session recovers it only when nothing newer exists.
\<close>

section \<open>The registry\<close>

record worker_registration =
  wn_worker_id :: uuid
  wn_display_name :: string
  wn_allowed_capabilities :: "worker_capability list"
  wn_measurement_profile :: "string option"
  wn_enabled :: bool
  wn_draining :: bool

record worker_policy_patch =
  pt_display_name :: "string option"
  pt_allowed_capabilities :: "worker_capability list option"
  pt_measurement_profile :: "string option option"
  pt_enabled :: "bool option"

datatype worker_registry_mutation =
    RegistryApplied | RegistryUnchanged | RegistryNotFound | RegistryBusy
  | RegistryMissingIdentity | RegistryConflict

definition capability_names :: "worker_capability list \<Rightarrow> string list" where
  "capability_names values = sort (remdups (map capability_as_str values))"

definition registry_check :: "worker_registry \<Rightarrow> bool" where
  "registry_check r \<longleftrightarrow> wr_allowed_capabilities r \<noteq> [] \<and> 0 \<le> wr_lifecycle_generation r
     \<and> (case wr_measurement_profile r of None \<Rightarrow> True
        | Some p \<Rightarrow> 1 \<le> length (utf8_chars p) \<and> length (utf8_chars p) \<le> 128)"

definition set_registry :: "worker_registry list \<Rightarrow> db \<Rightarrow> (db \<Rightarrow> 'a outcome) \<Rightarrow> 'a outcome" where
  "set_registry t d k = (if list_all registry_check t then k (d\<lparr>db_registry := t\<rparr>) else Error Database)"

definition create_worker :: "worker_registration \<Rightarrow> db \<Rightarrow> worker_registry_mutation outcome" where
  "create_worker worker d =
     (let capabilities = capability_names (wn_allowed_capabilities worker);
          row = \<lparr>wr_worker_id = wn_worker_id worker, wr_display_name = wn_display_name worker,
            wr_allowed_capabilities = capabilities, wr_measurement_profile = wn_measurement_profile worker,
            wr_enabled = wn_enabled worker, wr_draining = wn_draining worker,
            wr_lifecycle_generation = 0, wr_shutdown_session_id = None\<rparr>
      in protocol_lock_policy d (\<lambda>_.
         if \<not> registry_check row then Error Database
         else case row_of wr_worker_id (db_registry d) (wn_worker_id worker) of
           None \<Rightarrow> Commit RegistryApplied (d\<lparr>db_registry := db_registry d @ [row]\<rparr>)
         | Some existing \<Rightarrow>
           Commit (if wr_display_name existing = wn_display_name worker
               \<and> wr_allowed_capabilities existing = capabilities
               \<and> wr_measurement_profile existing = wn_measurement_profile worker
               \<and> wr_enabled existing = wn_enabled worker
               \<and> wr_draining existing = wn_draining worker
             then RegistryUnchanged else RegistryConflict) d))"

definition unwrap_or :: "'a option \<Rightarrow> 'a \<Rightarrow> 'a" where
  "unwrap_or opt alt = (case opt of None \<Rightarrow> alt | Some x \<Rightarrow> x)"

definition end_idle_sessions :: "instant \<Rightarrow> (worker_session \<Rightarrow> bool) \<Rightarrow> db \<Rightarrow> (db \<Rightarrow> 'a outcome) \<Rightarrow> 'a outcome" where
  "end_idle_sessions now P =
     update_sessions (\<lambda>s. P s \<and> ws_status s \<in> {SessionRegistered, SessionIdle, SessionDraining})
       (\<lambda>s. s\<lparr>ws_status := SessionOffline, ws_ended_at := Some now\<rparr>)"

definition has_identity :: "uuid \<Rightarrow> db \<Rightarrow> bool" where
  "has_identity worker_id d =
     list_ex (\<lambda>i. wk_worker_id i = worker_id \<and> wk_revoked_at i = None) (db_identities d)"

definition update_worker ::
  "uuid \<Rightarrow> worker_policy_patch \<Rightarrow> instant \<Rightarrow> db \<Rightarrow> worker_registry_mutation outcome" where
  "update_worker worker_id patch now d =
     protocol_lock_policy d (\<lambda>_.
     case row_of wr_worker_id (db_registry d) worker_id of
       None \<Rightarrow> Rollback RegistryNotFound
     | Some current \<Rightarrow>
       let next_capabilities = unwrap_or (map_option capability_names (pt_allowed_capabilities patch))
             (wr_allowed_capabilities current);
           next_profile = unwrap_or (pt_measurement_profile patch) (wr_measurement_profile current);
           next_enabled = unwrap_or (pt_enabled patch) (wr_enabled current);
           sensitive = (next_capabilities \<noteq> wr_allowed_capabilities current
             \<or> next_profile \<noteq> wr_measurement_profile current \<or> next_enabled \<noteq> wr_enabled current);
           mine = (\<lambda>r. wr_worker_id r = worker_id)
       in if ''benchmark'' \<in> set next_capabilities \<and> (next_profile = None \<or> next_profile = Some [])
          then Rollback RegistryConflict
          else if sensitive \<and> (\<not> wr_draining current \<or> worker_busy d worker_id)
          then Rollback RegistryBusy
          else if next_enabled \<and> \<not> has_identity worker_id d then Rollback RegistryMissingIdentity
          else set_registry (update_where mine (\<lambda>r. r\<lparr>
                 wr_display_name := unwrap_or (pt_display_name patch) (wr_display_name current),
                 wr_allowed_capabilities := next_capabilities, wr_measurement_profile := next_profile,
                 wr_enabled := next_enabled\<rparr>) (db_registry d)) d (\<lambda>d1.
               let applied = (if affected mine (db_registry d) = 1 then RegistryApplied else RegistryNotFound)
               in if sensitive then end_idle_sessions now (\<lambda>s. ws_worker_id s = worker_id) d1 (Commit applied)
                  else Commit applied d1))"

section \<open>Identities\<close>

definition identity_check :: "worker_identity_key \<Rightarrow> bool" where
  "identity_check i \<longleftrightarrow> (case wk_revoked_at i of None \<Rightarrow> True | Some t \<Rightarrow> t \<ge> wk_created_at i)"

definition set_identities :: "worker_identity_key list \<Rightarrow> db \<Rightarrow> (db \<Rightarrow> 'a outcome) \<Rightarrow> 'a outcome" where
  "set_identities t d k = (if list_all identity_check t then k (d\<lparr>db_identities := t\<rparr>) else Error Database)"

definition authorize_identity ::
  "uuid \<Rightarrow> string \<Rightarrow> instant \<Rightarrow> db \<Rightarrow> worker_registry_mutation outcome" where
  "authorize_identity worker_id digest now d =
     (if row_of wr_worker_id (db_registry d) worker_id = None then Rollback RegistryNotFound
      else case row_of wk_identity_key_sha256 (db_identities d) digest of
        None \<Rightarrow> Commit RegistryApplied (d\<lparr>db_identities := db_identities d @
          [\<lparr>wk_identity_key_sha256 = digest, wk_worker_id = worker_id, wk_created_at = now,
            wk_revoked_at = None\<rparr>]\<rparr>)
      | Some existing \<Rightarrow>
        Commit (if wk_worker_id existing = worker_id \<and> wk_revoked_at existing = None
          then RegistryUnchanged else RegistryConflict) d)"

definition revoke_identity ::
  "uuid \<Rightarrow> string \<Rightarrow> instant \<Rightarrow> db \<Rightarrow> worker_registry_mutation outcome" where
  "revoke_identity worker_id digest now d =
     (case (find (\<lambda>i. wk_worker_id i = worker_id \<and> wk_identity_key_sha256 i = digest) (db_identities d),
            row_of wr_worker_id (db_registry d) worker_id) of
        (Some identity, Some registry) \<Rightarrow>
          if wk_revoked_at identity \<noteq> None then Rollback RegistryUnchanged
          else
            let used = list_ex (\<lambda>s. ws_worker_id s = worker_id \<and> ws_identity_key_sha256 s = digest
                  \<and> live_session (ws_status s)) (db_sessions d);
                final = (affected (\<lambda>i. wk_worker_id i = worker_id \<and> wk_revoked_at i = None) (db_identities d) = 1
                  \<and> wr_enabled registry);
                revoke = (\<lambda>d1. set_identities (update_where (\<lambda>i. wk_identity_key_sha256 i = digest)
                  (\<lambda>i. i\<lparr>wk_revoked_at := Some now\<rparr>) (db_identities d1)) d1 (Commit RegistryApplied))
            in if (used \<or> final) \<and> (\<not> wr_draining registry \<or> worker_busy d worker_id)
               then Rollback RegistryBusy
               else if used
               then end_idle_sessions now (\<lambda>s. ws_worker_id s = worker_id \<and> ws_identity_key_sha256 s = digest) d revoke
               else revoke d
      | _ \<Rightarrow> Rollback RegistryNotFound)"

definition lease_holder :: "uuid \<Rightarrow> string option \<Rightarrow> db \<Rightarrow> worker_attempt \<Rightarrow> bool" where
  "lease_holder worker_id digest d a \<longleftrightarrow> wa_worker_id a = worker_id \<and> active (wa_status a)
     \<and> list_ex (\<lambda>s. ws_worker_session_id s = wa_worker_session_id a
          \<and> (digest = None \<or> digest = Some (ws_identity_key_sha256 s))) (db_sessions d)"

definition cut_lease :: "instant \<Rightarrow> worker_attempt \<Rightarrow> worker_attempt" where
  "cut_lease now a = a\<lparr>wa_offer_expires_at := min (wa_offer_expires_at a) now,
     wa_lease_expires_at := min (wa_lease_expires_at a) now\<rparr>"

definition expire_worker_leases ::
  "uuid \<Rightarrow> string option \<Rightarrow> instant \<Rightarrow> db \<Rightarrow> (db \<Rightarrow> 'a outcome) \<Rightarrow> 'a outcome" where
  "expire_worker_leases worker_id digest now d k =
     update_attempts (lease_holder worker_id digest d) (cut_lease now) d (\<lambda>d1.
     update_sessions (\<lambda>s. ws_worker_id s = worker_id \<and> (digest = None \<or> digest = Some (ws_identity_key_sha256 s))
         \<and> live_session (ws_status s))
       (\<lambda>s. s\<lparr>ws_expires_at := min (ws_expires_at s) now,
             ws_status := (if ws_status s \<in> {SessionRegistered, SessionIdle, SessionDraining}
               then SessionDraining else ws_status s)\<rparr>) d1 k)"

definition emergency_disable_worker ::
  "uuid \<Rightarrow> instant \<Rightarrow> db \<Rightarrow> worker_registry_mutation outcome" where
  "emergency_disable_worker worker_id now d =
     (let mine = (\<lambda>r. wr_worker_id r = worker_id)
      in set_registry (update_where mine (\<lambda>r. r\<lparr>wr_enabled := False, wr_draining := True\<rparr>) (db_registry d)) d (\<lambda>d1.
         if affected mine (db_registry d) = 0 then Rollback RegistryNotFound
         else expire_worker_leases worker_id None now d1 (Commit RegistryApplied)))"

definition emergency_revoke_identity ::
  "uuid \<Rightarrow> string \<Rightarrow> instant \<Rightarrow> db \<Rightarrow> worker_registry_mutation outcome" where
  "emergency_revoke_identity worker_id digest now d =
     (let mine = (\<lambda>i. wk_worker_id i = worker_id \<and> wk_identity_key_sha256 i = digest);
          unrevoked = (\<lambda>i. mine i \<and> wk_revoked_at i = None)
      in set_identities (update_where unrevoked (\<lambda>i. i\<lparr>wk_revoked_at := Some now\<rparr>) (db_identities d)) d (\<lambda>d1.
         if affected unrevoked (db_identities d) = 0
         then Rollback (case find mine (db_identities d1) of
             None \<Rightarrow> RegistryNotFound
           | Some i \<Rightarrow> if wk_revoked_at i \<noteq> None then RegistryUnchanged else RegistryNotFound)
         else expire_worker_leases worker_id (Some digest) now d1 (Commit RegistryApplied)))"

definition worker_identities :: "uuid \<Rightarrow> db \<Rightarrow> worker_identity_key list" where
  "worker_identities worker_id d =
     sort_key (\<lambda>i. (wk_created_at i, wk_identity_key_sha256 i))
       (filter (\<lambda>i. wk_worker_id i = worker_id) (db_identities d))"

record worker_authorization =
  wz_worker_id :: uuid
  wz_allowed_capabilities :: "worker_capability list"
  wz_measurement_profile :: "string option"
  wz_draining :: bool

fun all_capabilities :: "string list \<Rightarrow> store_error + worker_capability list" where
  "all_capabilities [] = Inr []"
| "all_capabilities (v # vs) =
     and_then (capability v) (\<lambda>c. and_then (all_capabilities vs) (\<lambda>cs. Inr (c # cs)))"

definition authorize_worker :: "string \<Rightarrow> db \<Rightarrow> store_error + worker_authorization option" where
  "authorize_worker digest d =
     (case find (\<lambda>r. wr_enabled r \<and> list_ex (\<lambda>i. wk_worker_id i = wr_worker_id r
            \<and> wk_identity_key_sha256 i = digest \<and> wk_revoked_at i = None) (db_identities d)) (db_registry d) of
        None \<Rightarrow> Inr None
      | Some r \<Rightarrow> and_then (all_capabilities (wr_allowed_capabilities r)) (\<lambda>capabilities.
          Inr (Some \<lparr>wz_worker_id = wr_worker_id r, wz_allowed_capabilities = capabilities,
            wz_measurement_profile = wr_measurement_profile r, wz_draining = wr_draining r\<rparr>)))"

record worker_registry_entry =
  en_registry :: worker_registry
  en_session :: "worker_session option"
  en_attempt :: "(uuid \<times> uuid \<times> uuid) option"

definition workers :: "uuid option \<Rightarrow> db \<Rightarrow> worker_registry_entry list" where
  "workers worker_id d =
     map (\<lambda>r. \<lparr>en_registry = r,
         en_session = latest_by ws_started_at (filter (\<lambda>s. ws_worker_id s = wr_worker_id r) (db_sessions d)),
         en_attempt = map_option (\<lambda>a. (wa_attempt_id a, wa_job_id a, wa_trace_id a))
           (latest_by wa_created_at (filter (\<lambda>a. wa_worker_id a = wr_worker_id r \<and> active (wa_status a))
             (db_attempts d)))\<rparr>)
       (sort_key (\<lambda>r. (wr_display_name r, wr_worker_id r))
         (filter (\<lambda>r. worker_id = None \<or> worker_id = Some (wr_worker_id r)) (db_registry d)))"

section \<open>Sessions\<close>

record authorized_session =
  az_protocol_contract :: protocol_contract
  az_worker_id :: uuid
  az_worker_session_id :: uuid
  az_effective_capabilities :: "worker_capability list"
  az_measurement_profile :: "string option"
  az_draining :: bool
  az_expires_at :: instant

text \<open>The iteration order of \<open>BTreeSet<WorkerCapability>\<close>.\<close>

definition capability_list :: "worker_capability set \<Rightarrow> worker_capability list" where
  "capability_list s = filter (\<lambda>c. c \<in> s) [Benchmark, BuildOnly, BlockValidation]"

definition same_facts :: "string \<Rightarrow> register_session_request \<Rightarrow> worker_session \<Rightarrow> bool" where
  "same_facts digest request s \<longleftrightarrow>
     ws_protocol_version s = rr_protocol_version request
     \<and> ws_protocol_offer s = rr_protocol_offer request
     \<and> ws_preflight_report s = rr_preflight request
     \<and> ws_software_version s = rr_software_version request
     \<and> ws_advertised_capabilities s = capability_names (capability_list (rr_advertised_capabilities request))
     \<and> ws_resource_facts s = rr_resources request
     \<and> ws_identity_key_sha256 s = digest"

definition superseded :: "uuid \<Rightarrow> uuid \<Rightarrow> instant \<Rightarrow> db \<Rightarrow> bool" where
  "superseded worker_id sess_id now d \<longleftrightarrow>
     list_ex (\<lambda>current. ws_worker_session_id current = sess_id \<and>
       list_ex (\<lambda>other. ws_worker_id other = worker_id \<and> ws_worker_session_id other \<noteq> sess_id
         \<and> (ws_started_at other \<ge> ws_started_at current
            \<or> ws_ended_at other = None \<and> ws_expires_at other > now)) (db_sessions d)) (db_sessions d)"

definition authorized ::
  "protocol_contract \<Rightarrow> uuid \<Rightarrow> uuid \<Rightarrow> string list \<Rightarrow> worker_registry \<Rightarrow> instant \<Rightarrow> db
     \<Rightarrow> authorized_session outcome" where
  "authorized contract worker_id sess_id effective policy expires_at d =
     (case all_capabilities effective of
        Inl e \<Rightarrow> CommitError e d
      | Inr capabilities \<Rightarrow> Commit \<lparr>az_protocol_contract = contract, az_worker_id = worker_id,
          az_worker_session_id = sess_id, az_effective_capabilities = capabilities,
          az_measurement_profile = wr_measurement_profile policy, az_draining = wr_draining policy,
          az_expires_at = expires_at\<rparr> d)"

definition recover_session ::
  "uuid \<Rightarrow> string \<Rightarrow> register_session_request \<Rightarrow> protocol_offer \<Rightarrow> protocol_policy \<Rightarrow> worker_registry
     \<Rightarrow> string list \<Rightarrow> worker_session \<Rightarrow> instant \<Rightarrow> instant \<Rightarrow> db \<Rightarrow> authorized_session outcome" where
  "recover_session worker_id digest request offer protocol_policy policy effective existing expires_at now d =
     (let sess_id = rr_worker_session_id request; persisted = ws_protocol_contract existing;
          recovering = (ws_status existing = SessionOffline \<or> ws_expires_at existing \<le> now)
      in if \<not> same_facts digest request existing then Error (SessionRegistration FactsChanged)
         else case validate_selection offer persisted of
           Inl e \<Rightarrow> Error (Config (negotiation_error_to_string e))
         | Inr _ \<Rightarrow>
         if pc_revision persisted < pp_minimum_revision protocol_policy
         then Error (SessionRegistration ProtocolIncompatible)
         else if ws_status existing = SessionDeregistered \<or> superseded worker_id sess_id now d
         then Error (SessionRegistration Superseded)
         else if recovering \<and> list_ex (\<lambda>a. wa_worker_id a = worker_id \<and> active (wa_status a)) (db_attempts d)
         then Error (SessionRegistration RecoveryPending)
         else update_sessions (\<lambda>s. ws_worker_session_id s = sess_id)
             (\<lambda>s. s\<lparr>ws_expires_at := expires_at, ws_last_heartbeat_at := now,
                   ws_effective_capabilities := effective,
                   ws_status := (if wr_draining policy then SessionDraining
                     else if recovering then SessionIdle else ws_status s),
                   ws_ended_at := None\<rparr>) d (\<lambda>d1.
           authorized persisted worker_id sess_id effective policy expires_at d1))"

definition fence_predecessor ::
  "instant \<Rightarrow> worker_attempt \<Rightarrow> db \<Rightarrow> (db \<Rightarrow> 'a outcome) \<Rightarrow> 'a outcome" where
  "fence_predecessor now row d k =
     discard_attempt_projection (wa_attempt_id row) ''predecessor worker session was fenced'' now d (\<lambda>d1.
     update_attempts (\<lambda>a. wa_attempt_id a = wa_attempt_id row) (\<lambda>a. a\<lparr>wa_status := AttemptFenced\<rparr>) d1 (\<lambda>d2.
     release_job ''worker process registered a successor session'' now row d2 k))"

definition new_session ::
  "uuid \<Rightarrow> string \<Rightarrow> register_session_request \<Rightarrow> protocol_contract \<Rightarrow> string list \<Rightarrow> bool \<Rightarrow> instant
     \<Rightarrow> instant \<Rightarrow> worker_session" where
  "new_session worker_id digest request contract effective draining expires_at now = \<lparr>
     ws_worker_session_id = rr_worker_session_id request, ws_worker_id = worker_id,
     ws_status = (if draining then SessionDraining else SessionRegistered),
     ws_protocol_version = rr_protocol_version request, ws_software_version = rr_software_version request,
     ws_advertised_capabilities = capability_names (capability_list (rr_advertised_capabilities request)),
     ws_effective_capabilities = effective, ws_resource_facts = rr_resources request,
     ws_reliable_buffer_len = 0, ws_started_at = now, ws_last_heartbeat_at = now,
     ws_expires_at = expires_at, ws_ended_at = None, ws_identity_key_sha256 = digest,
     ws_protocol_offer = rr_protocol_offer request, ws_protocol_contract = contract,
     ws_preflight_report = rr_preflight request\<rparr>"

definition take_offline :: "instant \<Rightarrow> worker_session \<Rightarrow> worker_session" where
  "take_offline now s = s\<lparr>ws_status := SessionOffline, ws_ended_at := Some now\<rparr>"

definition start_session ::
  "uuid \<Rightarrow> string \<Rightarrow> register_session_request \<Rightarrow> protocol_contract \<Rightarrow> worker_registry \<Rightarrow> string list
     \<Rightarrow> instant \<Rightarrow> instant \<Rightarrow> db \<Rightarrow> authorized_session outcome" where
  "start_session worker_id digest request contract policy effective expires_at now d =
     (let sess_id = rr_worker_session_id request
      in update_sessions (\<lambda>s. ws_worker_id s = worker_id \<and> live_session (ws_status s) \<and> ws_expires_at s \<le> now)
           (take_offline now) d (\<lambda>d1.
         let predecessors = filter (\<lambda>a. wa_worker_id a = worker_id \<and> wa_worker_session_id a \<noteq> sess_id
               \<and> active (wa_status a)) (db_attempts d1)
         in tx_for (fence_predecessor now) predecessors d1 (\<lambda>d2.
            update_sessions (\<lambda>s. ws_worker_id s = worker_id \<and> ws_worker_session_id s \<noteq> sess_id
                \<and> live_session (ws_status s)) (take_offline now) d2 (\<lambda>d3.
            set_sessions (db_sessions d3 @ [new_session worker_id digest request contract effective
                (wr_draining policy) expires_at now]) d3 (\<lambda>d4.
            authorized contract worker_id sess_id effective policy expires_at d4)))))"

definition register_session ::
  "uuid \<Rightarrow> string \<Rightarrow> register_session_request \<Rightarrow> duration \<Rightarrow> instant \<Rightarrow> instant \<Rightarrow> db
     \<Rightarrow> authorized_session outcome" where
  "register_session worker_id digest request session_ttl now utc d =
     (case validate_register_session request of
        Inl e \<Rightarrow> Error (Config (protocol_error_to_string e))
      | Inr _ \<Rightarrow>
      case registration (rr_protocol_version request) (rr_protocol_offer request) of
        Inl e \<Rightarrow> Error (Config (negotiation_error_to_string e))
      | Inr offer \<Rightarrow>
      protocol_lock_policy d (\<lambda>protocol_policy.
      case negotiate offer (pp_minimum_revision protocol_policy) of
        Inl _ \<Rightarrow> Error (SessionRegistration ProtocolIncompatible)
      | Inr contract \<Rightarrow>
      case find (\<lambda>r. wr_worker_id r = worker_id \<and> list_ex (\<lambda>i. wk_worker_id i = wr_worker_id r
          \<and> wk_identity_key_sha256 i = digest \<and> wk_revoked_at i = None) (db_identities d)) (db_registry d) of
        None \<Rightarrow> Error (Config ''worker is not registered'')
      | Some policy \<Rightarrow>
      if \<not> wr_enabled policy then Error (Config ''worker identity is disabled'')
      else
        let advertised = capability_names (capability_list (rr_advertised_capabilities request));
            effective = filter (\<lambda>c. c \<in> set (wr_allowed_capabilities policy)) advertised;
            expires_at = utc + session_ttl
        in if effective = [] then Error (Config ''worker advertises no server-authorized capability'')
           else case find (\<lambda>s. ws_worker_id s = worker_id
               \<and> ws_worker_session_id s = rr_worker_session_id request) (db_sessions d) of
             Some existing \<Rightarrow>
               recover_session worker_id digest request offer protocol_policy policy effective existing expires_at now d
           | None \<Rightarrow> start_session worker_id digest request contract policy effective expires_at now d))"

definition deregister_session :: "uuid \<Rightarrow> uuid \<Rightarrow> instant \<Rightarrow> db \<Rightarrow> bool outcome" where
  "deregister_session worker_id worker_session_id now d =
     (let idle = (\<lambda>s. ws_worker_id s = worker_id \<and> ws_worker_session_id s = worker_session_id
          \<and> ws_status s \<in> {SessionRegistered, SessionIdle, SessionDraining, SessionOffline, SessionDeregistered}
          \<and> \<not> list_ex (\<lambda>a. wa_worker_session_id a = ws_worker_session_id s \<and> active (wa_status a)) (db_attempts d)
          \<and> \<not> has_pending_cleanup d (ws_worker_id s))
      in update_sessions idle (\<lambda>s. s\<lparr>ws_status := SessionDeregistered,
             ws_ended_at := Some (unwrap_or (ws_ended_at s) now)\<rparr>) d
           (Commit (affected idle (db_sessions d) = 1)))"

section \<open>The operations implement the abstract machine\<close>

lemma ensures_registry_statement [tx_intro]:
  "(list_all registry_check t \<Longrightarrow> ensures Q (k (d\<lparr>db_registry := t\<rparr>))) \<Longrightarrow> ensures Q (set_registry t d k)"
  "(list_all identity_check t2 \<Longrightarrow> ensures Q (k (d\<lparr>db_identities := t2\<rparr>))) \<Longrightarrow> ensures Q (set_identities t2 d k)"
  by (simp_all add: set_registry_def set_identities_def tx_intro)

lemma ensures_lock [tx_intro]:
  "(supported_revision (pp_minimum_revision (db_protocol d)) \<Longrightarrow> ensures Q (k (db_protocol d)))
     \<Longrightarrow> ensures Q (protocol_lock_policy d k)"
  by (simp add: protocol_lock_policy_def tx_intro)

lemma ensures_authorized [tx_intro]: "Q d \<Longrightarrow> ensures Q (authorized c w s e p t d)"
  by (simp add: authorized_def tx_intro)

lemma registry_refines:
  "schema_ok d \<Longrightarrow> ensures (refines d) (create_worker worker d)"
  "schema_ok d \<Longrightarrow> ensures (refines d) (update_worker w patch now d)"
  "schema_ok d \<Longrightarrow> ensures (refines d) (authorize_identity w digest now d)"
  "schema_ok d \<Longrightarrow> ensures (refines d) (revoke_identity w digest now d)"
  "schema_ok d \<Longrightarrow> ensures (refines d) (deregister_session w s now d)"
  unfolding create_worker_def update_worker_def authorize_identity_def revoke_identity_def
    deregister_session_def end_idle_sessions_def Let_def
  by (intro tx_intro; auto intro!: refines_stutter schema_intros)+

lemma expire_worker_leases_refines:
  assumes "schema_ok d" "\<And>d'. schema_ok d' \<Longrightarrow> core_of d' = core_of d \<Longrightarrow> ensures Q (k d')"
  shows "ensures Q (expire_worker_leases w digest now d k)"
  unfolding expire_worker_leases_def
  by (intro tx_intro assms(2))
    (auto intro!: schema_intros assms(1) core_eqI view_same simp: cut_lease_def abs_attempt_def)

lemma emergency_refines:
  "schema_ok d \<Longrightarrow> ensures (refines d) (emergency_disable_worker w now d)"
  "schema_ok d \<Longrightarrow> ensures (refines d) (emergency_revoke_identity w digest now d)"
  unfolding emergency_disable_worker_def emergency_revoke_identity_def Let_def
  by (intro tx_intro expire_worker_leases_refines; auto intro!: refines_stutter schema_intros)+

lemma recover_session_refines:
  "schema_ok d \<Longrightarrow> ensures (refines d) (recover_session w digest request offer pp p eff existing t now d)"
  unfolding recover_session_def Let_def
  by (intro tx_intro; auto intro!: refines_stutter schema_intros)

lemma fence_predecessor_refines:
  assumes "well_formed d" "row_of wa_attempt_id (db_attempts d) (wa_attempt_id a) = Some b" "abs_attempt b = abs_attempt a"
    "active (wa_status a)"
    "\<And>d'. refines d d' \<Longrightarrow> (\<And>i. i \<noteq> wa_attempt_id a \<Longrightarrow> c_attempts (core_of d') i = c_attempts (core_of d) i)
      \<Longrightarrow> ensures Q (k d')"
  shows "ensures Q (fence_predecessor now a d k)"
  unfolding fence_predecessor_def
  by (intro ensures_end_attempt [OF assms(1-4)] assms(5)) simp_all

lemma start_session_refines:
  assumes "well_formed d"
  shows "ensures (refines d) (start_session w digest request c p eff t now d)"
  unfolding start_session_def Let_def
proof (intro tx_intro)
  let ?s = "update_where (\<lambda>s. ws_worker_id s = w \<and> live_session (ws_status s) \<and> ws_expires_at s \<le> now)
    (take_offline now) (db_sessions d)"
  assume ok: "session_table_ok ?s"
  let ?d = "d\<lparr>db_sessions := ?s\<rparr>"
  have wf: "well_formed ?d" "refines d ?d"
    using assms ok by (auto simp: well_formed_def intro: schema_intros refines_stutter)
  show "ensures (refines d) (tx_for (fence_predecessor now) (filter (\<lambda>a. wa_worker_id a = w
      \<and> wa_worker_session_id a \<noteq> rr_worker_session_id request \<and> active (wa_status a)) (db_attempts ?d)) ?d (\<lambda>d2.
      update_sessions (\<lambda>s. ws_worker_id s = w \<and> ws_worker_session_id s \<noteq> rr_worker_session_id request
        \<and> live_session (ws_status s)) (take_offline now) d2 (\<lambda>d3.
      set_sessions (db_sessions d3 @ [new_session w digest request c eff (wr_draining p) t now]) d3 (\<lambda>d4.
      authorized c w (rr_worker_session_id request) eff p t d4))))"
  proof (rule ensures_tx_for_attempts [OF wf(1)])
    show "distinct (map wa_attempt_id (filter (\<lambda>a. wa_worker_id a = w
      \<and> wa_worker_session_id a \<noteq> rr_worker_session_id request \<and> active (wa_status a)) (db_attempts ?d)))"
      using schema_distinct(2) [OF wfD(1) [OF assms]] by (simp add: distinct_map_filter)
    show "ensures (refines d) (update_sessions (\<lambda>s. ws_worker_id s = w
        \<and> ws_worker_session_id s \<noteq> rr_worker_session_id request
        \<and> live_session (ws_status s)) (take_offline now) d2 (\<lambda>d3.
      set_sessions (db_sessions d3 @ [new_session w digest request c eff (wr_draining p) t now]) d3 (\<lambda>d4.
      authorized c w (rr_worker_session_id request) eff p t d4)))" if "refines ?d d2" for d2
      using refines_trans [OF wf(2) that] by (intro tx_intro) (auto simp: refines_def intro!: schema_intros)
  qed (auto intro: fence_predecessor_refines)
qed

lemma register_session_refines:
  "well_formed d \<Longrightarrow> ensures (refines d) (register_session w digest request ttl now utc d)"
  unfolding register_session_def Let_def
  by (intro tx_intro recover_session_refines start_session_refines wfD(1))

section \<open>What registration promises\<close>

lemma all_capabilities_names: "all_capabilities names = Inr cs \<Longrightarrow> map capability_as_str cs = names"
proof (induction names arbitrary: cs)
  case (Cons v vs)
  then obtain c cs' where "capability v = Inr c" "all_capabilities vs = Inr cs'" "cs = c # cs'"
    by (auto simp: and_then_def split: sum.splits)
  moreover from this have "capability_as_str c = v" by (auto simp: capability_def split: if_splits)
  ultimately show ?case using Cons.IH by simp
qed simp

lemma advertised_names: "capability_as_str c \<in> set (capability_names (capability_list s)) \<longleftrightarrow> c \<in> s"
  by (cases c) (auto simp: capability_names_def capability_list_def)

lemma yields_tx_for:
  assumes "\<And>x d k. (\<And>d'. yields R (k d')) \<Longrightarrow> yields R (f x d k)" "\<And>d'. yields R (k d')"
  shows "yields R (tx_for f xs d k)"
  by (induction xs arbitrary: d) (auto intro: assms)

lemma yields_lock:
  "(supported_revision (pp_minimum_revision (db_protocol d)) \<Longrightarrow> yields R (k (db_protocol d))) \<Longrightarrow> yields R (protocol_lock_policy d k)"
  by (simp add: protocol_lock_policy_def yield_intro)

lemma yields_authorized [yield_intro]:
  "(\<And>az. all_capabilities e = Inr (az_effective_capabilities az) \<Longrightarrow> az_protocol_contract az = c \<Longrightarrow> R (Some az) d)
     \<Longrightarrow> R None d \<Longrightarrow> yields R (authorized c w s e p t d)"
  by (simp add: authorized_def yield_intro)

text \<open>The answer of a registration: the capabilities are the effective ones, the contract meets the floor.\<close>

definition grants :: "string list \<Rightarrow> u16 \<Rightarrow> authorized_session option \<Rightarrow> db \<Rightarrow> bool" where
  "grants effective least answer d \<longleftrightarrow> (\<forall>az. answer = Some az \<longrightarrow>
     all_capabilities effective = Inr (az_effective_capabilities az) \<and> least \<le> pc_revision (az_protocol_contract az))"

lemma session_grants:
  "pp_minimum_revision pp = least
     \<Longrightarrow> yields (grants eff least) (recover_session w digest request offer pp p eff existing t now d)"
  "least \<le> pc_revision c \<Longrightarrow> yields (grants eff least) (start_session w digest request c p eff t now d)"
  unfolding recover_session_def start_session_def fence_predecessor_def discard_attempt_projection_def release_job_def Let_def
  by (intro yield_intro yields_tx_for; simp add: grants_def)+

text \<open>C27: A session is authorized only for an enabled worker under an unrevoked identity of it. The capabilities it gets are
  advertised by the worker and allowed by the registry, there is at least one, and the protocol contract is not below
  the floor.\<close>

theorem register_session_authorized:
  assumes "register_session w digest request ttl now utc d = Commit az d'"
  shows "\<exists>r \<in> set (db_registry d). wr_worker_id r = w \<and> wr_enabled r
    \<and> (\<exists>i \<in> set (db_identities d). wk_worker_id i = w \<and> wk_identity_key_sha256 i = digest \<and> wk_revoked_at i = None)
    \<and> az_effective_capabilities az \<noteq> []
    \<and> set (az_effective_capabilities az) \<subseteq> rr_advertised_capabilities request
        \<inter> {c. capability_as_str c \<in> set (wr_allowed_capabilities r)}
    \<and> pp_minimum_revision (db_protocol d) \<le> pc_revision (az_protocol_contract az)"
proof -
  let ?names = "\<lambda>r. filter (\<lambda>c. c \<in> set (wr_allowed_capabilities r))
    (capability_names (capability_list (rr_advertised_capabilities request)))"
  obtain r where r: "find (\<lambda>r. wr_worker_id r = w \<and> list_ex (\<lambda>i. wk_worker_id i = wr_worker_id r
          \<and> wk_identity_key_sha256 i = digest \<and> wk_revoked_at i = None) (db_identities d)) (db_registry d) = Some r"
    "wr_enabled r" "?names r \<noteq> []"
    using assms by (auto simp: register_session_def Let_def protocol_lock_policy_def split: sum.splits option.splits if_splits)
  have "yields (grants (?names r) (pp_minimum_revision (db_protocol d))) (register_session w digest request ttl now utc d)"
    unfolding register_session_def Let_def r(1) option.case
    by (intro yield_intro yields_lock session_grants) (simp_all add: negotiated_shared(1) [unfolded shared_revision_def])
  from yields_Commit [OF this assms] obtain cs where cs: "all_capabilities (?names r) = Inr cs" "az_effective_capabilities az = cs"
    "pp_minimum_revision (db_protocol d) \<le> pc_revision (az_protocol_contract az)"
    by (auto simp: grants_def)
  have "c \<in> rr_advertised_capabilities request \<and> capability_as_str c \<in> set (wr_allowed_capabilities r)" if "c \<in> set cs" for c
  proof -
    have "capability_as_str c \<in> set (?names r)"
      using that unfolding all_capabilities_names [OF cs(1), symmetric] by simp
    then show ?thesis by (simp add: advertised_names)
  qed
  moreover have "cs \<noteq> []" using r(3) cs(1) all_capabilities_names by fastforce
  ultimately show ?thesis
    using find_conv [OF r(1)] r(2) cs by (auto simp: list_ex_iff)
qed

text \<open>The attempts of other sessions of the worker that are still active.\<close>

definition predecessor :: "uuid \<Rightarrow> uuid \<Rightarrow> worker_attempt \<Rightarrow> bool" where
  "predecessor w sid a \<longleftrightarrow> wa_worker_id a = w \<and> wa_worker_session_id a \<noteq> sid \<and> active (wa_status a)"

lemma fence_predecessor_left:
  assumes "\<forall>a \<in> set (db_attempts d). predecessor w sid a \<longrightarrow> wa_attempt_id a \<in> insert (wa_attempt_id row) S"
    "\<And>d'. db_sessions d' = db_sessions d \<Longrightarrow> (\<forall>a \<in> set (db_attempts d'). predecessor w sid a \<longrightarrow> wa_attempt_id a \<in> S)
      \<Longrightarrow> ensures Q (k d')"
  shows "ensures Q (fence_predecessor now row d k)"
  unfolding fence_predecessor_def discard_attempt_projection_def release_job_def Let_def
  by (intro tx_intro assms(2)) (use assms(1) in \<open>auto simp: ball_update_where predecessor_def insert_obligation_def\<close>)

lemma start_session_exclusive:
  "ensures (\<lambda>d'. (\<forall>s \<in> set (db_sessions d'). ws_worker_id s = w \<and> live_session (ws_status s)
          \<longrightarrow> ws_worker_session_id s = rr_worker_session_id request)
      \<and> (\<forall>a \<in> set (db_attempts d'). \<not> predecessor w (rr_worker_session_id request) a))
    (start_session w digest request c p eff t now d)"
proof -
  let ?sid = "rr_worker_session_id request"
  have ended: "(\<forall>s \<in> set (update_where (\<lambda>s. ws_worker_id s = w \<and> ws_worker_session_id s \<noteq> ?sid \<and> live_session (ws_status s))
      (take_offline now) ss). ws_worker_id s = w \<and> live_session (ws_status s) \<longrightarrow> ws_worker_session_id s = ?sid)" for ss
    by (auto simp: ball_update_where take_offline_def live_session_def)
  have own: "ws_worker_session_id (new_session w digest request c eff dr t now) = ?sid" for dr
    by (simp add: new_session_def)
  have tail: "ensures (\<lambda>d'. (\<forall>s \<in> set (db_sessions d'). ws_worker_id s = w \<and> live_session (ws_status s)
            \<longrightarrow> ws_worker_session_id s = ?sid) \<and> (\<forall>a \<in> set (db_attempts d'). \<not> predecessor w ?sid a))
      (update_sessions (\<lambda>s. ws_worker_id s = w \<and> ws_worker_session_id s \<noteq> ?sid \<and> live_session (ws_status s))
          (take_offline now) d2 (\<lambda>d3. set_sessions (db_sessions d3 @ [new_session w digest request c eff (wr_draining p) t now]) d3
          (authorized c w ?sid eff p t)))" if "\<forall>a \<in> set (db_attempts d2). \<not> predecessor w ?sid a" for d2
    using that ended [of "db_sessions d2"] by (intro tx_intro) (simp add: ball_Un own)
  show ?thesis
    unfolding start_session_def Let_def
  proof (intro tx_intro)
    fix d1
    show "ensures (\<lambda>d'. (\<forall>s \<in> set (db_sessions d'). ws_worker_id s = w \<and> live_session (ws_status s)
            \<longrightarrow> ws_worker_session_id s = ?sid) \<and> (\<forall>a \<in> set (db_attempts d'). \<not> predecessor w ?sid a))
      (tx_for (fence_predecessor now) (filter (\<lambda>a. wa_worker_id a = w \<and> wa_worker_session_id a \<noteq> ?sid
        \<and> active (wa_status a)) (db_attempts d1)) d1 (\<lambda>d2.
        update_sessions (\<lambda>s. ws_worker_id s = w \<and> ws_worker_session_id s \<noteq> ?sid \<and> live_session (ws_status s))
          (take_offline now) d2 (\<lambda>d3. set_sessions (db_sessions d3 @ [new_session w digest request c eff (wr_draining p) t now]) d3
          (authorized c w ?sid eff p t))))"
    proof (rule ensures_tx_for [where I = "\<lambda>rows d. \<forall>a \<in> set (db_attempts d). predecessor w ?sid a \<longrightarrow>
        wa_attempt_id a \<in> wa_attempt_id ` set rows"])
      fix row :: worker_attempt and rows and d2 :: db and k :: "db \<Rightarrow> authorized_session outcome" and Q :: "db \<Rightarrow> bool"
      assume "\<forall>a \<in> set (db_attempts d2). predecessor w ?sid a \<longrightarrow> wa_attempt_id a \<in> wa_attempt_id ` set (row # rows)"
        and "\<And>d'. \<forall>a \<in> set (db_attempts d'). predecessor w ?sid a \<longrightarrow> wa_attempt_id a \<in> wa_attempt_id ` set rows
          \<Longrightarrow> ensures Q (k d')"
      then show "ensures Q (fence_predecessor now row d2 k)"
        by (intro fence_predecessor_left [where S = "wa_attempt_id ` set rows"]) auto
    qed (simp add: predecessor_def, simp add: tail)
  qed
qed

text \<open>C26: Registering a session that the daemon does not know yet leaves the worker with that session alone: every other
  live session of the worker is offline, and no attempt of another session of the worker is active any more.\<close>

theorem new_session_is_exclusive:
  assumes "register_session w digest request ttl now utc d = Commit az d'"
    "\<And>s. s \<in> set (db_sessions d) \<Longrightarrow> ws_worker_id s = w \<Longrightarrow> ws_worker_session_id s \<noteq> rr_worker_session_id request"
  shows "(\<forall>s \<in> set (db_sessions d'). ws_worker_id s = w \<and> live_session (ws_status s)
        \<longrightarrow> ws_worker_session_id s = rr_worker_session_id request)
    \<and> (\<forall>a \<in> set (db_attempts d'). \<not> predecessor w (rr_worker_session_id request) a)"
proof -
  have "find (\<lambda>s. ws_worker_id s = w \<and> ws_worker_session_id s = rr_worker_session_id request) (db_sessions d) = None"
    using assms(2) by (auto simp: find_None_iff)
  then have "ensures (\<lambda>d'. (\<forall>s \<in> set (db_sessions d'). ws_worker_id s = w \<and> live_session (ws_status s)
        \<longrightarrow> ws_worker_session_id s = rr_worker_session_id request)
      \<and> (\<forall>a \<in> set (db_attempts d'). \<not> predecessor w (rr_worker_session_id request) a))
    (register_session w digest request ttl now utc d)"
    unfolding register_session_def Let_def by (intro tx_intro start_session_exclusive) simp
  with assms(1) show ?thesis by (simp add: ensures_def)
qed

definition sample_request :: register_session_request where
  "sample_request = \<lparr>rr_preflight = None, rr_protocol_version = 2, rr_protocol_offer = Some current_offer,
     rr_worker_session_id = 20, rr_software_version = ''1.0'', rr_advertised_capabilities = {BuildOnly},
     rr_resources = \<lparr>rf_logical_cpus = 8, rf_memory_bytes = 1024\<rparr>\<rparr>"

lemma sample_request_valid: "registration 2 (Some current_offer) = Inr current_offer" "validate_register_session sample_request = Inr ()"
proof -
  show offer: "registration 2 (Some current_offer) = Inr current_offer"
    unfolding registration_def option.case validate_current_offer by (simp add: and_then_def current_offer_def revision_defs)
  show "validate_register_session sample_request = Inr ()"
    by (simp add: validate_register_session_def sample_request_def registration_facts_def offer and_then_def
        bounded_def MAX_VERSION_def byte_of_def utf8_lead_def utf8_width_def any_control_def is_control_def trim_is_empty_def is_whitespace_def)
qed

lemma sample_registers: "\<exists>az d'. register_session 1 sample_hash sample_request 60 50 50 running_db = Commit az d'"
proof -
  have rev: "supported_revision 1" by (simp add: supported_revision_iff)
  have names: "capability_names (capability_list {BuildOnly}) = [''build_only'']"
    by (simp add: capability_names_def capability_list_def)
  show ?thesis
    unfolding register_session_def sample_request_valid(2)
    by (simp add: sample_request_def sample_request_valid(1) protocol_lock_policy_def rev negotiate_current_offer sample_states
        sample_rows names start_session_def new_session_def take_offline_def statement_eval table_checks live_session_def
        fence_predecessor_def discard_attempt_projection_def set_events_def release_job_def insert_obligation_def
        authorized_def and_then_def capability_def Let_def executing_def terminal_def) auto
qed

theorem register_session_authorized_witness:
  "\<exists>az d'. register_session 1 sample_hash sample_request 60 50 50 running_db = Commit az d'
     \<and> set (az_effective_capabilities az) \<subseteq> {BuildOnly} \<and> 1 \<le> pc_revision (az_protocol_contract az)"
proof -
  obtain az d' where tx: "register_session 1 sample_hash sample_request 60 50 50 running_db = Commit az d'"
    using sample_registers by blast
  from register_session_authorized [OF tx] tx show ?thesis
    by (auto simp: sample_states sample_request_def)
qed

theorem new_session_is_exclusive_witness:
  "\<exists>az d'. register_session 1 sample_hash sample_request 60 50 50 running_db = Commit az d'
     \<and> list_all (\<lambda>a. \<not> predecessor 1 20 a) (db_attempts d')"
proof -
  obtain az d' where tx: "register_session 1 sample_hash sample_request 60 50 50 running_db = Commit az d'"
    using sample_registers by blast
  have "ws_worker_session_id s \<noteq> rr_worker_session_id sample_request" if "s \<in> set (db_sessions running_db)" for s
    using that by (simp add: sample_states sample_session_def sample_request_def)
  with new_session_is_exclusive [OF tx] tx show ?thesis
    by (auto simp: list_all_iff sample_request_def)
qed

end
