(* ===== verification/Audited_Requests.thy ===== *)
theory Audited_Requests
  imports Fleet_Statements
begin

text \<open>
  The contract of an audited operation: it records a receipt under the identity of the request in the
  transaction that applies it, never changes a receipt, and answers a request whose identity is known
  from the receipt alone. The clients of such an operation may therefore repeat a request after a lost
  response.
\<close>

locale audited_requests =
  fixes run :: "'env \<Rightarrow> 'req \<Rightarrow> db \<Rightarrow> 'out outcome"
    and request_id :: "'req \<Rightarrow> uuid"
    and receipt_of :: "db \<Rightarrow> uuid \<Rightarrow> 'rc option"
    and same :: "'req \<Rightarrow> 'rc \<Rightarrow> bool"
    and replay :: "'req \<Rightarrow> 'rc \<Rightarrow> 'out"
    and conflict :: "'out"
    and admissible :: "'req \<Rightarrow> db \<Rightarrow> bool"
  assumes known: "admissible r d \<Longrightarrow> receipt_of d (request_id r) = Some c
      \<Longrightarrow> run env r d = Rollback (if same r c then replay r c else conflict)"
    and recorded: "run env r d = Commit out d' \<Longrightarrow> admissible r d \<and> receipt_of d (request_id r) = None
      \<and> (\<exists>c. receipt_of d' (request_id r) = Some c \<and> same r c \<and> replay r c = out)"
    and no_late_error: "run env r d \<noteq> CommitError e d'"
    and kept: "run env r d = Commit out d' \<Longrightarrow> receipt_of d i = Some c \<Longrightarrow> receipt_of d' i = Some c"
begin

text \<open>Repeating a request returns the first answer and changes nothing, whatever happened in between
  and whatever the clock says.\<close>

lemma retry:
  assumes "run env r d = Commit out d'" "admissible r d''"
    "\<And>c. receipt_of d' (request_id r) = Some c \<Longrightarrow> receipt_of d'' (request_id r) = Some c"
  shows "run env' r d'' = Rollback out"
proof -
  obtain c where c: "receipt_of d' (request_id r) = Some c" "same r c" "replay r c = out"
    using recorded [OF assms(1)] by blast
  then show ?thesis using known [OF assms(2) assms(3) [OF c(1)]] by simp
qed

text \<open>A different request under a known identity is refused and changes nothing.\<close>

lemma reused:
  assumes "run env r d = Commit out d'" "admissible r' d''" "request_id r' = request_id r"
    "\<And>c. receipt_of d' (request_id r) = Some c \<Longrightarrow> receipt_of d'' (request_id r) = Some c"
    "\<And>c. receipt_of d' (request_id r) = Some c \<Longrightarrow> \<not> same r' c"
  shows "run env' r' d'' = Rollback conflict"
proof -
  obtain c where c: "receipt_of d' (request_id r) = Some c" using recorded [OF assms(1)] by blast
  then show ?thesis using known [OF assms(2), of c env'] assms(3) assms(4,5) [OF c] by simp
qed

text \<open>No identity is applied twice.\<close>

lemma applied_once:
  assumes "run env r d = Commit out d'" "request_id r' = request_id r"
    "\<And>c. receipt_of d' (request_id r) = Some c \<Longrightarrow> receipt_of d'' (request_id r) = Some c"
  shows "committed (run env' r' d'') = None"
proof -
  obtain c where "receipt_of d'' (request_id r') = Some c"
    using recorded [OF assms(1)] assms(2,3) by auto
  then have "run env' r' d'' \<noteq> Commit out' d3" for out' d3
    using recorded [of env' r' d'' out' d3] by auto
  then show ?thesis using no_late_error [of env' r' d''] by (cases "run env' r' d''") auto
qed

end

end
