(* ===== verification/Fleet_Store_Policy.thy ===== *)
theory Fleet_Store_Policy
  imports Fleet_Store_Sessions Audited_Requests
begin

text \<open>
  The administration of the fleet (\<open>stores/fleet/quiescence.rs\<close>, \<open>scheduler.rs\<close>, \<open>protocol.rs\<close>,
  \<open>lifecycle.rs\<close>, \<open>abort.rs\<close> and the ports in \<open>sbgh-core/src/db\<close>): pausing the scheduler, moving
  the protocol floor, draining or stopping one worker and cancelling the workload. Every operation
  leaves a receipt under the identity of the request; repeating the request returns the receipt and
  changes nothing.
\<close>

section \<open>Maintenance counters\<close>

record counters =
  q_active_attempts :: int
  q_pending_cleanup :: int
  q_pending_projection :: int
  q_pending_artifacts :: int
  q_garbage_artifacts :: int

text \<open>The rows of the common table expression, with the column \<open>required\<close>.\<close>

definition staging_required :: "worker_attempt \<Rightarrow> worker_artifact_staging \<Rightarrow> bool" where
  "staging_required a s \<longleftrightarrow> active (wa_status a) \<or> terminal (wa_status a)
     \<and> list_ex (\<lambda>artifact. ad_key artifact = st_object_key s)
         (case wa_terminal_artifacts a of None \<Rightarrow> [] | Some artifacts \<Rightarrow> artifacts)"

definition open_staging :: "db \<Rightarrow> (worker_artifact_staging \<times> bool) list" where
  "open_staging d =
     concat (map (\<lambda>s. map (\<lambda>a. (s, staging_required a s))
         (filter (\<lambda>a. wa_attempt_id a = st_attempt_id s) (db_attempts d)))
       (filter (\<lambda>s. st_status s \<in> {Granted, Uploaded, Verified, Rejected}) (db_staging d)))"

definition COUNTERS_SQL :: "db \<Rightarrow> counters" where
  "COUNTERS_SQL d = \<lparr>
     q_active_attempts = int (affected (\<lambda>a. active (wa_status a)) (db_attempts d)),
     q_pending_cleanup = int (affected (\<lambda>ob. co_status ob = CleanupPending) (db_obligations d)),
     q_pending_projection =
       int (affected (\<lambda>a. wa_highest_contiguous_reliable_seq a > wa_projected_reliable_seq a) (db_attempts d)),
     q_pending_artifacts = int (affected (\<lambda>(s, required). required \<and> st_status s \<noteq> Rejected) (open_staging d)),
     q_garbage_artifacts = int (affected (\<lambda>(s, required). \<not> required) (open_staging d))\<rparr>"

definition busy_fleet :: "db \<Rightarrow> bool" where
  "busy_fleet d \<longleftrightarrow> q_active_attempts (COUNTERS_SQL d) \<noteq> 0 \<or> q_pending_cleanup (COUNTERS_SQL d) \<noteq> 0
     \<or> q_pending_projection (COUNTERS_SQL d) \<noteq> 0 \<or> q_pending_artifacts (COUNTERS_SQL d) \<noteq> 0"

definition bounded_text :: "nat \<Rightarrow> string \<Rightarrow> bool" where
  "bounded_text limit value \<longleftrightarrow> \<not> trim_is_empty value \<and> length (utf8_chars value) \<le> limit"

section \<open>Withdrawing offers\<close>

text \<open>The statement that expires unaccepted offers and gives their jobs back.\<close>

definition withdraw_offers ::
  "(worker_attempt \<Rightarrow> bool) \<Rightarrow> db \<Rightarrow> (db \<Rightarrow> 'a outcome) \<Rightarrow> 'a outcome" where
  "withdraw_offers P d k =
     (let offered = (\<lambda>a. P a \<and> wa_status a = AttemptOffered);
          withdrawn = filter offered (db_attempts d)
      in update_attempts offered (\<lambda>a. a\<lparr>wa_status := AttemptExpired\<rparr>) d (\<lambda>d1.
         update_jobs (\<lambda>j. list_ex (\<lambda>a. has_claim a j) withdrawn) requeue_job d1 k))"

section \<open>The scheduler\<close>

record scheduler_change =
  ch_request_id :: uuid
  ch_paused :: bool
  ch_actor :: string
  ch_reason :: string

datatype scheduler_change_outcome = SchedulerApplied scheduler_policy | SchedulerConflict

record scheduler_snapshot_t =
  ss_policy :: scheduler_policy
  ss_counters :: counters

definition scheduler_snapshot :: "db \<Rightarrow> scheduler_snapshot_t" where
  "scheduler_snapshot d = \<lparr>ss_policy = db_scheduler d, ss_counters = COUNTERS_SQL d\<rparr>"

definition pause_session :: "db \<Rightarrow> worker_session \<Rightarrow> worker_session" where
  "pause_session d s = s\<lparr>ws_status :=
     (if list_ex (\<lambda>r. wr_worker_id r = ws_worker_id s \<and> (wr_draining r
           \<or> wr_shutdown_session_id r = Some (ws_worker_session_id s))) (db_registry d)
      then SessionDraining else SessionIdle)\<rparr>"

definition awaiting_session :: "db \<Rightarrow> worker_session \<Rightarrow> bool" where
  "awaiting_session d s \<longleftrightarrow> ws_status s = SessionOffered
     \<and> list_ex (\<lambda>r. wr_worker_id r = ws_worker_id s) (db_registry d)
     \<and> list_ex (\<lambda>a. wa_worker_session_id a = ws_worker_session_id s \<and> wa_status a = AttemptOffered) (db_attempts d)"

definition scheduler_receipt :: "scheduler_change \<Rightarrow> scheduler_policy \<Rightarrow> scheduler_audit" where
  "scheduler_receipt change result = \<lparr>sa_request_id = ch_request_id change, sa_paused = ch_paused change,
     sa_actor = ch_actor change, sa_reason = ch_reason change, sa_generation = sc_generation result,
     sa_policy_actor = sc_actor result, sa_policy_reason = sc_reason result,
     sa_policy_changed_at = sc_changed_at result\<rparr>"

definition same_scheduler_change :: "scheduler_change \<Rightarrow> scheduler_audit \<Rightarrow> bool" where
  "same_scheduler_change change row \<longleftrightarrow> sa_paused row = ch_paused change \<and> sa_actor row = ch_actor change
     \<and> sa_reason row = ch_reason change"

definition replayed_scheduler :: "scheduler_change \<Rightarrow> scheduler_audit \<Rightarrow> scheduler_change_outcome" where
  "replayed_scheduler change row = SchedulerApplied \<lparr>sc_paused = ch_paused change,
     sc_generation = sa_generation row, sc_actor = sa_policy_actor row, sc_reason = sa_policy_reason row,
     sc_changed_at = sa_policy_changed_at row\<rparr>"

definition change_scheduler ::
  "instant \<Rightarrow> scheduler_change \<Rightarrow> db \<Rightarrow> scheduler_change_outcome outcome" where
  "change_scheduler clock change d =
     (if \<not> bounded_text 128 (ch_actor change) \<or> \<not> bounded_text 1024 (ch_reason change)
      then Error (Config ''scheduler actor and reason must be nonempty and bounded'')
      else case row_of sa_request_id (db_scheduler_audit d) (ch_request_id change) of
        Some row \<Rightarrow> Rollback (if same_scheduler_change change row then replayed_scheduler change row
          else SchedulerConflict)
      | None \<Rightarrow>
        let current = db_scheduler d;
            changed = (sc_paused current \<noteq> ch_paused change);
            result = (if changed then \<lparr>sc_paused = ch_paused change, sc_generation = sc_generation current + 1,
                sc_actor = ch_actor change, sc_reason = ch_reason change, sc_changed_at = clock\<rparr>
              else current);
            d1 = d\<lparr>db_scheduler := result\<rparr>;
            commit = (\<lambda>d'. Commit (SchedulerApplied result)
              (d'\<lparr>db_scheduler_audit := db_scheduler_audit d' @ [scheduler_receipt change result]\<rparr>))
        in if changed \<and> ch_paused change
           then update_sessions (awaiting_session d1) (pause_session d1) d1 (\<lambda>d2.
             withdraw_offers (\<lambda>_. True) d2 commit)
           else commit d1)"

section \<open>The protocol floor\<close>

record protocol_policy_change =
  pd_request_id :: uuid
  pd_minimum_revision :: u16
  pd_actor :: string
  pd_reason :: string
  pd_rollback_evidence :: string

datatype protocol_policy_change_outcome =
    ProtocolApplied protocol_policy
  | ProtocolConflict
  | MaintenanceRequired
  | WorkersNotConverged "uuid list"

definition validate_revision :: "u16 \<Rightarrow> store_error + unit" where
  "validate_revision revision =
     (if \<not> (PREVIOUS_PROTOCOL_REVISION \<le> revision \<and> revision \<le> NEGOTIATED_PROTOCOL_REVISION)
      then Inl (Config ''protocol floor is outside the supported rolling window'') else Inr ())"

definition converged :: "u16 \<Rightarrow> instant \<Rightarrow> db \<Rightarrow> uuid \<Rightarrow> bool" where
  "converged revision clock d worker_id \<longleftrightarrow>
     list_ex (\<lambda>s. ws_worker_id s = worker_id \<and> ws_ended_at s = None \<and> ws_expires_at s > clock
       \<and> live_session (ws_status s) \<and> pc_revision (ws_protocol_contract s) \<ge> revision) (db_sessions d)"

definition same_protocol_change :: "protocol_policy_change \<Rightarrow> protocol_audit \<Rightarrow> bool" where
  "same_protocol_change change row \<longleftrightarrow> pa_minimum_revision row = pd_minimum_revision change
     \<and> pa_actor row = pd_actor change \<and> pa_reason row = pd_reason change
     \<and> pa_rollback_evidence row = pd_rollback_evidence change"

definition change_protocol_policy ::
  "instant \<Rightarrow> protocol_policy_change \<Rightarrow> db \<Rightarrow> protocol_policy_change_outcome outcome" where
  "change_protocol_policy clock change d =
     (case validate_revision (pd_minimum_revision change) of
        Inl e \<Rightarrow> Error e
      | Inr _ \<Rightarrow>
      if \<not> bounded_text 128 (pd_actor change) \<or> \<not> bounded_text 1024 (pd_reason change)
        \<or> \<not> bounded_text 2048 (pd_rollback_evidence change)
      then Error (Config ''protocol policy actor, reason and rollback evidence must be nonempty and bounded'')
      else protocol_lock_policy d (\<lambda>current.
        case row_of pa_request_id (db_protocol_audit d) (pd_request_id change) of
          Some row \<Rightarrow> Rollback (if same_protocol_change change row then ProtocolApplied (pa_receipt row)
            else ProtocolConflict)
        | None \<Rightarrow>
          let changed = (pp_minimum_revision current \<noteq> pd_minimum_revision change);
              missing = map wr_worker_id (sort_key wr_worker_id (filter (\<lambda>r. wr_enabled r
                \<and> \<not> converged (pd_minimum_revision change) clock d (wr_worker_id r)) (db_registry d)))
          in if changed \<and> (\<not> sc_paused (db_scheduler d) \<or> busy_fleet d) then Rollback MaintenanceRequired
             else if changed \<and> pd_minimum_revision change > pp_minimum_revision current \<and> missing \<noteq> []
             then Rollback (WorkersNotConverged missing)
             else
               let receipt = (if changed then \<lparr>pp_minimum_revision = pd_minimum_revision change,
                     pp_generation = pp_generation current + 1, pp_actor = pd_actor change,
                     pp_reason = pd_reason change, pp_rollback_evidence = pd_rollback_evidence change,
                     pp_changed_at = clock\<rparr> else current)
               in Commit (ProtocolApplied receipt) (d\<lparr>db_protocol := receipt,
                    db_protocol_audit := db_protocol_audit d @
                      [\<lparr>pa_request_id = pd_request_id change, pa_minimum_revision = pd_minimum_revision change,
                        pa_actor = pd_actor change, pa_reason = pd_reason change,
                        pa_rollback_evidence = pd_rollback_evidence change, pa_receipt = receipt\<rparr>]\<rparr>)))"

section \<open>One worker\<close>

record worker_lifecycle_change =
  lc_request_id :: uuid
  lc_worker_id :: uuid
  lc_action :: worker_lifecycle_action
  lc_actor :: string
  lc_reason :: string

datatype worker_lifecycle_outcome =
    LifecycleApplied worker_lifecycle_receipt
  | LifecycleNotFound
  | LifecycleConflict
  | UnsupportedSession

definition same_lifecycle_change :: "worker_lifecycle_change \<Rightarrow> worker_lifecycle_receipt \<Rightarrow> bool" where
  "same_lifecycle_change change receipt \<longleftrightarrow> lr_worker_id receipt = lc_worker_id change
     \<and> lr_action receipt = lc_action change \<and> lr_actor receipt = lc_actor change
     \<and> lr_reason receipt = lc_reason change"

text \<open>The session an explicit shutdown is aimed at: the current one, if its contract has the feature.\<close>

definition shutdown_target :: "uuid \<Rightarrow> instant \<Rightarrow> db \<Rightarrow> uuid option" where
  "shutdown_target worker_id clock d =
     (case latest_by ws_started_at (filter (\<lambda>s. ws_worker_id s = worker_id \<and> ws_ended_at s = None
         \<and> ws_expires_at s > clock) (db_sessions d)) of
        None \<Rightarrow> None
      | Some s \<Rightarrow> if ShutdownAfterIdle |\<in>| pc_features (ws_protocol_contract s)
          then Some (ws_worker_session_id s) else None)"

primrec desired_draining :: "worker_lifecycle_action \<Rightarrow> bool \<Rightarrow> bool" where
  "desired_draining Cordon draining = True"
| "desired_draining Uncordon draining = False"
| "desired_draining ShutdownWhenIdle draining = draining"

definition apply_lifecycle ::
  "instant \<Rightarrow> worker_lifecycle_change \<Rightarrow> worker_registry \<Rightarrow> uuid option \<Rightarrow> db \<Rightarrow> worker_lifecycle_outcome outcome" where
  "apply_lifecycle clock change worker target d =
     (let draining = desired_draining (lc_action change) (wr_draining worker);
          shutdown = (case target of None \<Rightarrow> wr_shutdown_session_id worker | Some t \<Rightarrow> Some t);
          changed = (draining \<noteq> wr_draining worker \<or> shutdown \<noteq> wr_shutdown_session_id worker);
          generation = wr_lifecycle_generation worker + (if changed then 1 else 0);
          receipt = \<lparr>lr_request_id = lc_request_id change, lr_worker_id = lc_worker_id change,
            lr_action = lc_action change, lr_generation = generation, lr_target_session_id = target,
            lr_actor = lc_actor change, lr_reason = lc_reason change, lr_recorded_at = clock\<rparr>
      in set_registry (update_where (\<lambda>r. wr_worker_id r = lc_worker_id change)
           (\<lambda>r. r\<lparr>wr_draining := draining, wr_shutdown_session_id := shutdown, wr_lifecycle_generation := generation\<rparr>)
           (db_registry d)) d (\<lambda>d1.
         (if lc_action change \<noteq> Uncordon then withdraw_offers (\<lambda>a. wa_worker_id a = lc_worker_id change) d1
          else (\<lambda>k. k d1)) (\<lambda>d2.
         update_sessions (\<lambda>s. ws_worker_id s = lc_worker_id change
             \<and> ws_status s \<in> {SessionRegistered, SessionIdle, SessionOffered, SessionDraining}
             \<and> ws_expires_at s > clock)
           (\<lambda>s. s\<lparr>ws_status := (if draining then SessionDraining else SessionIdle)\<rparr>) d2 (\<lambda>d3.
         Commit (LifecycleApplied receipt) (d3\<lparr>db_lifecycle_audit := db_lifecycle_audit d3 @ [receipt]\<rparr>)))))"

definition change_worker_lifecycle ::
  "instant \<Rightarrow> worker_lifecycle_change \<Rightarrow> db \<Rightarrow> worker_lifecycle_outcome outcome" where
  "change_worker_lifecycle clock change d =
     (if \<not> bounded_text 128 (lc_actor change) \<or> \<not> bounded_text 1024 (lc_reason change)
      then Error (Config ''worker lifecycle actor/reason must be nonempty and bounded'')
      else case row_of lr_request_id (db_lifecycle_audit d) (lc_request_id change) of
        Some receipt \<Rightarrow> Rollback (if same_lifecycle_change change receipt then LifecycleApplied receipt
          else LifecycleConflict)
      | None \<Rightarrow>
      case row_of wr_worker_id (db_registry d) (lc_worker_id change) of
        None \<Rightarrow> Rollback LifecycleNotFound
      | Some worker \<Rightarrow>
        if lc_action change = ShutdownWhenIdle
        then case shutdown_target (lc_worker_id change) clock d of
            None \<Rightarrow> Rollback UnsupportedSession
          | Some target \<Rightarrow> apply_lifecycle clock change worker (Some target) d
        else apply_lifecycle clock change worker None d)"

definition set_worker_draining ::
  "uuid \<Rightarrow> uuid \<Rightarrow> bool \<Rightarrow> instant \<Rightarrow> db \<Rightarrow> (store_error + worker_registry_mutation) \<times> db" where
  "set_worker_draining request_id worker_id draining clock d =
     (let change = \<lparr>lc_request_id = request_id, lc_worker_id = worker_id,
            lc_action = (if draining then Cordon else Uncordon), lc_actor = ''legacy:drain'',
            lc_reason = ''legacy worker drain control''\<rparr>;
          (result, d') = run_tx (change_worker_lifecycle clock change) d
      in (and_then result (\<lambda>oc. Inr (case oc of
            LifecycleApplied _ \<Rightarrow> RegistryApplied
          | LifecycleNotFound \<Rightarrow> RegistryNotFound
          | LifecycleConflict \<Rightarrow> RegistryConflict
          | UnsupportedSession \<Rightarrow> RegistryConflict)), d'))"

record worker_maintenance_snapshot_t =
  wm_worker_id :: uuid
  wm_enabled :: bool
  wm_scheduler_paused :: bool
  wm_identity_authorized :: bool
  wm_protocol_compatible :: bool
  wm_effective_capabilities :: "string list"
  wm_measurement_profile :: "string option"
  wm_generation :: int
  wm_cordoned :: bool
  wm_session_id :: "uuid option"
  wm_session_status :: "session_status option"
  wm_session_live :: bool
  wm_protocol :: "protocol_contract option"
  wm_preflight :: "preflight_report option"
  wm_shutdown_session_id :: "uuid option"
  wm_active_attempts :: int
  wm_pending_cleanup :: int

definition worker_maintenance_snapshot ::
  "uuid \<Rightarrow> instant \<Rightarrow> db \<Rightarrow> worker_maintenance_snapshot_t option" where
  "worker_maintenance_snapshot worker_id now d =
     (case row_of wr_worker_id (db_registry d) worker_id of
        None \<Rightarrow> None
      | Some registry \<Rightarrow>
        let session = latest_by ws_started_at (filter (\<lambda>s. ws_worker_id s = worker_id) (db_sessions d));
            protocol = map_option ws_protocol_contract session
        in Some \<lparr>wm_worker_id = worker_id, wm_enabled = wr_enabled registry,
          wm_scheduler_paused = sc_paused (db_scheduler d),
          wm_identity_authorized = (case session of None \<Rightarrow> False
            | Some s \<Rightarrow> list_ex (\<lambda>i. wk_worker_id i = worker_id
                \<and> wk_identity_key_sha256 i = ws_identity_key_sha256 s \<and> wk_revoked_at i = None) (db_identities d)),
          wm_protocol_compatible = (case protocol of None \<Rightarrow> False
            | Some contract \<Rightarrow> pp_minimum_revision (db_protocol d) \<le> pc_revision contract
                \<and> is_ok (validate_selection current_offer contract)),
          wm_effective_capabilities = (case session of None \<Rightarrow> []
            | Some s \<Rightarrow> supported_names (ws_protocol_contract s)
                (filter (\<lambda>c. c \<in> set (wr_allowed_capabilities registry)) (ws_advertised_capabilities s))),
          wm_measurement_profile = wr_measurement_profile registry,
          wm_generation = wr_lifecycle_generation registry, wm_cordoned = wr_draining registry,
          wm_session_id = map_option ws_worker_session_id session,
          wm_session_status = map_option ws_status session,
          wm_session_live = (case session of None \<Rightarrow> False
            | Some s \<Rightarrow> ws_ended_at s = None \<and> ws_expires_at s > now),
          wm_protocol = protocol,
          wm_preflight = (case session of None \<Rightarrow> None | Some s \<Rightarrow> ws_preflight_report s),
          wm_shutdown_session_id = wr_shutdown_session_id registry,
          wm_active_attempts =
            int (affected (\<lambda>a. wa_worker_id a = worker_id \<and> active (wa_status a)) (db_attempts d)),
          wm_pending_cleanup =
            int (affected (\<lambda>ob. co_worker_id ob = worker_id \<and> co_status ob = CleanupPending) (db_obligations d))\<rparr>)"

datatype worker_admission_blocker =
    BlockDisabled | BlockCordoned | BlockSchedulerPaused | BlockSessionInactive | BlockSessionNotIdle
  | BlockIdentityUnauthorized | BlockProtocolIncompatible | BlockNoEffectiveCapabilities
  | BlockShutdownRequested | BlockActiveAttempt | BlockPendingCleanup

definition admission_blockers :: "worker_maintenance_snapshot_t \<Rightarrow> worker_admission_blocker list" where
  "admission_blockers m = map snd (filter fst
     [(\<not> wm_enabled m, BlockDisabled), (wm_cordoned m, BlockCordoned),
      (wm_scheduler_paused m, BlockSchedulerPaused), (\<not> wm_session_live m, BlockSessionInactive),
      (wm_session_status m \<notin> {Some SessionRegistered, Some SessionIdle, Some SessionDraining}, BlockSessionNotIdle),
      (\<not> wm_identity_authorized m, BlockIdentityUnauthorized),
      (\<not> wm_protocol_compatible m, BlockProtocolIncompatible),
      (wm_effective_capabilities m = [], BlockNoEffectiveCapabilities),
      (wm_session_id m \<noteq> None \<and> wm_session_id m = wm_shutdown_session_id m, BlockShutdownRequested),
      (wm_active_attempts m \<noteq> 0, BlockActiveAttempt), (wm_pending_cleanup m \<noteq> 0, BlockPendingCleanup)])"

section \<open>The whole workload\<close>

record fleet_abort_request =
  fq_request_id :: uuid
  fq_scope :: fleet_abort_scope
  fq_scheduler_generation :: int
  fq_actor :: string
  fq_reason :: string

datatype fleet_abort_outcome =
    AbortApplied fleet_abort_receipt
  | AbortConflict
  | AbortMaintenanceRequired

definition same_abort :: "fleet_abort_request \<Rightarrow> fleet_abort_receipt \<Rightarrow> bool" where
  "same_abort request receipt \<longleftrightarrow> fr_scope receipt = fq_scope request
     \<and> fr_scheduler_generation receipt = fq_scheduler_generation request
     \<and> fr_actor receipt = fq_actor request \<and> fr_reason receipt = fq_reason request"

fun cancel_each ::
  "instant \<Rightarrow> uuid list \<Rightarrow> uuid list \<Rightarrow> db \<Rightarrow> (uuid list \<Rightarrow> db \<Rightarrow> 'a outcome) \<Rightarrow> 'a outcome" where
  "cancel_each now [] accepted d k = k accepted d"
| "cancel_each now (job_id # job_ids) accepted d k =
     cancellation_request job_id now d (\<lambda>b d1.
       cancel_each now job_ids (if b then accepted @ [job_id] else accepted) d1 k)"

definition abort_fleet ::
  "instant \<times> instant \<Rightarrow> fleet_abort_request \<Rightarrow> db \<Rightarrow> fleet_abort_outcome outcome" where
  "abort_fleet env request d =
     (case env of (now, clock) \<Rightarrow>
      if fq_request_id request = 0 \<or> fq_scheduler_generation request < 0
        \<or> \<not> bounded_text 128 (fq_actor request) \<or> \<not> bounded_text 1024 (fq_reason request)
      then Error (Config ''fleet abort requires a non-nil UUID, nonnegative generation and bounded actor/reason'')
      else case row_of fr_request_id (db_abort_audit d) (fq_request_id request) of
        Some receipt \<Rightarrow> Rollback (if same_abort request receipt then AbortApplied receipt else AbortConflict)
      | None \<Rightarrow>
        if \<not> sc_paused (db_scheduler d) \<or> sc_generation (db_scheduler d) \<noteq> fq_scheduler_generation request
        then Rollback AbortMaintenanceRequired
        else
          let selected = sort (map j_id (filter (\<lambda>j. j_status j \<in> {JobQueued, JobClaimed, JobRunning}
                \<and> (fq_scope request = AbortAllPending \<or> j_status j = JobRunning)) (db_jobs d)))
          in cancel_each now selected [] d (\<lambda>accepted d1.
             let receipt = \<lparr>fr_request_id = fq_request_id request, fr_scope = fq_scope request,
                   fr_scheduler_generation = fq_scheduler_generation request, fr_actor = fq_actor request,
                   fr_reason = fq_reason request, fr_recorded_at = clock, fr_selected_job_ids = selected,
                   fr_accepted_job_ids = accepted\<rparr>
             in Commit (AbortApplied receipt) (d1\<lparr>db_abort_audit := db_abort_audit d1 @ [receipt]\<rparr>)))"

section \<open>The operations implement the abstract machine\<close>

text \<open>Withdrawing a set of offers at once is a sequence of single withdrawals.\<close>

definition withdrawn :: "uuid set \<Rightarrow> core \<Rightarrow> core" where
  "withdrawn S c = c\<lparr>
     c_attempts := (\<lambda>a. if a \<in> S then map_option (\<lambda>att. att\<lparr>at_status := AttemptExpired\<rparr>) (c_attempts c a)
       else c_attempts c a),
     c_jobs := (\<lambda>j. if \<exists>a \<in> S. \<exists>att. c_attempts c a = Some att \<and> at_job att = j
       then map_option (\<lambda>job. job\<lparr>jc_status := JobQueued, jc_claim := None\<rparr>) (c_jobs c j) else c_jobs c j)\<rparr>"

lemma withdrawn_jobs:
  "c_jobs (withdrawn S c) j = (if \<exists>a \<in> S. \<exists>att. c_attempts c a = Some att \<and> at_job att = j
     then map_option (\<lambda>job. job\<lparr>jc_status := JobQueued, jc_claim := None\<rparr>) (c_jobs c j) else c_jobs c j)"
  by (simp add: withdrawn_def)

lemma withdrawn_insert:
  assumes "a \<notin> S" "c_attempts c a = Some att" "c_jobs c (at_job att) = Some job"
  shows "withdrawn (insert a S) c = set_job (at_job att) (job\<lparr>jc_status := JobQueued, jc_claim := None\<rparr>)
    (set_attempt a (att\<lparr>at_status := AttemptExpired\<rparr>) (withdrawn S c))"
  using assms by (intro core_eqI) (auto simp: withdrawn_def fun_eq_iff)

lemma withdrawn_steps:
  assumes "finite S" "\<And>a. a \<in> S \<Longrightarrow> \<exists>att job. c_attempts c a = Some att \<and> at_status att = AttemptOffered
    \<and> c_jobs c (at_job att) = Some job"
  shows "core_step\<^sup>*\<^sup>* c (withdrawn S c)"
  using assms
proof (induction S)
  case empty
  have "withdrawn {} c = c" by (intro core_eqI) (simp_all add: withdrawn_def)
  then show ?case by simp
next
  case (insert a S)
  obtain att job where a: "c_attempts c a = Some att" "at_status att = AttemptOffered"
    "c_jobs c (at_job att) = Some job"
    using insert.prems [of a] by auto
  obtain job' where job': "c_jobs (withdrawn S c) (at_job att) = Some job'"
    "job'\<lparr>jc_status := JobQueued, jc_claim := None\<rparr> = job\<lparr>jc_status := JobQueued, jc_claim := None\<rparr>"
    using a(3) by (cases "\<exists>b \<in> S. \<exists>btt. c_attempts c b = Some btt \<and> at_job btt = at_job att")
      (auto simp: withdrawn_def)
  have "c_attempts (withdrawn S c) a = Some att" using a(1) insert.hyps(2) by (simp add: withdrawn_def)
  then have "core_step (withdrawn S c) (set_job (at_job att) (job'\<lparr>jc_status := JobQueued, jc_claim := None\<rparr>)
      (set_attempt a (att\<lparr>at_status := AttemptExpired\<rparr>) (withdrawn S c)))"
    using a(2) job'(1) by (intro core_step.withdraw) simp_all
  then have "core_step (withdrawn S c) (withdrawn (insert a S) c)"
    using withdrawn_insert [OF insert.hyps(2) a(1,3)] job'(2) by simp
  moreover have "core_step\<^sup>*\<^sup>* c (withdrawn S c)" using insert by blast
  ultimately show ?case by simp
qed

lemma withdraw_core:
  assumes "well_formed d" "d' = d\<lparr>db_attempts := update_where P (\<lambda>a. a\<lparr>wa_status := AttemptExpired\<rparr>) (db_attempts d),
      db_jobs := update_where (\<lambda>j. list_ex (\<lambda>a. has_claim a j) (filter P (db_attempts d))) requeue_job (db_jobs d)\<rparr>"
    "\<And>a. P a \<Longrightarrow> wa_status a = AttemptOffered"
  shows "core_of d' = withdrawn {wa_attempt_id a |a. a \<in> set (db_attempts d) \<and> P a} (core_of d)"
proof (rule core_eqI)
  note sch = wfD(1) [OF assms(1)]
  let ?S = "{wa_attempt_id a |a. a \<in> set (db_attempts d) \<and> P a}"
  have in_S: "wa_attempt_id a \<in> ?S \<longleftrightarrow> P a" if "row_of wa_attempt_id (db_attempts d) i = Some a" for a i
  proof
    assume "wa_attempt_id a \<in> ?S"
    then obtain b where "b \<in> set (db_attempts d)" "P b" "wa_attempt_id b = wa_attempt_id a" by auto
    then show "P a" using that row_of_in_set [OF schema_distinct(2) [OF sch], of b] row_of_Some [OF that] by simp
  qed (use row_of_Some [OF that] in auto)
  show "c_attempts (core_of d') = c_attempts (withdrawn ?S (core_of d))"
  proof
    fix i
    show "c_attempts (core_of d') i = c_attempts (withdrawn ?S (core_of d)) i"
    proof (cases "row_of wa_attempt_id (db_attempts d) i")
      case None
      then show ?thesis by (simp add: assms(2) withdrawn_def view_def row_of_update_where)
    next
      case (Some a)
      have "i \<in> ?S \<longleftrightarrow> P a" using in_S [OF Some] row_of_Some [OF Some] by simp
      with Some show ?thesis by (simp only: withdrawn_def assms(2)) (simp add: view_def row_of_update_where)
    qed
  qed
  have claims: "list_ex (\<lambda>a. has_claim a j) (filter P (db_attempts d))
      \<longleftrightarrow> (\<exists>a \<in> ?S. \<exists>att. c_attempts (core_of d) a = Some att \<and> at_job att = i)"
    if j: "row_of j_id (db_jobs d) i = Some j" for i j
  proof
    assume "list_ex (\<lambda>a. has_claim a j) (filter P (db_attempts d))"
    then obtain a where a: "a \<in> set (db_attempts d)" "P a" "has_claim a j" by (auto simp: list_ex_iff)
    then show "\<exists>a \<in> ?S. \<exists>att. c_attempts (core_of d) a = Some att \<and> at_job att = i"
      using row_of_in_set [OF schema_distinct(2) [OF sch] a(1)] row_of_Some [OF j]
      by (intro bexI [of _ "wa_attempt_id a"]) (auto simp: view_def has_claim_def)
  next
    assume "\<exists>a \<in> ?S. \<exists>att. c_attempts (core_of d) a = Some att \<and> at_job att = i"
    then obtain a where a: "a \<in> set (db_attempts d)" "P a" "wa_job_id a = i"
      using row_of_in_set [OF schema_distinct(2) [OF sch]] by (auto simp: view_Some)
    have "active (wa_status a)" using assms(3) [OF a(2)] by simp
    then obtain j' where "row_of j_id (db_jobs d) (wa_job_id a) = Some j'" "j_status j' = JobClaimed"
      "j_claim_token j' = Some (wa_claim_token a)"
      using wf_attempt_job [OF assms(1) row_of_in_set [OF schema_distinct(2) [OF sch] a(1)]] assms(3) [OF a(2)]
      by metis
    then show "list_ex (\<lambda>a. has_claim a j) (filter P (db_attempts d))"
      using a j row_of_Some [OF j] by (auto simp: list_ex_iff has_claim_def)
  qed
  show "c_jobs (core_of d') = c_jobs (withdrawn ?S (core_of d))"
  proof
    fix i
    show "c_jobs (core_of d') i = c_jobs (withdrawn ?S (core_of d)) i"
    proof (cases "row_of j_id (db_jobs d) i")
      case None
      then show ?thesis by (simp add: assms(2) withdrawn_def view_def row_of_update_where)
    next
      case (Some j)
      have "c_jobs (withdrawn ?S (core_of d)) i = (if list_ex (\<lambda>a. has_claim a j) (filter P (db_attempts d))
          then map_option (\<lambda>job. job\<lparr>jc_status := JobQueued, jc_claim := None\<rparr>) (c_jobs (core_of d) i)
          else c_jobs (core_of d) i)"
        by (simp only: withdrawn_jobs claims [OF Some])
      with Some show ?thesis by (simp add: assms(2) view_def row_of_update_where)
    qed
  qed
qed (simp_all add: assms(2) withdrawn_def)

lemma ensures_withdraw_offers:
  assumes "well_formed d" "\<And>d'. refines d d' \<Longrightarrow> ensures Q (k d')"
  shows "ensures Q (withdraw_offers P d k)"
proof -
  note sch = wfD(1) [OF assms(1)]
  let ?P = "\<lambda>a. P a \<and> wa_status a = AttemptOffered"
  let ?S = "{wa_attempt_id a |a. a \<in> set (db_attempts d) \<and> ?P a}"
  have "core_step\<^sup>*\<^sup>* (core_of d) (withdrawn ?S (core_of d))"
  proof (rule withdrawn_steps)
    fix i
    assume "i \<in> ?S"
    then obtain a where a: "i = wa_attempt_id a" "a \<in> set (db_attempts d)" "wa_status a = AttemptOffered" by auto
    note row = row_of_in_set [OF schema_distinct(2) [OF sch] a(2)]
    obtain j where "row_of j_id (db_jobs d) (wa_job_id a) = Some j"
      using wf_attempt_job [OF assms(1) row] a(3) by (metis active_simps(1))
    with row a show "\<exists>att job. c_attempts (core_of d) i = Some att \<and> at_status att = AttemptOffered
        \<and> c_jobs (core_of d) (at_job att) = Some job"
      by (simp add: view_def)
  qed simp
  moreover have "core_of (d\<lparr>db_attempts := update_where ?P (\<lambda>a. a\<lparr>wa_status := AttemptExpired\<rparr>) (db_attempts d),
      db_jobs := update_where (\<lambda>j. list_ex (\<lambda>a. has_claim a j) (filter ?P (db_attempts d))) requeue_job (db_jobs d)\<rparr>)
      = withdrawn ?S (core_of d)"
    by (rule withdraw_core [OF assms(1) refl]) simp
  ultimately show ?thesis
    unfolding withdraw_offers_def Let_def
    by (intro tx_intro assms(2)) (simp add: refines_def schema_intros sch)
qed

lemma refines_frame:
  "refines d d' \<Longrightarrow> refines d (d'\<lparr>db_scheduler_audit := t1\<rparr>)"
  "refines d d' \<Longrightarrow> refines d (d'\<lparr>db_lifecycle_audit := t2\<rparr>)"
  "refines d d' \<Longrightarrow> refines d (d'\<lparr>db_abort_audit := t3\<rparr>)"
  "refines d d' \<Longrightarrow> session_table_ok t4 \<Longrightarrow> refines d (d'\<lparr>db_sessions := t4\<rparr>)"
  "refines d d' \<Longrightarrow> refines d (d'\<lparr>db_scheduler := t5\<rparr>)"
  by (simp_all add: refines_def schema_intros)

lemma well_formed_frame:
  "well_formed d \<Longrightarrow> session_table_ok t1 \<Longrightarrow> well_formed (d\<lparr>db_sessions := t1\<rparr>)"
  "well_formed d \<Longrightarrow> well_formed (d\<lparr>db_scheduler := t2\<rparr>)"
  "well_formed d \<Longrightarrow> well_formed (d\<lparr>db_registry := t3\<rparr>)"
  by (simp_all add: well_formed_def schema_intros)

lemma refines_source [simp]:
  "refines (d\<lparr>db_sessions := t1\<rparr>) d' \<longleftrightarrow> refines d d'"
  "refines (d\<lparr>db_scheduler := t2\<rparr>) d' \<longleftrightarrow> refines d d'"
  "refines (d\<lparr>db_registry := t3\<rparr>) d' \<longleftrightarrow> refines d d'"
  by (simp_all add: refines_def)

lemma change_scheduler_refines:
  assumes "well_formed d"
  shows "ensures (refines d) (change_scheduler clock change d)"
  unfolding change_scheduler_def Let_def
  by (intro tx_intro ensures_withdraw_offers)
    (auto intro!: refines_frame well_formed_frame assms refines_refl wfD(1) [OF assms])

lemma change_protocol_policy_refines:
  "schema_ok d \<Longrightarrow> ensures (refines d) (change_protocol_policy clock change d)"
  unfolding change_protocol_policy_def Let_def
  by (intro tx_intro) (auto intro!: refines_stutter schema_intros)

lemma apply_lifecycle_refines:
  assumes "well_formed d"
  shows "ensures (refines d) (apply_lifecycle clock change worker target d)"
proof (cases "lc_action change \<noteq> Uncordon")
  case True
  show ?thesis
    unfolding apply_lifecycle_def Let_def if_P [OF True]
    by (intro tx_intro ensures_withdraw_offers)
      (auto intro!: refines_frame well_formed_frame assms)
next
  case False
  show ?thesis
    unfolding apply_lifecycle_def Let_def if_not_P [OF False]
    by (intro tx_intro) (auto intro!: refines_stutter schema_intros wfD(1) [OF assms])
qed

lemma change_worker_lifecycle_refines:
  "well_formed d \<Longrightarrow> ensures (refines d) (change_worker_lifecycle clock change d)"
  unfolding change_worker_lifecycle_def by (intro tx_intro apply_lifecycle_refines)

lemma cancel_each_refines:
  assumes "well_formed d" "\<And>accepted d'. refines d d' \<Longrightarrow> ensures Q (k accepted d')"
  shows "ensures Q (cancel_each now job_ids accepted d k)"
  using assms
proof (induction job_ids arbitrary: accepted d)
  case (Cons i job_ids)
  show ?case
    unfolding cancel_each.simps
  proof (rule request_refines [OF Cons.prems(1)])
    fix b d'
    assume d': "refines d d'"
    show "ensures Q (cancel_each now job_ids (if b then accepted @ [i] else accepted) d' k)"
      by (intro Cons.IH refines_wf [OF Cons.prems(1) d'] Cons.prems(2) refines_trans [OF d'])
  qed
qed (simp add: refines_refl wfD)

lemma abort_fleet_refines:
  assumes "well_formed d"
  shows "ensures (refines d) (abort_fleet env request d)"
  unfolding abort_fleet_def Let_def
  by (intro tx_intro cancel_each_refines assms) (auto intro: refines_frame)

section \<open>Receipts\<close>

text \<open>Every administrative operation is an audited request.\<close>

lemma yields_withdraw_offers [yield_intro]:
  "(\<And>t u. yields R (k (d\<lparr>db_attempts := t, db_jobs := u\<rparr>))) \<Longrightarrow> yields R (withdraw_offers P d k)"
  unfolding withdraw_offers_def Let_def by (intro yield_intro)

lemma yields_registry [yield_intro]:
  "(list_all registry_check t \<Longrightarrow> yields R (k (d\<lparr>db_registry := t\<rparr>))) \<Longrightarrow> yields R (set_registry t d k)"
  "(supported_revision (pp_minimum_revision (db_protocol d)) \<Longrightarrow> yields R (k2 (db_protocol d)))
     \<Longrightarrow> yields R (protocol_lock_policy d k2)"
  by (simp_all add: set_registry_def protocol_lock_policy_def yield_intro)

lemma row_of_appended:
  "row_of key t (key r) = None \<Longrightarrow> row_of key (t @ [r]) (key r) = Some r"
  "row_of key t k = Some x \<Longrightarrow> row_of key (t @ [r]) k = Some x"
  by (simp_all add: row_of_append)

text \<open>A successful change appends its receipt to the audit and leaves the rest of the audit alone.\<close>

lemma change_scheduler_yields:
  "yields (\<lambda>out d'. bounded_text 128 (ch_actor change) \<and> bounded_text 1024 (ch_reason change)
      \<and> row_of sa_request_id (db_scheduler_audit d) (ch_request_id change) = None
      \<and> out = Some (SchedulerApplied (db_scheduler d'))
      \<and> sc_paused (db_scheduler d') = ch_paused change
      \<and> db_scheduler_audit d' = db_scheduler_audit d @ [scheduler_receipt change (db_scheduler d')])
    (change_scheduler clock change d)"
  unfolding change_scheduler_def Let_def by (intro yield_intro) simp_all

lemma change_protocol_policy_yields:
  "yields (\<lambda>out d'. is_ok (validate_revision (pd_minimum_revision change))
      \<and> bounded_text 128 (pd_actor change) \<and> bounded_text 1024 (pd_reason change)
      \<and> bounded_text 2048 (pd_rollback_evidence change)
      \<and> supported_revision (pp_minimum_revision (db_protocol d))
      \<and> row_of pa_request_id (db_protocol_audit d) (pd_request_id change) = None
      \<and> (\<exists>row. out = Some (ProtocolApplied (pa_receipt row)) \<and> same_protocol_change change row
           \<and> pa_request_id row = pd_request_id change \<and> db_protocol_audit d' = db_protocol_audit d @ [row]))
    (change_protocol_policy clock change d)"
  unfolding change_protocol_policy_def Let_def
  by (intro yield_intro) (simp_all add: same_protocol_change_def is_ok_def)

lemma apply_lifecycle_yields:
  "yields (\<lambda>out d'. \<exists>row. out = Some (LifecycleApplied row) \<and> same_lifecycle_change change row
      \<and> lr_request_id row = lc_request_id change \<and> db_lifecycle_audit d' = db_lifecycle_audit d @ [row])
    (apply_lifecycle clock change worker target d)"
  unfolding apply_lifecycle_def Let_def
  by (cases "lc_action change = Uncordon"; simp only: if_True if_False simp_thms; intro yield_intro)
    (simp_all add: same_lifecycle_change_def)

lemma change_worker_lifecycle_yields:
  "yields (\<lambda>out d'. bounded_text 128 (lc_actor change) \<and> bounded_text 1024 (lc_reason change)
      \<and> row_of lr_request_id (db_lifecycle_audit d) (lc_request_id change) = None
      \<and> (\<exists>row. out = Some (LifecycleApplied row) \<and> same_lifecycle_change change row
      \<and> lr_request_id row = lc_request_id change \<and> db_lifecycle_audit d' = db_lifecycle_audit d @ [row]))
    (change_worker_lifecycle clock change d)"
proof -
  have "yields (\<lambda>out d'. bounded_text 128 (lc_actor change) \<and> bounded_text 1024 (lc_reason change)
      \<and> row_of lr_request_id (db_lifecycle_audit d) (lc_request_id change) = None
      \<and> (\<exists>row. out = Some (LifecycleApplied row) \<and> same_lifecycle_change change row
      \<and> lr_request_id row = lc_request_id change \<and> db_lifecycle_audit d' = db_lifecycle_audit d @ [row]))
      (apply_lifecycle clock change worker target d)"
    if "bounded_text 128 (lc_actor change)" "bounded_text 1024 (lc_reason change)"
      "row_of lr_request_id (db_lifecycle_audit d) (lc_request_id change) = None" for worker target
    using apply_lifecycle_yields [of change d clock worker target] that by (simp add: yields_def split: outcome.splits)
  then show ?thesis
    unfolding change_worker_lifecycle_def by (intro yield_intro) simp_all
qed

lemma yields_cancellation_request:
  assumes "\<And>b d'. db_abort_audit d' = db_abort_audit d \<Longrightarrow> yields R (k b d')"
  shows "yields R (cancellation_request i now d k)"
  unfolding cancellation_request_def cancel_job_def discard_attempt_projection_def Let_def
  by (intro yield_intro assms) (simp_all add: update_obligations_def insert_job_event_def)

lemma yields_cancel_each:
  assumes "\<And>accepted d'. db_abort_audit d' = db_abort_audit d \<Longrightarrow> yields R (k accepted d')"
  shows "yields R (cancel_each now job_ids accepted d k)"
  using assms
proof (induction job_ids arbitrary: accepted d)
  case (Cons i job_ids)
  show ?case
    unfolding cancel_each.simps
    by (rule yields_cancellation_request, rule Cons.IH, rule Cons.prems) simp
qed simp

lemma abort_fleet_yields:
  "yields (\<lambda>out d'. fq_request_id request \<noteq> 0 \<and> 0 \<le> fq_scheduler_generation request
      \<and> bounded_text 128 (fq_actor request) \<and> bounded_text 1024 (fq_reason request)
      \<and> row_of fr_request_id (db_abort_audit d) (fq_request_id request) = None
      \<and> (\<exists>row. out = Some (AbortApplied row) \<and> same_abort request row
      \<and> fr_request_id row = fq_request_id request \<and> db_abort_audit d' = db_abort_audit d @ [row]))
    (abort_fleet env request d)"
  unfolding abort_fleet_def Let_def
  by (intro yield_intro yields_cancel_each) (simp_all add: same_abort_def)

lemma no_commit_error: "yields R oc \<Longrightarrow> (\<And>d. \<not> R None d) \<Longrightarrow> oc \<noteq> CommitError e d'"
  by (auto dest: yields_CommitError)

interpretation scheduler_requests: audited_requests change_scheduler ch_request_id
  "\<lambda>d. row_of sa_request_id (db_scheduler_audit d)" same_scheduler_change replayed_scheduler SchedulerConflict
  "\<lambda>change d. bounded_text 128 (ch_actor change) \<and> bounded_text 1024 (ch_reason change)"
proof unfold_locales
  fix env r d out d'
  assume "change_scheduler env r d = Commit out d'"
  note y = yields_Commit [OF change_scheduler_yields this]
  then show "(bounded_text 128 (ch_actor r) \<and> bounded_text 1024 (ch_reason r))
      \<and> row_of sa_request_id (db_scheduler_audit d) (ch_request_id r) = None
      \<and> (\<exists>c. row_of sa_request_id (db_scheduler_audit d') (ch_request_id r) = Some c
            \<and> same_scheduler_change r c \<and> replayed_scheduler r c = out)"
    by (auto simp: row_of_append scheduler_receipt_def same_scheduler_change_def replayed_scheduler_def)
  show "row_of sa_request_id (db_scheduler_audit d) i = Some c
      \<Longrightarrow> row_of sa_request_id (db_scheduler_audit d') i = Some c" for i c
    using y by (auto simp: row_of_append)
next
  fix env r d e d'
  show "change_scheduler env r d \<noteq> CommitError e d'"
    by (rule no_commit_error [OF change_scheduler_yields]) simp
qed (auto simp: change_scheduler_def)

interpretation protocol_requests: audited_requests change_protocol_policy pd_request_id
  "\<lambda>d. row_of pa_request_id (db_protocol_audit d)" same_protocol_change
  "\<lambda>change row. ProtocolApplied (pa_receipt row)" ProtocolConflict
  "\<lambda>change d. is_ok (validate_revision (pd_minimum_revision change))
      \<and> bounded_text 128 (pd_actor change) \<and> bounded_text 1024 (pd_reason change)
      \<and> bounded_text 2048 (pd_rollback_evidence change)
      \<and> supported_revision (pp_minimum_revision (db_protocol d))"
proof unfold_locales
  fix env r d out d'
  assume "change_protocol_policy env r d = Commit out d'"
  note y = yields_Commit [OF change_protocol_policy_yields this]
  then show "(is_ok (validate_revision (pd_minimum_revision r))
      \<and> bounded_text 128 (pd_actor r) \<and> bounded_text 1024 (pd_reason r)
      \<and> bounded_text 2048 (pd_rollback_evidence r)
      \<and> supported_revision (pp_minimum_revision (db_protocol d)))
      \<and> row_of pa_request_id (db_protocol_audit d) (pd_request_id r) = None
      \<and> (\<exists>c. row_of pa_request_id (db_protocol_audit d') (pd_request_id r) = Some c
            \<and> same_protocol_change r c \<and> ProtocolApplied (pa_receipt c) = out)"
    by (auto simp: row_of_append)
  show "row_of pa_request_id (db_protocol_audit d) i = Some c
      \<Longrightarrow> row_of pa_request_id (db_protocol_audit d') i = Some c" for i c
    using y by (auto simp: row_of_append)
next
  fix env r d e d'
  show "change_protocol_policy env r d \<noteq> CommitError e d'"
    by (rule no_commit_error [OF change_protocol_policy_yields]) simp
qed (auto simp: change_protocol_policy_def protocol_lock_policy_def is_ok_def split: sum.splits)

interpretation lifecycle_requests: audited_requests change_worker_lifecycle lc_request_id
  "\<lambda>d. row_of lr_request_id (db_lifecycle_audit d)" same_lifecycle_change "\<lambda>change. LifecycleApplied"
  LifecycleConflict
  "\<lambda>change d. bounded_text 128 (lc_actor change) \<and> bounded_text 1024 (lc_reason change)"
proof unfold_locales
  fix env r d out d'
  assume "change_worker_lifecycle env r d = Commit out d'"
  note y = yields_Commit [OF change_worker_lifecycle_yields this]
  then show "(bounded_text 128 (lc_actor r) \<and> bounded_text 1024 (lc_reason r))
      \<and> row_of lr_request_id (db_lifecycle_audit d) (lc_request_id r) = None
      \<and> (\<exists>c. row_of lr_request_id (db_lifecycle_audit d') (lc_request_id r) = Some c
            \<and> same_lifecycle_change r c \<and> LifecycleApplied c = out)"
    by (auto simp: row_of_append)
  show "row_of lr_request_id (db_lifecycle_audit d) i = Some c
      \<Longrightarrow> row_of lr_request_id (db_lifecycle_audit d') i = Some c" for i c
    using y by (auto simp: row_of_append)
next
  fix env r d e d'
  show "change_worker_lifecycle env r d \<noteq> CommitError e d'"
    by (rule no_commit_error [OF change_worker_lifecycle_yields]) simp
qed (auto simp: change_worker_lifecycle_def)

interpretation abort_requests: audited_requests abort_fleet fq_request_id
  "\<lambda>d. row_of fr_request_id (db_abort_audit d)" same_abort "\<lambda>request. AbortApplied" AbortConflict
  "\<lambda>request d. fq_request_id request \<noteq> 0 \<and> 0 \<le> fq_scheduler_generation request
      \<and> bounded_text 128 (fq_actor request) \<and> bounded_text 1024 (fq_reason request)"
proof unfold_locales
  fix env r d out d'
  assume "abort_fleet env r d = Commit out d'"
  note y = yields_Commit [OF abort_fleet_yields this]
  then show "(fq_request_id r \<noteq> 0 \<and> 0 \<le> fq_scheduler_generation r
      \<and> bounded_text 128 (fq_actor r) \<and> bounded_text 1024 (fq_reason r))
      \<and> row_of fr_request_id (db_abort_audit d) (fq_request_id r) = None
      \<and> (\<exists>c. row_of fr_request_id (db_abort_audit d') (fq_request_id r) = Some c
            \<and> same_abort r c \<and> AbortApplied c = out)"
    by (auto simp: row_of_append)
  show "row_of fr_request_id (db_abort_audit d) i = Some c
      \<Longrightarrow> row_of fr_request_id (db_abort_audit d') i = Some c" for i c
    using y by (auto simp: row_of_append)
next
  fix env r d e d'
  show "abort_fleet env r d \<noteq> CommitError e d'"
    by (rule no_commit_error [OF abort_fleet_yields]) simp
qed (auto simp: abort_fleet_def split: prod.splits)

section \<open>What the administration promises\<close>

lemma bounded_text_sample [simp]: "bounded_text 128 ''op''" "bounded_text 1024 ''op''" "bounded_text 2048 ''op''"
  by (simp_all add: bounded_text_def trim_is_empty_def is_whitespace_def byte_of_def utf8_lead_def utf8_width_def)

text \<open>C32: Repeating an applied scheduler change, at any time and from any later state that still has its receipt, returns
  the first answer and changes nothing; a different change under the same identity is refused as a conflict.\<close>

theorem scheduler_change_idempotent:
  assumes "change_scheduler clock change d = Commit out d'"
    "row_of sa_request_id (db_scheduler_audit later) (ch_request_id change)
      = row_of sa_request_id (db_scheduler_audit d') (ch_request_id change)"
    "ch_request_id other = ch_request_id change" "bounded_text 128 (ch_actor other)" "bounded_text 1024 (ch_reason other)"
  shows "change_scheduler clock' other later = Rollback
    (if (ch_paused other, ch_actor other, ch_reason other) = (ch_paused change, ch_actor change, ch_reason change)
     then out else SchedulerConflict)"
proof (cases "(ch_paused other, ch_actor other, ch_reason other) = (ch_paused change, ch_actor change, ch_reason change)")
  case True
  with assms(3) have "other = change" by (cases other; cases change) simp
  with True show ?thesis using scheduler_requests.retry [OF assms(1), of later clock'] assms(2,4,5) by auto
next
  case False
  have "\<not> same_scheduler_change other c" if "row_of sa_request_id (db_scheduler_audit d') (ch_request_id change) = Some c" for c
    using False that scheduler_requests.recorded [OF assms(1)] by (auto simp: same_scheduler_change_def)
  with False show ?thesis using scheduler_requests.reused [OF assms(1) _ assms(3), of later clock'] assms(2,4,5) by auto
qed

theorem scheduler_change_idempotent_witness:
  "\<exists>out d'. change_scheduler 50 \<lparr>ch_request_id = 9, ch_paused = True, ch_actor = ''op'', ch_reason = ''op''\<rparr> offered_db
       = Commit out d'
     \<and> change_scheduler 60 \<lparr>ch_request_id = 9, ch_paused = True, ch_actor = ''op'', ch_reason = ''op''\<rparr> d' = Rollback out
     \<and> change_scheduler 60 \<lparr>ch_request_id = 9, ch_paused = False, ch_actor = ''op'', ch_reason = ''op''\<rparr> d'
       = Rollback SchedulerConflict"
proof -
  let ?change = "\<lparr>ch_request_id = 9, ch_paused = True, ch_actor = ''op'', ch_reason = ''op''\<rparr>"
  obtain out d' where tx: "change_scheduler 50 ?change offered_db = Commit out d'"
    by (simp add: change_scheduler_def sample_states sample_rows withdraw_offers_def statement_eval Let_def pause_session_def awaiting_session_def table_checks requeue_job_def has_claim_def live_session_def)
  from scheduler_change_idempotent [OF tx refl, of ?change 60]
    scheduler_change_idempotent [OF tx refl, of "?change\<lparr>ch_paused := False\<rparr>" 60] tx show ?thesis by auto
qed
text \<open>C30: Pausing a running scheduler withdraws every offer in the same transaction: no offered attempt is left, each
  offered attempt is expired, its job is queued again without a claim, and the scheduler is paused under the next
  generation.\<close>

theorem pause_withdraws_every_offer:
  assumes "change_scheduler clock change d = Commit out d'" "ch_paused change" "\<not> sc_paused (db_scheduler d)" "well_formed d"
  shows "sc_paused (db_scheduler d') \<and> sc_generation (db_scheduler d') = sc_generation (db_scheduler d) + 1
    \<and> (\<forall>a \<in> set (db_attempts d'). wa_status a \<noteq> AttemptOffered)
    \<and> (\<forall>a \<in> set (db_attempts d). wa_status a = AttemptOffered
        \<longrightarrow> row_of wa_attempt_id (db_attempts d') (wa_attempt_id a) = Some (a\<lparr>wa_status := AttemptExpired\<rparr>)
          \<and> (\<exists>j. row_of j_id (db_jobs d) (wa_job_id a) = Some j
               \<and> row_of j_id (db_jobs d') (wa_job_id a) = Some (requeue_job j)))"
proof -
  note sch = wfD(1) [OF assms(4)]
  let ?withdrawn = "filter (\<lambda>a. wa_status a = AttemptOffered) (db_attempts d)"
  have policy: "sc_paused (db_scheduler d')" "sc_generation (db_scheduler d') = sc_generation (db_scheduler d) + 1"
    and atts: "db_attempts d' = update_where (\<lambda>a. wa_status a = AttemptOffered) (\<lambda>a. a\<lparr>wa_status := AttemptExpired\<rparr>) (db_attempts d)"
    and jobs: "db_jobs d' = update_where (\<lambda>j. list_ex (\<lambda>a. has_claim a j) ?withdrawn) requeue_job (db_jobs d)"
    using assms(1-3)
    by (auto simp: change_scheduler_def Let_def withdraw_offers_def statement_eval split: if_splits option.splits)
  have "row_of wa_attempt_id (db_attempts d') (wa_attempt_id a) = Some (a\<lparr>wa_status := AttemptExpired\<rparr>)
      \<and> (\<exists>j. row_of j_id (db_jobs d) (wa_job_id a) = Some j \<and> row_of j_id (db_jobs d') (wa_job_id a) = Some (requeue_job j))"
    if a: "a \<in> set (db_attempts d)" "wa_status a = AttemptOffered" for a
  proof -
    note row = row_of_in_set [OF schema_distinct(2) [OF sch] a(1)]
    obtain j where j: "row_of j_id (db_jobs d) (wa_job_id a) = Some j" "j_status j = JobClaimed"
        "j_claim_token j = Some (wa_claim_token a)"
      using wf_attempt_job [OF assms(4) row] a(2) by auto
    then have "list_ex (\<lambda>a. has_claim a j) ?withdrawn"
      using a row_of_Some [OF j(1)] by (auto simp: list_ex_iff has_claim_def)
    with row j a(2) show ?thesis by (simp add: atts jobs row_of_update_where)
  qed
  moreover have "\<forall>a \<in> set (db_attempts d'). wa_status a \<noteq> AttemptOffered"
    by (simp add: atts ball_update_where)
  ultimately show ?thesis using policy by blast
qed

theorem pause_withdraws_every_offer_witness:
  "\<exists>out d'. change_scheduler 50 \<lparr>ch_request_id = 9, ch_paused = True, ch_actor = ''op'', ch_reason = ''op''\<rparr> offered_db
       = Commit out d'
     \<and> sc_paused (db_scheduler d') \<and> row_of j_id (db_jobs d') 5 = Some (requeue_job (sample_job JobClaimed))"
proof -
  let ?change = "\<lparr>ch_request_id = 9, ch_paused = True, ch_actor = ''op'', ch_reason = ''op''\<rparr>"
  obtain out d' where tx: "change_scheduler 50 ?change offered_db = Commit out d'"
    by (simp add: change_scheduler_def sample_states sample_rows withdraw_offers_def statement_eval Let_def pause_session_def
        awaiting_session_def table_checks requeue_job_def has_claim_def live_session_def)
  have "\<not> sc_paused (db_scheduler offered_db)" by (simp add: sample_states)
  from pause_withdraws_every_offer [OF tx _ this sample_well_formed(2)] tx show ?thesis
    by (simp add: sample_states sample_rows)
qed

text \<open>C31: The protocol floor moves only inside the supported window, while the scheduler is paused and the fleet is quiet
  (no active attempt, no owed cleanup, nothing left to project or to promote); raising it also requires that every enabled
  worker has a live session at the new revision. Its generation counts the changes.\<close>

theorem protocol_floor_guarded:
  assumes "change_protocol_policy clock change d = Commit out d'"
    "pp_minimum_revision (db_protocol d') \<noteq> pp_minimum_revision (db_protocol d)"
  shows "supported_revision (pp_minimum_revision (db_protocol d'))
    \<and> pp_minimum_revision (db_protocol d') = pd_minimum_revision change
    \<and> pp_generation (db_protocol d') = pp_generation (db_protocol d) + 1
    \<and> sc_paused (db_scheduler d) \<and> \<not> busy_fleet d
    \<and> (pp_minimum_revision (db_protocol d) < pd_minimum_revision change
       \<longrightarrow> (\<forall>r \<in> set (db_registry d). wr_enabled r \<longrightarrow> converged (pd_minimum_revision change) clock d (wr_worker_id r)))"
proof -
  have sorted: "sort_key f xs = [] \<longleftrightarrow> xs = []" for f :: "worker_registry \<Rightarrow> uuid" and xs
    by (metis set_empty set_sort)
  have "supported_revision (pd_minimum_revision change)" if "validate_revision (pd_minimum_revision change) = Inr u" for u
    using that by (auto simp: validate_revision_def supported_revision_def split: if_splits)
  then show ?thesis
    using assms
    by (auto simp: change_protocol_policy_def protocol_lock_policy_def Let_def sorted filter_empty_conv
        split: if_splits option.splits sum.splits)
qed

theorem protocol_floor_guarded_witness:
  "\<exists>out d'. change_protocol_policy 50 \<lparr>pd_request_id = 9, pd_minimum_revision = 2, pd_actor = ''op'', pd_reason = ''op'',
      pd_rollback_evidence = ''op''\<rparr> (queued_db\<lparr>db_scheduler := (db_scheduler queued_db)\<lparr>sc_paused := True\<rparr>\<rparr>) = Commit out d'
    \<and> pp_minimum_revision (db_protocol d') = 2 \<and> pp_generation (db_protocol d') = 1"
proof -
  let ?d = "queued_db\<lparr>db_scheduler := (db_scheduler queued_db)\<lparr>sc_paused := True\<rparr>\<rparr>"
  obtain out d' where tx: "change_protocol_policy 50 \<lparr>pd_request_id = 9, pd_minimum_revision = 2, pd_actor = ''op'',
      pd_reason = ''op'', pd_rollback_evidence = ''op''\<rparr> ?d = Commit out d'"
    and moved: "pp_minimum_revision (db_protocol d') \<noteq> pp_minimum_revision (db_protocol ?d)"
    by (simp add: change_protocol_policy_def protocol_lock_policy_def Let_def validate_revision_def revision_defs
        supported_revision_def sample_states sample_rows busy_fleet_def COUNTERS_SQL_def affected_def open_staging_def
        converged_def live_session_def)
  from protocol_floor_guarded [OF tx moved] tx show ?thesis by (auto simp: sample_states)
qed

lemma cancellation_request_commit:
  assumes "cancellation_request i now d k = Commit out d'"
  obtains b d1 where "request_cancel i now d = Commit b d1" "k b d1 = Commit out d'"
proof -
  have cancel: "\<exists>b d2. cancel_job now i st ids d1 Commit = Commit b d2 \<and> k b d2 = Commit out d'"
    if "cancel_job now i st ids d1 k = Commit out d'" for st ids d1
    using that unfolding cancel_job_def statement_eval by (auto split: if_splits)
  have "\<exists>b d1. cancellation_request i now d Commit = Commit b d1 \<and> k b d1 = Commit out d'"
  proof (cases "row_of j_id (db_jobs d) i")
    case (Some job)
    show ?thesis
      using assms cancel unfolding cancellation_request_def Let_def discard_attempt_projection_def statement_eval set_events_def Some
      by (auto split: if_splits option.splits)
  qed (use assms in \<open>auto simp: cancellation_request_def\<close>)
  then show ?thesis using that by (auto simp: request_cancel_def)
qed

lemma cancel_each_commit:
  assumes "cancel_each now ids accepted d k = Commit out d'" "well_formed d" "\<And>i. i \<in> set accepted \<Longrightarrow> doomed (core_of d) i"
  shows "\<exists>acc d1. k acc d1 = Commit out d' \<and> well_formed d1 \<and> (\<forall>i \<in> set acc. doomed (core_of d1) i)"
  using assms
proof (induction ids arbitrary: accepted d)
  case (Cons i ids)
  from Cons.prems(1) obtain b d1 where req: "request_cancel i now d = Commit b d1"
    and rest: "cancel_each now ids (if b then accepted @ [i] else accepted) d1 k = Commit out d'"
    by (auto elim: cancellation_request_commit)
  have step: "refines d d1"
    using request_cancel_refines [OF Cons.prems(2), of i now] req by (simp add: ensures_def)
  then have "doomed (core_of d1) n" if "n \<in> set accepted" for n
    using core_steps_doomed Cons.prems(3) [OF that] by (auto simp: refines_def)
  moreover have "b \<Longrightarrow> doomed (core_of d1) i" using request_cancel_dooms(1) [OF Cons.prems(2)] req by auto
  ultimately show ?case
    by (intro Cons.IH [OF rest refines_wf [OF Cons.prems(2) step]]) (auto split: if_splits)
qed auto

lemma abort_fleet_commit:
  assumes "abort_fleet env request d = Commit (AbortApplied receipt) d'" "well_formed d"
  shows "well_formed d'" "i \<in> set (fr_accepted_job_ids receipt) \<Longrightarrow> doomed (core_of d') i"
proof -
  show "well_formed d'"
    using abort_fleet_refines [OF assms(2), of env request] assms by (auto simp: ensures_def intro: refines_wf)
  obtain now clock where env: "env = (now, clock)" by (cases env)
  let ?selected = "sort (map j_id (filter (\<lambda>j. j_status j \<in> {JobQueued, JobClaimed, JobRunning}
                \<and> (fq_scope request = AbortAllPending \<or> j_status j = JobRunning)) (db_jobs d)))"
  let ?k = "\<lambda>accepted d1. let receipt = \<lparr>fr_request_id = fq_request_id request, fr_scope = fq_scope request,
                   fr_scheduler_generation = fq_scheduler_generation request, fr_actor = fq_actor request,
                   fr_reason = fq_reason request, fr_recorded_at = clock, fr_selected_job_ids = ?selected,
                   fr_accepted_job_ids = accepted\<rparr>
             in Commit (AbortApplied receipt) (d1\<lparr>db_abort_audit := db_abort_audit d1 @ [receipt]\<rparr>)"
  have "cancel_each now ?selected [] d ?k = Commit (AbortApplied receipt) d'"
    using assms(1) by (simp add: abort_fleet_def env Let_def split: if_splits option.splits)
  from cancel_each_commit [OF this assms(2)] obtain acc d1 where
    "?k acc d1 = Commit (AbortApplied receipt) d'" "\<forall>i \<in> set acc. doomed (core_of d1) i" by auto
  then show "i \<in> set (fr_accepted_job_ids receipt) \<Longrightarrow> doomed (core_of d') i" by (auto simp: Let_def)
qed

end
