(* ===== verification/Fleet_Store_Results.thy ===== *)
theory Fleet_Store_Results
  imports Fleet_Store_Fencing Digest
begin

text \<open>
  What an attempt reports: its reliable events, its progress, its artifacts and its terminal result
  (\<open>stores/fleet.rs\<close>, \<open>ingest_reliable_event\<close> to \<open>fleet_snapshot\<close> and the \<open>persist_*\<close> functions).
  Reliable events are acknowledged up to the end of the gapless prefix and projected once, in order;
  a terminal result is accepted once, from the attempt that holds the job, and only with what the
  attempt durably reported before.
\<close>

section \<open>Reliable events\<close>

datatype event_ingest = EventInserted | EventDuplicate | EventConflict | EventStale

text \<open>The loop that advances over the events that follow the acknowledged prefix without a gap.\<close>

lemma card_above_decreases:
  "c + 1 \<in> set seqs \<Longrightarrow> card {s \<in> set seqs. c + 1 < s} < card {s \<in> set seqs. (c :: int) < s}"
  by (rule psubset_card_mono) (simp, force)

function contiguous_prefix :: "int list \<Rightarrow> int \<Rightarrow> int" where
  "contiguous_prefix seqs contiguous =
     (if contiguous + 1 \<in> set seqs then contiguous_prefix seqs (contiguous + 1) else contiguous)"
  by pat_completeness auto

termination
  by (relation "measure (\<lambda>(seqs, c). card {s \<in> set seqs. c < s})")
    (rule wf_measure, unfold in_measure prod.case, rule card_above_decreases)

declare contiguous_prefix.simps [simp del]

definition event_seqs :: "uuid \<Rightarrow> worker_attempt_event list \<Rightarrow> int list" where
  "event_seqs attempt_id t = map we_reliable_seq (filter (\<lambda>e. we_attempt_id e = attempt_id) t)"

definition lease_current :: "uuid \<Rightarrow> attempt_identity \<Rightarrow> uuid \<Rightarrow> instant \<Rightarrow> db \<Rightarrow> worker_attempt \<Rightarrow> bool" where
  "lease_current worker_id identity trace_id now d a \<longleftrightarrow>
     names_attempt worker_id identity a \<and> attempt_authorized d a \<and> wa_trace_id a = trace_id
     \<and> executing (wa_status a) \<and> wa_lease_expires_at a > now"

definition event_row :: "instant \<Rightarrow> reliable_event_envelope \<Rightarrow> worker_attempt_event" where
  "event_row now event = \<lparr>we_attempt_id = ai_attempt_id (re_identity event),
     we_reliable_seq = as_i64 (re_reliable_seq event), we_trace_id = re_trace_id event,
     we_payload_kind = (case re_payload event of Phase _ _ \<Rightarrow> ''phase'' | Terminal _ \<Rightarrow> ''terminal''),
     we_payload = re_payload event, we_payload_digest = re_payload_digest event,
     we_worker_timestamp_ms = re_worker_timestamp_ms event, we_received_at = now,
     we_projected_at = None, we_projection_discarded_reason = None\<rparr>"

text \<open>The constraints of the row are checked before the conflict with an existing one.\<close>

definition ingest_reliable_event ::
  "uuid \<Rightarrow> reliable_event_envelope \<Rightarrow> instant \<Rightarrow> db \<Rightarrow> event_ingest outcome" where
  "ingest_reliable_event worker_id event now d =
     (case find (lease_current worker_id (re_identity event) (re_trace_id event) now d) (db_attempts d) of
        None \<Rightarrow> Rollback EventStale
      | Some attempt \<Rightarrow>
        let row = event_row now event; attempt_id = we_attempt_id row;
            advance = (\<lambda>outcome d1.
              let contiguous = contiguous_prefix (event_seqs attempt_id (db_events d1))
                    (wa_highest_contiguous_reliable_seq attempt)
              in update_attempts (\<lambda>a. wa_attempt_id a = attempt_id)
                   (\<lambda>a. a\<lparr>wa_highest_contiguous_reliable_seq := contiguous\<rparr>) d1 (Commit outcome))
        in if \<not> event_check row then Error Database
           else case find (\<lambda>e. we_attempt_id e = attempt_id \<and> we_reliable_seq e = we_reliable_seq row)
               (db_events d) of
             None \<Rightarrow> set_events (db_events d @ [row]) d (advance EventInserted)
           | Some existing \<Rightarrow>
             if we_payload existing \<noteq> we_payload row \<or> we_payload_digest existing \<noteq> we_payload_digest row
               \<or> we_trace_id existing \<noteq> we_trace_id row
             then Rollback EventConflict
             else advance EventDuplicate d)"

definition authoritative :: "instant \<Rightarrow> worker_attempt \<Rightarrow> bool" where
  "authoritative now a \<longleftrightarrow> terminal (wa_status a) \<or> executing (wa_status a) \<and> wa_lease_expires_at a > now"

text \<open>The rows of the join with the attempts, ordered and limited.\<close>

definition projectable :: "instant \<Rightarrow> worker_attempt \<Rightarrow> worker_attempt_event \<Rightarrow> bool" where
  "projectable now attempt event \<longleftrightarrow> wa_attempt_id attempt = we_attempt_id event
     \<and> we_projected_at event = None \<and> we_reliable_seq event = wa_projected_reliable_seq attempt + 1
     \<and> we_reliable_seq event \<le> wa_highest_contiguous_reliable_seq attempt \<and> authoritative now attempt"

definition unprojected_events :: "u32 \<Rightarrow> instant \<Rightarrow> db \<Rightarrow> (uuid \<times> worker_attempt_event) list" where
  "unprojected_events limit now d =
     take (unat limit) (sort_key (\<lambda>(_, e). (we_received_at e, we_attempt_id e, we_reliable_seq e))
       (concat (map (\<lambda>e. map (\<lambda>a. (wa_job_id a, e)) (filter (\<lambda>a. projectable now a e) (db_attempts d)))
         (db_events d))))"

definition attempt_projection_is_authoritative :: "uuid \<Rightarrow> instant \<Rightarrow> db \<Rightarrow> bool" where
  "attempt_projection_is_authoritative attempt_id now d =
     list_ex (\<lambda>a. wa_attempt_id a = attempt_id \<and> authoritative now a) (db_attempts d)"

definition next_to_project :: "uuid \<Rightarrow> int \<Rightarrow> worker_attempt \<Rightarrow> bool" where
  "next_to_project attempt_id seq a \<longleftrightarrow> wa_attempt_id a = attempt_id
     \<and> wa_projected_reliable_seq a + 1 = seq \<and> wa_highest_contiguous_reliable_seq a \<ge> seq"

definition phase_event :: "instant \<Rightarrow> uuid \<Rightarrow> u64 \<Rightarrow> uuid \<Rightarrow> reliable_event_payload \<Rightarrow> db \<Rightarrow> db" where
  "phase_event now attempt_id reliable_seq job_id payload d =
     (case payload of
        Phase label elapsed_ms \<Rightarrow>
          insert_job_event \<lparr>je_job_id = job_id, je_event_kind = EventPhaseFinished,
            je_event_status = StatusSuccess, je_remark = Some label,
            je_detail = Some (JObject
              [(''attempt_id'', JString (uuid_to_string attempt_id)),
               (''reliable_seq'', JNumber (show_nat (unat reliable_seq))),
               (''elapsed_ms'', JNumber (show_nat (unat elapsed_ms)))]),
            je_occurred_at = now\<rparr> d
      | Terminal _ \<Rightarrow> d)"

definition mark_event_projected :: "uuid \<Rightarrow> u64 \<Rightarrow> instant \<Rightarrow> db \<Rightarrow> bool outcome" where
  "mark_event_projected attempt_id reliable_seq now d =
     (let seq = as_i64 reliable_seq;
          this_event = (\<lambda>e. we_attempt_id e = attempt_id \<and> we_reliable_seq e = seq)
      in case (find (next_to_project attempt_id seq) (db_attempts d), find this_event (db_events d)) of
        (Some attempt, Some event) \<Rightarrow>
          update_attempts (\<lambda>a. wa_attempt_id a = attempt_id) (\<lambda>a. a\<lparr>wa_projected_reliable_seq := seq\<rparr>)
            (phase_event now attempt_id reliable_seq (wa_job_id attempt) (we_payload event) d) (\<lambda>d1.
          set_events (update_where this_event (\<lambda>e. e\<lparr>we_projected_at := Some now\<rparr>) (db_events d1)) d1
            (Commit True))
      | _ \<Rightarrow> Rollback False)"

section \<open>Progress\<close>

definition progress_row :: "instant \<Rightarrow> progress_request \<Rightarrow> worker_attempt_progress" where
  "progress_row now progress = \<lparr>wp_attempt_id = ai_attempt_id (pg_identity progress),
     wp_progress_seq = as_i64 (pg_progress_seq progress), wp_trace_id = pg_trace_id progress,
     wp_update = pg_update progress, wp_received_at = now, wp_projected_at = None,
     wp_projection_discarded_reason = None\<rparr>"

definition ingest_progress :: "uuid \<Rightarrow> progress_request \<Rightarrow> instant \<Rightarrow> db \<Rightarrow> bool outcome" where
  "ingest_progress worker_id progress now d =
     (let row = progress_row now progress;
          existing = find (\<lambda>e. wp_attempt_id e = wp_attempt_id row \<and> wp_progress_seq e = wp_progress_seq row)
            (db_progress d);
          authorized = list_ex (lease_current worker_id (pg_identity progress) (pg_trace_id progress) now d)
            (db_attempts d)
      in if authorized \<and> \<not> 0 < wp_progress_seq row then Error Database
         else if authorized \<and> existing = None
         then Commit True (d\<lparr>db_progress := db_progress d @ [row]\<rparr>)
         else case existing of
           Some e \<Rightarrow> if wp_trace_id e = wp_trace_id row \<and> wp_update e = wp_update row then Commit False d
             else Error (Config ''conflicting progress update reused an existing sequence'')
         | None \<Rightarrow> Error (Config ''stale or unauthorized progress update''))"

definition unprojected_progress :: "u32 \<Rightarrow> instant \<Rightarrow> db \<Rightarrow> (uuid \<times> worker_attempt_progress) list" where
  "unprojected_progress limit now d =
     take (unat limit) (sort_key (\<lambda>(_, e). (wp_received_at e, wp_attempt_id e, wp_progress_seq e))
       (concat (map (\<lambda>e. map (\<lambda>a. (wa_job_id a, e)) (filter (\<lambda>a. wa_attempt_id a = wp_attempt_id e
           \<and> wp_projected_at e = None \<and> authoritative now a) (db_attempts d)))
         (db_progress d))))"

definition mark_progress_projected :: "uuid \<Rightarrow> u64 \<Rightarrow> instant \<Rightarrow> db \<Rightarrow> bool outcome" where
  "mark_progress_projected attempt_id progress_seq now d =
     (let this_update = (\<lambda>e. wp_attempt_id e = attempt_id \<and> wp_progress_seq e = as_i64 progress_seq
          \<and> wp_projected_at e = None)
      in Commit (affected this_update (db_progress d) = 1)
           (d\<lparr>db_progress := update_where this_update (\<lambda>e. e\<lparr>wp_projected_at := Some now\<rparr>) (db_progress d)\<rparr>))"

datatype projected_report_mutation =
    ProjectedPhase reliable_event_payload
  | ProjectedProgress progress_update

record report_projection_seed_t =
  rs_mutation_count :: u64
  rs_latest :: projected_report_mutation

definition projected_phases :: "uuid \<Rightarrow> db \<Rightarrow> ((instant \<times> int \<times> string) \<times> projected_report_mutation) list" where
  "projected_phases attempt_id d =
     concat (map (\<lambda>e. case we_projected_at e of
         None \<Rightarrow> []
       | Some t \<Rightarrow> [((t, we_reliable_seq e, ''phase''), ProjectedPhase (we_payload e))])
       (filter (\<lambda>e. we_attempt_id e = attempt_id \<and> we_projection_discarded_reason e = None
         \<and> we_payload_kind e = ''phase'') (db_events d)))"

definition projected_progress :: "uuid \<Rightarrow> db \<Rightarrow> ((instant \<times> int \<times> string) \<times> projected_report_mutation) list" where
  "projected_progress attempt_id d =
     concat (map (\<lambda>e. case wp_projected_at e of
         None \<Rightarrow> []
       | Some t \<Rightarrow> [((t, wp_progress_seq e, ''progress''), ProjectedProgress (wp_update e))])
       (filter (\<lambda>e. wp_attempt_id e = attempt_id \<and> wp_projection_discarded_reason e = None) (db_progress d)))"

definition report_projection_seed :: "uuid \<Rightarrow> db \<Rightarrow> report_projection_seed_t option" where
  "report_projection_seed attempt_id d =
     (let projected = projected_phases attempt_id d @ projected_progress attempt_id d
      in case rev (sort_key fst projected) of
        [] \<Rightarrow> None
      | (_, latest) # _ \<Rightarrow> Some \<lparr>rs_mutation_count = of_nat (length projected), rs_latest = latest\<rparr>)"

section \<open>Artifacts\<close>

record artifact_grant_record =
  gt_attempt_id :: uuid
  gt_object_key :: string
  gt_logical_key :: string
  gt_size :: "u64 option"
  gt_sha256 :: "string option"
  gt_expires_at :: instant

definition grant_row :: "instant \<Rightarrow> artifact_grant_record \<Rightarrow> worker_artifact_staging" where
  "grant_row now grant = \<lparr>st_attempt_id = gt_attempt_id grant, st_object_key = gt_object_key grant,
     st_logical_key = gt_logical_key grant, st_status = Granted,
     st_size_bytes = map_option as_i64 (gt_size grant), st_sha256 = gt_sha256 grant,
     st_grant_expires_at = Some (gt_expires_at grant), st_verified_at = None, st_promoted_at = None,
     st_created_at = now\<rparr>"

definition record_artifact_grant :: "artifact_grant_record \<Rightarrow> instant \<Rightarrow> db \<Rightarrow> bool outcome" where
  "record_artifact_grant grant now d =
     (if \<not> list_ex (\<lambda>a. wa_attempt_id a = gt_attempt_id grant \<and> executing (wa_status a)
          \<and> wa_lease_expires_at a > now) (db_attempts d)
      then Commit False d
      else let row = grant_row now grant;
               conflict = (\<lambda>s. st_attempt_id s = st_attempt_id row \<and> st_logical_key s = st_logical_key row)
        in if \<not> staging_check row then Error Database
           else case find conflict (db_staging d) of
             None \<Rightarrow> set_staging (db_staging d @ [row]) d (Commit True)
           | Some s \<Rightarrow>
             if st_object_key s = st_object_key row \<and> st_size_bytes s = st_size_bytes row
               \<and> st_sha256 s = st_sha256 row \<and> st_status s = Granted
             then set_staging (update_where conflict (\<lambda>s. s\<lparr>st_grant_expires_at := st_grant_expires_at row\<rparr>)
                    (db_staging d)) d (Commit True)
             else Commit False d)"

definition verifiable ::
  "attempt_identity \<Rightarrow> artifact_descriptor \<Rightarrow> instant \<Rightarrow> db \<Rightarrow> worker_artifact_staging \<Rightarrow> bool" where
  "verifiable identity artifact now d s \<longleftrightarrow>
     st_attempt_id s = ai_attempt_id identity \<and> st_object_key s = ad_key artifact
     \<and> list_ex (\<lambda>a. wa_attempt_id a = st_attempt_id s
          \<and> wa_worker_session_id a = ai_worker_session_id identity
          \<and> wa_fencing_generation a = as_i64 (ai_fencing_generation identity)
          \<and> (terminal (wa_status a)
             \<or> executing (wa_status a) \<and> (case st_grant_expires_at s of None \<Rightarrow> False | Some t \<Rightarrow> t > now))) (db_attempts d)
     \<and> st_size_bytes s \<in> {None, Some (as_i64 (ad_size artifact))}
     \<and> st_sha256 s \<in> {None, Some (ad_sha256 artifact)}
     \<and> st_logical_key s = ad_logical_key artifact"

definition verify_artifact ::
  "attempt_identity \<Rightarrow> artifact_descriptor \<Rightarrow> instant \<Rightarrow> db \<Rightarrow> bool outcome" where
  "verify_artifact identity artifact now d =
     (let uploaded = verifiable identity artifact now d
      in set_staging (update_where uploaded (\<lambda>s. s\<lparr>
             st_status := (if st_status s = Promoted then st_status s else Verified),
             st_size_bytes := Some (as_i64 (ad_size artifact)), st_sha256 := Some (ad_sha256 artifact),
             st_verified_at := Some now\<rparr>) (db_staging d)) d
           (Commit (affected uploaded (db_staging d) = 1)))"

definition is_staged :: "artifact_staging_status set \<Rightarrow> uuid \<Rightarrow> artifact_descriptor \<Rightarrow> worker_artifact_staging \<Rightarrow> bool" where
  "is_staged statuses attempt_id artifact s \<longleftrightarrow> st_attempt_id s = attempt_id
     \<and> st_object_key s = ad_key artifact \<and> st_logical_key s = ad_logical_key artifact
     \<and> st_size_bytes s = Some (as_i64 (ad_size artifact)) \<and> st_sha256 s = Some (ad_sha256 artifact)
     \<and> st_status s \<in> statuses"

section \<open>Terminal results\<close>

record fleet_completion =
  fc_result :: job_result
  fc_metric :: "job_metric option"
  fc_baseline_calibration_id :: "int option"
  fc_event_detail :: "json option"
  fc_block_validation :: "block_validation_result option"
  fc_artifact_manifest :: "artifact_descriptor list"

record fleet_failure =
  ff_result :: "job_result option"
  ff_remark :: string
  ff_event_detail :: "json option"

datatype fleet_terminal_write =
    WriteCompleted fleet_completion
  | WriteFailed fleet_failure
  | WriteCancelled string

record fleet_terminal_submission =
  tm_reliable_seq :: u64
  tm_payload_digest :: string
  tm_outcome :: terminal_outcome
  tm_artifacts :: "artifact_descriptor list"
  tm_write :: fleet_terminal_write

datatype terminal_acceptance = Accepted | Duplicate | Stale

definition insert_job_result :: "uuid \<Rightarrow> job_result \<Rightarrow> db \<Rightarrow> (db \<Rightarrow> 'a outcome) \<Rightarrow> 'a outcome" where
  "insert_job_result job_id result d k =
     (if row_of jr_job_id (db_job_results d) job_id \<noteq> None then Error Database
      else k (d\<lparr>db_job_results := db_job_results d @ [result\<lparr>jr_job_id := job_id\<rparr>]\<rparr>))"

definition insert_job_metric :: "uuid \<Rightarrow> job_metric \<Rightarrow> db \<Rightarrow> (db \<Rightarrow> 'a outcome) \<Rightarrow> 'a outcome" where
  "insert_job_metric job_id metric d k =
     (if \<not> list_all (\<lambda>n. 0 \<le> n) (jm_columns metric) \<or> row_of jm_job_id (db_job_metrics d) job_id \<noteq> None
      then Error Database
      else k (d\<lparr>db_job_metrics := db_job_metrics d @ [metric\<lparr>jm_job_id := job_id\<rparr>]\<rparr>))"

text \<open>\<open>i64::try_from\<close> and \<open>i32::try_from\<close>.\<close>

definition durable_i64 :: "u64 \<Rightarrow> (int \<Rightarrow> 'a outcome) \<Rightarrow> 'a outcome" where
  "durable_i64 n k = (if unat n < 2 ^ 63 then k (int (unat n)) else Error Other)"

definition durable_i32 :: "u32 \<Rightarrow> (int \<Rightarrow> 'a outcome) \<Rightarrow> 'a outcome" where
  "durable_i32 n k = (if unat n < 2 ^ 31 then k (int (unat n)) else Error Other)"

definition block_result_check :: "block_validation_row \<Rightarrow> bool" where
  "block_result_check r \<longleftrightarrow> 0 \<le> bv_checked_blocks r \<and> list_ex (\<lambda>c. c \<noteq> CHR '' '') (bv_chainstate_origin r)
     \<and> 0 < bv_pre_nakamoto_count r \<and> 0 < bv_nakamoto_count r
     \<and> 0 \<le> bv_resolved_start r \<and> bv_resolved_start r \<le> bv_resolved_end r
     \<and> 0 < bv_shard_count r \<and> 0 < bv_max_concurrency r \<and> bv_max_concurrency r \<le> bv_shard_count r
     \<and> bv_pre_nakamoto_count r \<le> 9223372036854775807 - bv_nakamoto_count r
     \<and> bv_resolved_end r < bv_pre_nakamoto_count r + bv_nakamoto_count r
     \<and> bv_checked_blocks r = bv_resolved_end r - bv_resolved_start r + 1"

definition persist_block_result ::
  "uuid \<Rightarrow> uuid \<Rightarrow> block_validation_result \<Rightarrow> artifact_descriptor list \<Rightarrow> db \<Rightarrow> (db \<Rightarrow> 'a outcome)
     \<Rightarrow> 'a outcome" where
  "persist_block_result job_id attempt_id result artifacts d k =
     durable_i64 (ov_pre_nakamoto_count (vr_observed result)) (\<lambda>pre_nakamoto_count.
     durable_i64 (ov_nakamoto_count (vr_observed result)) (\<lambda>nakamoto_count.
     durable_i64 (ir_start (vr_resolved_range result)) (\<lambda>resolved_start.
     durable_i64 (ir_end (vr_resolved_range result)) (\<lambda>resolved_end.
     durable_i64 (vr_checked_blocks result) (\<lambda>checked_blocks.
     durable_i32 (vr_shard_count result) (\<lambda>shard_count.
     durable_i32 (vr_max_concurrency result) (\<lambda>max_concurrency.
     let row = \<lparr>bv_job_id = job_id, bv_attempt_id = attempt_id,
           bv_chainstate_origin = vr_chainstate_origin result, bv_pre_nakamoto_count = pre_nakamoto_count,
           bv_nakamoto_count = nakamoto_count, bv_resolved_start = resolved_start,
           bv_resolved_end = resolved_end, bv_epoch_segments = vr_segments result,
           bv_shard_count = shard_count, bv_max_concurrency = max_concurrency, bv_valid = vr_valid result,
           bv_checked_blocks = checked_blocks, bv_invalid_blocks = vr_invalid_blocks result,
           bv_artifact_manifest = artifacts\<rparr>
     in if \<not> block_result_check row
          \<or> list_ex (\<lambda>r. bv_job_id r = job_id \<or> bv_attempt_id r = attempt_id) (db_block_results d)
        then Error Database
        else k (d\<lparr>db_block_results := db_block_results d @ [row]\<rparr>))))))))"

definition set_baseline :: "uuid \<Rightarrow> int \<Rightarrow> db \<Rightarrow> db" where
  "set_baseline job_id calibration_id d =
     d\<lparr>db_specs := update_where (\<lambda>spec. list_ex (\<lambda>j. j_id j = job_id \<and> j_task_spec_id j = sp_id spec) (db_jobs d))
       (\<lambda>spec. spec\<lparr>sp_baseline_calibration_id := Some calibration_id\<rparr>) (db_specs d)\<rparr>"

definition persist_completion ::
  "instant \<Rightarrow> uuid \<Rightarrow> uuid \<Rightarrow> fleet_completion \<Rightarrow> db \<Rightarrow> (db \<Rightarrow> 'a outcome) \<Rightarrow> 'a outcome" where
  "persist_completion now job_id attempt_id completion d k =
     insert_job_result job_id (fc_result completion) d (\<lambda>d1.
     (case fc_metric completion of None \<Rightarrow> (\<lambda>k. k d1) | Some metric \<Rightarrow> insert_job_metric job_id metric d1) (\<lambda>d2.
     let d3 = (case fc_baseline_calibration_id completion of None \<Rightarrow> d2 | Some c \<Rightarrow> set_baseline job_id c d2)
     in (case fc_block_validation completion of None \<Rightarrow> (\<lambda>k. k d3)
         | Some result \<Rightarrow>
             persist_block_result job_id attempt_id result (fc_artifact_manifest completion) d3) (\<lambda>d4.
     k (insert_job_event \<lparr>je_job_id = job_id, je_event_kind = EventCompleted, je_event_status = StatusSuccess,
          je_remark = None, je_detail = fc_event_detail completion, je_occurred_at = now\<rparr> d4))))"

definition persist_failure :: "instant \<Rightarrow> uuid \<Rightarrow> fleet_failure \<Rightarrow> db \<Rightarrow> (db \<Rightarrow> 'a outcome) \<Rightarrow> 'a outcome" where
  "persist_failure now job_id failure d k =
     (case ff_result failure of None \<Rightarrow> (\<lambda>k. k d) | Some result \<Rightarrow> insert_job_result job_id result d) (\<lambda>d1.
     k (insert_job_event \<lparr>je_job_id = job_id, je_event_kind = EventFailed, je_event_status = StatusFail,
          je_remark = Some (ff_remark failure), je_detail = ff_event_detail failure, je_occurred_at = now\<rparr> d1))"

definition persist_write ::
  "instant \<Rightarrow> uuid \<Rightarrow> uuid \<Rightarrow> fleet_terminal_write \<Rightarrow> db \<Rightarrow> (db \<Rightarrow> 'a outcome) \<Rightarrow> 'a outcome" where
  "persist_write now job_id attempt_id write d k =
     (case write of
        WriteCompleted completion \<Rightarrow> persist_completion now job_id attempt_id completion d k
      | WriteFailed failure \<Rightarrow> persist_failure now job_id failure d k
      | WriteCancelled remark \<Rightarrow>
          k (insert_job_event \<lparr>je_job_id = job_id, je_event_kind = EventCancelled,
               je_event_status = StatusSuccess, je_remark = Some remark, je_detail = None,
               je_occurred_at = now\<rparr> d))"

primrec write_statuses :: "fleet_terminal_write \<Rightarrow> attempt_status \<times> job_status" where
  "write_statuses (WriteCompleted _) = (AttemptCompleted, JobCompleted)"
| "write_statuses (WriteFailed _) = (AttemptFailed, JobFailed)"
| "write_statuses (WriteCancelled _) = (AttemptCancelled, JobCancelled)"

primrec is_cancelled :: "terminal_outcome \<Rightarrow> bool" where
  "is_cancelled (Completed _ _) = False"
| "is_cancelled (Failed _ _ _) = False"
| "is_cancelled (Cancelled _) = True"

definition outcome_matches :: "terminal_outcome \<Rightarrow> fleet_terminal_write \<Rightarrow> bool" where
  "outcome_matches outcome write =
     (case (outcome, write) of
        (Completed _ _, WriteCompleted _) \<Rightarrow> True
      | (Failed _ _ _, WriteFailed _) \<Rightarrow> True
      | (Cancelled _, WriteCancelled _) \<Rightarrow> True
      | _ \<Rightarrow> False)"

definition settle_attempt ::
  "instant \<Rightarrow> fleet_terminal_submission \<Rightarrow> worker_attempt \<Rightarrow> worker_attempt" where
  "settle_attempt now submission a = a\<lparr>
     wa_status := fst (write_statuses (tm_write submission)),
     wa_terminal_reliable_seq := Some (as_i64 (tm_reliable_seq submission)),
     wa_terminal_payload_digest := Some (tm_payload_digest submission),
     wa_terminal_outcome := Some (tm_outcome submission),
     wa_terminal_artifacts := Some (tm_artifacts submission), wa_terminal_at := Some now\<rparr>"

definition same_terminal :: "fleet_terminal_submission \<Rightarrow> worker_attempt \<Rightarrow> bool" where
  "same_terminal submission a \<longleftrightarrow>
     wa_terminal_reliable_seq a = Some (as_i64 (tm_reliable_seq submission))
     \<and> wa_terminal_payload_digest a = Some (tm_payload_digest submission)
     \<and> wa_terminal_outcome a = Some (tm_outcome submission)
     \<and> wa_terminal_artifacts a = Some (tm_artifacts submission)"

text \<open>The checks of a terminal result against what the attempt durably reported: the terminal event
  lies in the gapless prefix, carries the submitted digest and commits to the submitted outcome.\<close>

definition check_terminal_event ::
  "external_codec \<Rightarrow> fleet_terminal_submission \<Rightarrow> worker_attempt \<Rightarrow> db \<Rightarrow> store_error + unit" where
  "check_terminal_event ext submission attempt d =
     (let seq = as_i64 (tm_reliable_seq submission)
      in if wa_highest_contiguous_reliable_seq attempt < seq
         then Inl (Config ''terminal reliable event is not in the contiguous durable prefix'')
         else case find (\<lambda>e. we_attempt_id e = wa_attempt_id attempt \<and> we_reliable_seq e = seq
             \<and> we_payload_kind e = ''terminal'') (db_events d) of
           None \<Rightarrow> Inl (Config ''terminal event is missing from durable event ledger'')
         | Some event \<Rightarrow>
           if we_payload_digest event \<noteq> tm_payload_digest submission
           then Inl (Config ''terminal event digest does not match completion'')
           else case we_payload event of
             Phase _ _ \<Rightarrow> Inl (Config ''terminal event has a non-terminal payload'')
           | Terminal outcome_digest \<Rightarrow>
             case payload_digest ext (ec_outcome_value ext) (tm_outcome submission) of
               Inl _ \<Rightarrow> Inl Other
             | Inr submitted \<Rightarrow>
               if outcome_digest \<noteq> submitted
               then Inl (Config ''terminal outcome does not match its committed reliable event'')
               else Inr ())"

text \<open>The manifest of the result is exactly the verified artifacts of the attempt.\<close>

fun check_manifest :: "uuid \<Rightarrow> artifact_descriptor list \<Rightarrow> db \<Rightarrow> store_error + unit" where
  "check_manifest attempt_id [] d = Inr ()"
| "check_manifest attempt_id (artifact # artifacts) d =
     (if \<not> list_ex (is_staged {Verified} attempt_id artifact) (db_staging d)
      then Inl (Config (''artifact '' @ ad_key artifact @ '' is not verified for this attempt''))
      else check_manifest attempt_id artifacts d)"

definition check_verified ::
  "uuid \<Rightarrow> artifact_descriptor list \<Rightarrow> db \<Rightarrow> store_error + unit" where
  "check_verified attempt_id artifacts d =
     and_then (check_manifest attempt_id artifacts d) (\<lambda>_.
       if affected (\<lambda>s. st_attempt_id s = attempt_id \<and> st_status s = Verified) (db_staging d) \<noteq> length artifacts
       then Inl (Config ''terminal manifest omits a verified attempt artifact'') else Inr ())"

definition holds_claim :: "worker_attempt \<Rightarrow> job \<Rightarrow> bool" where
  "holds_claim attempt j \<longleftrightarrow> j_id j = wa_job_id attempt
     \<and> j_claim_token j = Some (wa_claim_token attempt) \<and> j_status j = JobRunning"

definition release_after_terminal :: "db \<Rightarrow> uuid \<Rightarrow> instant \<Rightarrow> worker_session \<Rightarrow> worker_session" where
  "release_after_terminal d worker_id now s = s\<lparr>
     ws_status := (if list_ex (\<lambda>r. wr_worker_id r = worker_id \<and> wr_draining r) (db_registry d)
       then SessionDraining else SessionIdle),
     ws_last_heartbeat_at := now\<rparr>"

definition commit_terminal ::
  "uuid \<Rightarrow> attempt_identity \<Rightarrow> fleet_terminal_submission \<Rightarrow> worker_attempt \<Rightarrow> instant \<Rightarrow> db
     \<Rightarrow> terminal_acceptance outcome" where
  "commit_terminal worker_id identity submission attempt now d =
     (let write = tm_write submission in
      update_jobs (holds_claim attempt) (\<lambda>j. j\<lparr>j_status := snd (write_statuses write)\<rparr>) d (\<lambda>d1.
      if affected (holds_claim attempt) (db_jobs d) \<noteq> 1 then Rollback Stale
      else persist_write now (wa_job_id attempt) (ai_attempt_id identity) write d1 (\<lambda>d2.
      update_attempts (\<lambda>a. wa_attempt_id a = ai_attempt_id identity) (settle_attempt now submission) d2 (\<lambda>d3.
      update_sessions (\<lambda>s. ws_worker_session_id s = ai_worker_session_id identity)
        (release_after_terminal d3 worker_id now) d3 (Commit Accepted)))))"

definition accept_terminal ::
  "external_codec \<Rightarrow> uuid \<Rightarrow> attempt_identity \<Rightarrow> fleet_terminal_submission \<Rightarrow> instant \<Rightarrow> db
     \<Rightarrow> terminal_acceptance outcome" where
  "accept_terminal ext worker_id identity submission now d =
     (case find (names_attempt worker_id identity) (db_attempts d) of
        None \<Rightarrow> Rollback Stale
      | Some attempt \<Rightarrow>
        if terminal (wa_status attempt)
        then Rollback (if same_terminal submission attempt then Duplicate else Stale)
        else if \<not> executing (wa_status attempt) \<or> \<not> attempt_authorized d attempt
          \<or> \<not> wa_lease_expires_at attempt > now
          \<or> wa_status attempt = AttemptCancelRequested \<and> \<not> is_cancelled (tm_outcome submission)
        then Rollback Stale
        else case check_terminal_event ext submission attempt d of
          Inl e \<Rightarrow> Error e
        | Inr _ \<Rightarrow>
          case check_verified (ai_attempt_id identity) (tm_artifacts submission) d of
            Inl e \<Rightarrow> Error e
          | Inr _ \<Rightarrow>
            if \<not> outcome_matches (tm_outcome submission) (tm_write submission)
            then Error (Config ''terminal persistence write does not match protocol outcome'')
            else commit_terminal worker_id identity submission attempt now d)"

section \<open>After a terminal result\<close>

definition has_verified :: "uuid \<Rightarrow> db \<Rightarrow> bool" where
  "has_verified attempt_id d =
     list_ex (\<lambda>s. st_attempt_id s = attempt_id \<and> st_status s = Verified) (db_staging d)"

definition attempt_terminal_outcome :: "uuid \<Rightarrow> db \<Rightarrow> terminal_outcome option" where
  "attempt_terminal_outcome attempt_id d =
     (case find (\<lambda>a. wa_attempt_id a = attempt_id \<and> terminal (wa_status a) \<and> \<not> has_verified attempt_id d)
         (db_attempts d) of None \<Rightarrow> None | Some a \<Rightarrow> wa_terminal_outcome a)"

definition accepted_terminal_manifest :: "uuid \<Rightarrow> db \<Rightarrow> artifact_descriptor list option" where
  "accepted_terminal_manifest attempt_id d =
     (case find (\<lambda>a. wa_attempt_id a = attempt_id \<and> terminal (wa_status a)) (db_attempts d) of
        None \<Rightarrow> None | Some a \<Rightarrow> wa_terminal_artifacts a)"

definition pending_artifact_promotions :: "u32 \<Rightarrow> db \<Rightarrow> (uuid \<times> artifact_descriptor list) list" where
  "pending_artifact_promotions limit d =
     take (unat limit) (concat (map (\<lambda>a. case wa_terminal_artifacts a of
           None \<Rightarrow> [] | Some artifacts \<Rightarrow> [(wa_attempt_id a, artifacts)])
       (sort_key (\<lambda>a. (case wa_terminal_at a of None \<Rightarrow> 0 | Some t \<Rightarrow> t, wa_attempt_id a))
         (filter (\<lambda>a. terminal (wa_status a) \<and> wa_terminal_artifacts a \<noteq> None
           \<and> has_verified (wa_attempt_id a) d) (db_attempts d)))))"

definition promote :: "instant \<Rightarrow> worker_artifact_staging \<Rightarrow> worker_artifact_staging" where
  "promote now s = s\<lparr>st_status := Promoted,
     st_promoted_at := (case st_promoted_at s of None \<Rightarrow> Some now | Some t \<Rightarrow> Some t)\<rparr>"

fun promote_each ::
  "uuid \<Rightarrow> artifact_descriptor list \<Rightarrow> instant \<Rightarrow> db \<Rightarrow> bool outcome" where
  "promote_each attempt_id [] now d = Commit True d"
| "promote_each attempt_id (artifact # artifacts) now d =
     (let staged = is_staged {Verified, Promoted} attempt_id artifact
      in set_staging (update_where staged (promote now) (db_staging d)) d (\<lambda>d1.
         if affected staged (db_staging d) \<noteq> 1 then Rollback False
         else promote_each attempt_id artifacts now d1))"

definition mark_artifacts_promoted ::
  "uuid \<Rightarrow> artifact_descriptor list \<Rightarrow> instant \<Rightarrow> db \<Rightarrow> bool outcome" where
  "mark_artifacts_promoted attempt_id artifacts now d =
     (if accepted_terminal_manifest attempt_id d \<noteq> Some artifacts then Rollback False
      else promote_each attempt_id artifacts now d)"

definition reapable :: "db \<Rightarrow> worker_artifact_staging \<Rightarrow> bool" where
  "reapable d s \<longleftrightarrow> st_status s \<in> {Granted, Uploaded, Verified, Rejected}
     \<and> list_ex (\<lambda>a. wa_attempt_id a = st_attempt_id s
          \<and> (wa_status a \<in> {AttemptExpired, AttemptFenced}
             \<or> terminal (wa_status a) \<and> \<not> list_ex (\<lambda>artifact. ad_key artifact = st_object_key s)
                 (case wa_terminal_artifacts a of None \<Rightarrow> [] | Some artifacts \<Rightarrow> artifacts))) (db_attempts d)"

definition staged_artifacts_due_for_reap :: "instant \<Rightarrow> db \<Rightarrow> string list" where
  "staged_artifacts_due_for_reap older_than d =
     map st_object_key (take 128 (sort_key (\<lambda>s. (st_created_at s, st_object_key s))
       (filter (\<lambda>s. reapable d s \<and> st_created_at s < older_than) (db_staging d))))"

definition mark_staged_artifact_reaped :: "string \<Rightarrow> db \<Rightarrow> bool outcome" where
  "mark_staged_artifact_reaped object_key d =
     (let due = (\<lambda>s. st_object_key s = object_key \<and> reapable d s)
      in set_staging (update_where due (\<lambda>s. s\<lparr>st_status := Reaped\<rparr>) (db_staging d)) d
           (Commit (affected due (db_staging d) = 1)))"

section \<open>The fleet at a glance\<close>

record fleet_snapshot_t =
  fs_registered_workers :: u64
  fs_online_workers :: u64
  fs_draining_workers :: u64
  fs_active_attempts :: u64
  fs_pending_cleanup :: u64
  fs_reliable_event_gap_attempts :: u64
  fs_staged_artifact_bytes :: u64

definition fleet_snapshot :: "instant \<Rightarrow> db \<Rightarrow> fleet_snapshot_t" where
  "fleet_snapshot now d = \<lparr>
     fs_registered_workers = of_nat (affected wr_enabled (db_registry d)),
     fs_online_workers = of_nat (affected (\<lambda>s. live_session (ws_status s) \<and> ws_expires_at s > now) (db_sessions d)),
     fs_draining_workers = of_nat (affected (\<lambda>r. wr_enabled r \<and> wr_draining r) (db_registry d)),
     fs_active_attempts = of_nat (affected (\<lambda>a. active (wa_status a)) (db_attempts d)),
     fs_pending_cleanup = of_nat (affected (\<lambda>ob. co_status ob = CleanupPending) (db_obligations d)),
     fs_reliable_event_gap_attempts =
       of_nat (affected (\<lambda>a. wa_highest_contiguous_reliable_seq a > wa_projected_reliable_seq a) (db_attempts d)),
     fs_staged_artifact_bytes = word_of_int (sum_list (map (\<lambda>s. case st_size_bytes s of None \<Rightarrow> 0 | Some n \<Rightarrow> n)
       (filter (\<lambda>s. st_status s \<in> {Granted, Uploaded, Verified}) (db_staging d))))\<rparr>"

section \<open>The operations implement the abstract machine\<close>

text \<open>Operations that do not change a status leave the abstract state alone.\<close>

lemma ingest_reliable_event_refines:
  "schema_ok d \<Longrightarrow> ensures (refines d) (ingest_reliable_event w event now d)"
  unfolding ingest_reliable_event_def Let_def
  by (intro tx_intro; rule refines_stutter)
    (auto intro!: schema_intros core_eqI view_same simp: abs_attempt_def)

lemma core_of_phase_event [simp]: "core_of (phase_event now i n j p d) = core_of d"
  "db_attempts (phase_event now i n j p d) = db_attempts d" "db_events (phase_event now i n j p d) = db_events d"
  "db_jobs (phase_event now i n j p d) = db_jobs d" "db_submissions (phase_event now i n j p d) = db_submissions d"
  "db_obligations (phase_event now i n j p d) = db_obligations d"
  by (simp_all add: phase_event_def insert_job_event_def split: reliable_event_payload.split)

lemma schema_phase_event: "schema_ok d \<Longrightarrow> schema_ok (phase_event now i n j p d)"
  by (simp add: phase_event_def schema_ok_frame split: reliable_event_payload.split)

lemma mark_event_projected_refines:
  "schema_ok d \<Longrightarrow> ensures (refines d) (mark_event_projected i n now d)"
  unfolding mark_event_projected_def Let_def
  by (intro tx_intro; rule refines_stutter)
    (auto intro!: schema_intros schema_phase_event core_eqI view_same)

lemma ingest_progress_refines: "schema_ok d \<Longrightarrow> ensures (refines d) (ingest_progress w progress now d)"
  unfolding ingest_progress_def Let_def
  by (intro tx_intro; rule refines_stutter) (auto intro!: schema_intros)

lemma mark_progress_projected_refines: "schema_ok d \<Longrightarrow> ensures (refines d) (mark_progress_projected i n now d)"
  unfolding mark_progress_projected_def Let_def
  by (intro tx_intro refines_stutter) (auto intro!: schema_intros)

lemma artifact_refines:
  "schema_ok d \<Longrightarrow> ensures (refines d) (record_artifact_grant grant now d)"
  "schema_ok d \<Longrightarrow> ensures (refines d) (verify_artifact identity artifact now d)"
  "schema_ok d \<Longrightarrow> ensures (refines d) (mark_staged_artifact_reaped key d)"
  unfolding record_artifact_grant_def verify_artifact_def mark_staged_artifact_reaped_def Let_def
  by (intro tx_intro; rule refines_stutter; auto intro!: schema_intros)+

lemma promote_each_refines: "schema_ok d \<Longrightarrow> ensures (refines d) (promote_each i artifacts now d)"
proof (induction artifacts arbitrary: d)
  case (Cons artifact artifacts)
  then show ?case
    unfolding promote_each.simps Let_def
    by (intro tx_intro) (auto intro!: ensures_mono [OF Cons.IH] schema_intros simp: refines_def)
qed (simp add: tx_intro refines_refl)

lemma mark_artifacts_promoted_refines: "schema_ok d \<Longrightarrow> ensures (refines d) (mark_artifacts_promoted i artifacts now d)"
  unfolding mark_artifacts_promoted_def by (intro tx_intro promote_each_refines)

text \<open>What the persisted result leaves alone.\<close>

lemma ensures_insert_result:
  "(row_of jr_job_id (db_job_results d) i = None \<Longrightarrow>
      ensures Q (k (d\<lparr>db_job_results := db_job_results d @ [result\<lparr>jr_job_id := i\<rparr>]\<rparr>)))
     \<Longrightarrow> ensures Q (insert_job_result i result d k)"
  "ensures Q (k2 (d\<lparr>db_job_metrics := db_job_metrics d @ [metric\<lparr>jm_job_id := i\<rparr>]\<rparr>))
     \<Longrightarrow> ensures Q (insert_job_metric i metric d k2)"
  by (auto simp: insert_job_result_def insert_job_metric_def tx_intro)

lemma ensures_persist_block:
  "(\<And>t. ensures Q (k (d\<lparr>db_block_results := t\<rparr>))) \<Longrightarrow> ensures Q (persist_block_result i a r m d k)"
  unfolding persist_block_result_def durable_i64_def durable_i32_def Let_def by (intro tx_intro)

definition same_fleet :: "db \<Rightarrow> db \<Rightarrow> bool" where
  "same_fleet d d' \<longleftrightarrow> core_of d' = core_of d \<and> db_attempts d' = db_attempts d \<and> db_sessions d' = db_sessions d
     \<and> db_registry d' = db_registry d \<and> db_events d' = db_events d \<and> (schema_ok d \<longrightarrow> schema_ok d')"

lemma same_fleet_frame:
  "same_fleet d d"
  "same_fleet d d' \<Longrightarrow> same_fleet d (d'\<lparr>db_job_results := t1\<rparr>)"
  "same_fleet d d' \<Longrightarrow> same_fleet d (d'\<lparr>db_job_metrics := t2\<rparr>)"
  "same_fleet d d' \<Longrightarrow> same_fleet d (d'\<lparr>db_block_results := t3\<rparr>)"
  "same_fleet d d' \<Longrightarrow> same_fleet d (insert_job_event e d')"
  "same_fleet d d' \<Longrightarrow> same_fleet d (set_baseline i c d')"
  by (simp_all add: same_fleet_def schema_ok_frame set_baseline_def schema_ok_update_specs)
    (simp add: insert_job_event_def)

lemma ensures_persist_write:
  assumes "\<And>d'. same_fleet d d' \<Longrightarrow> ensures Q (k d')"
  shows "ensures Q (persist_write now i a w d k)"
proof -
  note step = same_fleet_frame ensures_insert_result ensures_persist_block assms
  have "ensures Q (persist_completion now i a completion d k)" for completion
    unfolding persist_completion_def Let_def
    by (auto intro!: step split: option.split)
  moreover have "ensures Q (persist_failure now i failure d k)" for failure
    unfolding persist_failure_def
    by (auto intro!: step split: option.split)
  ultimately show ?thesis
    unfolding persist_write_def by (cases w) (auto intro: step)
qed

lemma abs_settle_attempt [simp]:
  "abs_attempt (settle_attempt now submission a) = (abs_attempt a)\<lparr>at_status := fst (write_statuses (tm_write submission))\<rparr>"
  "wa_attempt_id (settle_attempt now submission a) = wa_attempt_id a"
  by (simp_all add: settle_attempt_def abs_attempt_def)

lemma finish_core_step:
  assumes att: "row_of wa_attempt_id (db_attempts d) i = Some a" "executing (wa_status a)"
    and job: "row_of j_id (db_jobs d) (wa_job_id a) = Some j" "holds_claim a j"
    and cancel: "wa_status a = AttemptCancelRequested \<longrightarrow> fst (write_statuses w) = AttemptCancelled"
  shows "core_step (core_of d) (set_attempt i ((abs_attempt a)\<lparr>at_status := fst (write_statuses w)\<rparr>)
    (set_job (wa_job_id a) ((abs_job j)\<lparr>jc_status := snd (write_statuses w)\<rparr>) (core_of d)))"
proof -
  have "(fst (write_statuses w), snd (write_statuses w)) \<in> {(AttemptCompleted, JobCompleted),
      (AttemptFailed, JobFailed), (AttemptCancelled, JobCancelled)}"
    by (cases w) simp_all
  then have "core_step (core_of d) (set_job (at_job (abs_attempt a)) ((abs_job j)\<lparr>jc_status := snd (write_statuses w)\<rparr>)
      (set_attempt i ((abs_attempt a)\<lparr>at_status := fst (write_statuses w)\<rparr>) (core_of d)))"
    using assms by (intro core_step.finish) (simp_all add: view_def)
  moreover have "set_job n x (set_attempt i y c) = set_attempt i y (set_job n x c)" for n x y c
    by (rule core_eqI) simp_all
  ultimately show ?thesis by simp
qed

lemma commit_terminal_refines:
  assumes sch: "schema_ok d" and att: "find (names_attempt w identity) (db_attempts d) = Some a" "executing (wa_status a)"
    and cancel: "wa_status a = AttemptCancelRequested \<longrightarrow> is_cancelled (tm_outcome submission)"
      "outcome_matches (tm_outcome submission) (tm_write submission)"
  shows "ensures (refines d) (commit_terminal w identity submission a now d)"
proof -
  let ?st = "write_statuses (tm_write submission)"
  note a = find_named [OF schema_distinct(2) [OF sch] att(1)]
  have fin: "refines d (d2\<lparr>db_attempts := update_where (\<lambda>r. wa_attempt_id r = ai_attempt_id identity)
        (settle_attempt now submission) (db_attempts d2), db_sessions := t\<rparr>)"
    if one: "affected (holds_claim a) (db_jobs d) = 1"
      and jobs: "job_table_ok (update_where (holds_claim a) (\<lambda>j. j\<lparr>j_status := snd ?st\<rparr>) (db_jobs d))"
      and d2: "same_fleet (d\<lparr>db_jobs := update_where (holds_claim a) (\<lambda>j. j\<lparr>j_status := snd ?st\<rparr>) (db_jobs d)\<rparr>) d2"
      and tabs: "attempt_table_ok (update_where (\<lambda>r. wa_attempt_id r = ai_attempt_id identity)
        (settle_attempt now submission) (db_attempts d2))" "session_table_ok t"
    for d2 t
  proof (rule refines_step)
    obtain j where j: "row_of j_id (db_jobs d) (wa_job_id a) = Some j" "holds_claim a j"
      using affected_key_one [OF schema_distinct(4) [OF sch] _ one, of "wa_job_id a"]
      by (auto simp: holds_claim_def)
    have c2: "core_of d2 = set_job (wa_job_id a) ((abs_job j)\<lparr>jc_status := snd ?st\<rparr>) (core_of d)"
      using core_of_update_job [OF j(1), of "holds_claim a"] j(2) d2
      by (simp add: same_fleet_def holds_claim_def)
    have "core_of (d2\<lparr>db_attempts := update_where (\<lambda>r. wa_attempt_id r = ai_attempt_id identity)
        (settle_attempt now submission) (db_attempts d2)\<rparr>) =
        set_attempt (ai_attempt_id identity) ((abs_attempt a)\<lparr>at_status := fst ?st\<rparr>) (core_of d2)"
      using core_of_update_attempt [of d2 "ai_attempt_id identity" a "\<lambda>r. wa_attempt_id r = ai_attempt_id identity"
          "settle_attempt now submission"] a d2 by (simp add: same_fleet_def)
    moreover have "wa_status a = AttemptCancelRequested \<longrightarrow> fst ?st = AttemptCancelled"
      using cancel by (cases "tm_outcome submission"; cases "tm_write submission") (simp_all add: outcome_matches_def)
    ultimately show "core_step (core_of d) (core_of (d2\<lparr>db_attempts := update_where
        (\<lambda>r. wa_attempt_id r = ai_attempt_id identity) (settle_attempt now submission) (db_attempts d2),
        db_sessions := t\<rparr>))"
      using finish_core_step [OF a(1) att(2) j] by (simp add: c2)
  qed (use d2 tabs jobs sch in \<open>simp add: same_fleet_def schema_intros\<close>)
  show ?thesis
    unfolding commit_terminal_def Let_def
    by (intro tx_intro ensures_persist_write) (auto intro!: fin)
qed

lemma accept_terminal_refines:
  "schema_ok d \<Longrightarrow> ensures (refines d) (accept_terminal ext w identity submission now d)"
  unfolding accept_terminal_def
  by (intro tx_intro commit_terminal_refines) auto

section \<open>What reports promise\<close>

lemma contiguous_prefix_maximal:
  "c \<le> contiguous_prefix seqs c \<and> {c<..contiguous_prefix seqs c} \<subseteq> set seqs
   \<and> contiguous_prefix seqs c + 1 \<notin> set seqs"
proof (induction seqs c rule: contiguous_prefix.induct)
  case (1 seqs c)
  show ?case
  proof (cases "c + 1 \<in> set seqs")
    case True
    then have "{c<..contiguous_prefix seqs (c + 1)} = insert (c + 1) {c + 1<..contiguous_prefix seqs (c + 1)}"
      using 1 by auto
    with True 1 show ?thesis by (simp add: contiguous_prefix.simps [of seqs c])
  qed (simp add: contiguous_prefix.simps [of seqs c])
qed

lemma contiguous_prefix_fixed: "contiguous_prefix seqs (contiguous_prefix seqs c) = contiguous_prefix seqs c"
  by (induction seqs c rule: contiguous_prefix.induct) (metis contiguous_prefix.simps)

definition acknowledge :: "worker_attempt \<Rightarrow> worker_attempt_event list \<Rightarrow> db \<Rightarrow> db" where
  "acknowledge a evs d = d\<lparr>db_events := evs, db_attempts := update_where (\<lambda>b. wa_attempt_id b = wa_attempt_id a)
     (\<lambda>b. b\<lparr>wa_highest_contiguous_reliable_seq := contiguous_prefix (event_seqs (wa_attempt_id a) evs)
        (wa_highest_contiguous_reliable_seq a)\<rparr>) (db_attempts d)\<rparr>"

definition this_event :: "uuid \<Rightarrow> reliable_event_envelope \<Rightarrow> worker_attempt_event \<Rightarrow> bool" where
  "this_event i event e \<longleftrightarrow> we_attempt_id e = i \<and> we_reliable_seq e = as_i64 (re_reliable_seq event)"

definition carries :: "reliable_event_envelope \<Rightarrow> worker_attempt_event \<Rightarrow> bool" where
  "carries event e \<longleftrightarrow> we_payload e = re_payload event \<and> we_payload_digest e = re_payload_digest event
     \<and> we_trace_id e = re_trace_id event"

lemma ingest_commit:
  assumes "ingest_reliable_event w event now d = Commit r d'"
  obtains a evs where "find (lease_current w (re_identity event) (re_trace_id event) now d) (db_attempts d) = Some a"
    "event_check (event_row now event)" "d' = acknowledge a evs d" "attempt_table_ok (db_attempts d')" "event_table_ok evs \<or> evs = db_events d"
    "r = EventInserted \<and> find (this_event (wa_attempt_id a) event) (db_events d) = None
       \<and> evs = db_events d @ [event_row now event]
     \<or> r = EventDuplicate \<and> evs = db_events d
       \<and> (\<exists>e. find (this_event (wa_attempt_id a) event) (db_events d) = Some e \<and> carries event e)"
proof -
  obtain a where a: "find (lease_current w (re_identity event) (re_trace_id event) now d) (db_attempts d) = Some a"
    using assms by (auto simp: ingest_reliable_event_def split: option.splits)
  then have id: "ai_attempt_id (re_identity event) = wa_attempt_id a"
    by (auto simp: find_Some_iff lease_current_def names_attempt_def)
  have event: "(\<lambda>e. we_attempt_id e = wa_attempt_id a \<and> we_reliable_seq e = we_reliable_seq (event_row now event))
      = this_event (wa_attempt_id a) event"
    by (simp add: this_event_def fun_eq_iff event_row_def)
  have row: "we_attempt_id (event_row now event) = wa_attempt_id a" "we_payload (event_row now event) = re_payload event"
    "we_payload_digest (event_row now event) = re_payload_digest event" "we_trace_id (event_row now event) = re_trace_id event"
    by (simp_all add: event_row_def id)
  show ?thesis
    using assms that [OF a, of "db_events d"] that [OF a, of "db_events d @ [event_row now event]"]
    by (simp add: ingest_reliable_event_def a Let_def row event update_attempts_def set_attempts_def set_events_def
        acknowledge_def carries_def split: option.splits if_splits)
qed

text \<open>C20: A committed report of a reliable event leaves the event in the ledger of its attempt, and the
  acknowledged sequence number ends a gapless run: everything from the old one up to it is in the ledger, and the next
  number is not.\<close>

theorem event_acknowledgement:
  assumes "ingest_reliable_event w event now d = Commit r d'" "schema_ok d"
  shows "\<exists>a a'. names_attempt w (re_identity event) a \<and> row_of wa_attempt_id (db_attempts d) (wa_attempt_id a) = Some a
    \<and> row_of wa_attempt_id (db_attempts d') (wa_attempt_id a) = Some a'
    \<and> as_i64 (re_reliable_seq event) \<in> set (event_seqs (wa_attempt_id a) (db_events d'))
    \<and> {wa_highest_contiguous_reliable_seq a<..wa_highest_contiguous_reliable_seq a'}
        \<subseteq> set (event_seqs (wa_attempt_id a) (db_events d'))
    \<and> wa_highest_contiguous_reliable_seq a' + 1 \<notin> set (event_seqs (wa_attempt_id a) (db_events d'))"
proof -
  from assms(1) obtain a evs where a: "find (lease_current w (re_identity event) (re_trace_id event) now d) (db_attempts d) = Some a"
    and d': "d' = acknowledge a evs d"
    and evs: "evs = db_events d @ [event_row now event] \<or> (\<exists>e. find (this_event (wa_attempt_id a) event) evs = Some e)"
    by (rule ingest_commit) auto
  have named: "names_attempt w (re_identity event) a" and "a \<in> set (db_attempts d)"
    using a by (auto simp: find_Some_iff lease_current_def)
  then have row: "row_of wa_attempt_id (db_attempts d) (wa_attempt_id a) = Some a"
    using row_of_in_set [OF schema_distinct(2) [OF assms(2)]] by blast
  have "as_i64 (re_reliable_seq event) \<in> set (event_seqs (wa_attempt_id a) evs)"
    using evs named by (force simp: event_seqs_def event_row_def names_attempt_def find_Some_iff this_event_def)
  with row named show ?thesis
    using contiguous_prefix_maximal [of "wa_highest_contiguous_reliable_seq a" "event_seqs (wa_attempt_id a) evs"]
    by (intro exI [of _ a] exI) (auto simp: d' acknowledge_def row_of_update_where)
qed

lemma find_append_None: "find P xs = None \<Longrightarrow> find P (xs @ ys) = find P ys"
  by (induction xs) (auto split: if_splits)

lemma update_where_id:
  assumes "\<And>r. r \<in> set t \<Longrightarrow> P r \<Longrightarrow> f r = r"
  shows "update_where P f t = t"
  using assms by (induction t) auto

lemma redelivered:
  assumes "find (lease_current w (re_identity event) (re_trace_id event) later d') (db_attempts d') = Some b"
    "event_check (event_row later event)" "find (this_event (wa_attempt_id b) event) (db_events d') = Some e"
    "carries event e" "attempt_table_ok (db_attempts d')"
    "contiguous_prefix (event_seqs (wa_attempt_id b) (db_events d')) (wa_highest_contiguous_reliable_seq b)
      = wa_highest_contiguous_reliable_seq b"
  shows "ingest_reliable_event w event later d' = Commit EventDuplicate d'"
proof -
  have b: "b \<in> set (db_attempts d')" "ai_attempt_id (re_identity event) = wa_attempt_id b"
    using assms(1) by (auto simp: find_Some_iff lease_current_def names_attempt_def)
  have "x = b" if "x \<in> set (db_attempts d')" "wa_attempt_id x = wa_attempt_id b" for x
    using row_of_in_set [of wa_attempt_id "db_attempts d'"] assms(5) b(1) that
    by (metis attempt_table_ok_def option.inject)
  moreover have "b\<lparr>wa_highest_contiguous_reliable_seq := wa_highest_contiguous_reliable_seq b\<rparr> = b" by (cases b) simp
  ultimately have same: "update_where (\<lambda>x. wa_attempt_id x = wa_attempt_id b)
      (\<lambda>x. x\<lparr>wa_highest_contiguous_reliable_seq := wa_highest_contiguous_reliable_seq b\<rparr>) (db_attempts d') = db_attempts d'"
    by (intro update_where_id) metis
  have event: "(\<lambda>e. we_attempt_id e = wa_attempt_id b \<and> we_reliable_seq e = as_i64 (re_reliable_seq event))
      = this_event (wa_attempt_id b) event"
    by (simp add: this_event_def fun_eq_iff)
  show ?thesis
    using assms(2-5) unfolding ingest_reliable_event_def assms(1)
    by (simp add: Let_def event_row_def b(2) event carries_def update_attempts_def set_attempts_def assms(6) same)
qed

text \<open>C21: Redelivering an accepted event, while the lease is still held, is answered as a duplicate and leaves
  every table as it is.\<close>

theorem event_redelivery:
  assumes "ingest_reliable_event w event now d = Commit r d'" "schema_ok d"
    "find (lease_current w (re_identity event) (re_trace_id event) later d') (db_attempts d') = Some b"
  shows "ingest_reliable_event w event later d' = Commit EventDuplicate d'"
proof -
  from assms(1) obtain a evs where a: "find (lease_current w (re_identity event) (re_trace_id event) now d) (db_attempts d) = Some a"
    and check: "event_check (event_row now event)" and d': "d' = acknowledge a evs d"
    and ok: "attempt_table_ok (db_attempts d')"
    and evs: "find (this_event (wa_attempt_id a) event) (db_events d) = None \<and> evs = db_events d @ [event_row now event]
      \<or> (\<exists>e. find (this_event (wa_attempt_id a) event) evs = Some e \<and> carries event e)"
    by (rule ingest_commit) auto
  have in_a: "a \<in> set (db_attempts d)" "ai_attempt_id (re_identity event) = wa_attempt_id a"
    using a by (auto simp: find_Some_iff lease_current_def names_attempt_def)
  have b: "b \<in> set (db_attempts d')" "wa_attempt_id b = wa_attempt_id a"
    using assms(3) in_a(2) by (auto simp: find_Some_iff lease_current_def names_attempt_def)
  then obtain r0 where r0: "b = (if wa_attempt_id r0 = wa_attempt_id a then r0\<lparr>wa_highest_contiguous_reliable_seq :=
      contiguous_prefix (event_seqs (wa_attempt_id a) evs) (wa_highest_contiguous_reliable_seq a)\<rparr> else r0)"
    by (auto simp: d' acknowledge_def in_update_where)
  have hc: "wa_highest_contiguous_reliable_seq b =
      contiguous_prefix (event_seqs (wa_attempt_id a) evs) (wa_highest_contiguous_reliable_seq a)"
    using b(2) unfolding r0 by (simp split: if_splits)
  have "\<exists>e. find (this_event (wa_attempt_id b) event) (db_events d') = Some e \<and> carries event e"
    using evs b(2) in_a(2)
    by (auto simp: d' acknowledge_def find_append_None this_event_def carries_def event_row_def)
  then obtain e where e: "find (this_event (wa_attempt_id b) event) (db_events d') = Some e" "carries event e" by blast
  show ?thesis
  proof (rule redelivered [OF assms(3) _ e ok])
    show "event_check (event_row later event)" using check by (simp add: event_check_def event_row_def)
    show "contiguous_prefix (event_seqs (wa_attempt_id b) (db_events d')) (wa_highest_contiguous_reliable_seq b)
        = wa_highest_contiguous_reliable_seq b"
      by (simp add: hc b(2)) (simp add: d' acknowledge_def contiguous_prefix_fixed)
  qed
qed

definition sample_event :: reliable_event_envelope where
  "sample_event = \<lparr>re_identity = sample_identity, re_trace_id = 8, re_reliable_seq = 1, re_payload = Phase ''build'' 5,
     re_payload_digest = sample_hash, re_worker_timestamp_ms = 0\<rparr>"

lemmas ingest_eval = ingest_reliable_event_def lease_current_def names_attempt_def attempt_authorized_def
  event_row_def event_seqs_def set_events_def update_attempts_def set_attempts_def as_i64_def Let_def

lemma contiguous_prefix_one: "contiguous_prefix [1] 0 = 1"
  by (simp add: contiguous_prefix.simps)

theorem event_acknowledgement_witness:
  "\<exists>d' a'. ingest_reliable_event 1 sample_event 50 running_db = Commit EventInserted d'
     \<and> row_of wa_attempt_id (db_attempts d') 6 = Some a' \<and> 1 \<in> set (event_seqs 6 (db_events d'))
     \<and> wa_highest_contiguous_reliable_seq a' + 1 \<notin> set (event_seqs 6 (db_events d'))"
proof -
  obtain d' where ingest: "ingest_reliable_event 1 sample_event 50 running_db = Commit EventInserted d'"
    by (simp add: ingest_eval sample_states sample_rows sample_identity_def sample_event_def table_checks contiguous_prefix_one)
  from event_acknowledgement [OF ingest sample_schema_ok(3)] ingest show ?thesis
    by (auto simp: names_attempt_def sample_event_def sample_identity_def as_i64_def)
qed

theorem event_redelivery_witness:
  "\<exists>d'. ingest_reliable_event 1 sample_event 50 running_db = Commit EventInserted d'
     \<and> ingest_reliable_event 1 sample_event 60 d' = Commit EventDuplicate d'"
proof -
  obtain d' b where ingest: "ingest_reliable_event 1 sample_event 50 running_db = Commit EventInserted d'"
    and held: "find (lease_current 1 (re_identity sample_event) (re_trace_id sample_event) 60 d') (db_attempts d') = Some b"
    by (simp add: ingest_eval sample_states sample_rows sample_identity_def sample_event_def table_checks contiguous_prefix_one)
  from event_redelivery [OF ingest sample_schema_ok(3) held] ingest show ?thesis by blast
qed

lemma mark_event_projected_commit:
  assumes "mark_event_projected i n now d = Commit b d'"
  obtains a e where "find (next_to_project i (as_i64 n)) (db_attempts d) = Some a"
    "find (\<lambda>e. we_attempt_id e = i \<and> we_reliable_seq e = as_i64 n) (db_events d) = Some e"
    "db_attempts d' = update_where (\<lambda>x. wa_attempt_id x = i) (\<lambda>x. x\<lparr>wa_projected_reliable_seq := as_i64 n\<rparr>) (db_attempts d)"
proof -
  obtain a e where a: "find (next_to_project i (as_i64 n)) (db_attempts d) = Some a"
    and e: "find (\<lambda>e. we_attempt_id e = i \<and> we_reliable_seq e = as_i64 n) (db_events d) = Some e"
    using assms unfolding mark_event_projected_def Let_def by (auto split: option.splits)
  moreover have "db_attempts d' = update_where (\<lambda>x. wa_attempt_id x = i)
      (\<lambda>x. x\<lparr>wa_projected_reliable_seq := as_i64 n\<rparr>) (db_attempts d)"
    using assms a e unfolding mark_event_projected_def Let_def
    by (auto simp: update_attempts_def set_attempts_def set_events_def split: if_splits)
  ultimately show ?thesis by (rule that)
qed

lemma projected_once:
  assumes "db_attempts d' = update_where (\<lambda>x. wa_attempt_id x = i) (\<lambda>x. x\<lparr>wa_projected_reliable_seq := m\<rparr>) (db_attempts d)"
  shows "find (next_to_project i m) (db_attempts d') = None"
proof -
  have no: "\<not> next_to_project i m (if wa_attempt_id r = i then r\<lparr>wa_projected_reliable_seq := m\<rparr> else r)" for r
    by (cases "wa_attempt_id r = i") (simp_all add: next_to_project_def)
  show ?thesis unfolding assms find_None_iff using no by (auto simp only: in_update_where)
qed

text \<open>C22: An event is projected only when it is the next one of its attempt, is in the ledger and lies in the
  acknowledged prefix; the projected number moves to it, and projecting it again changes nothing.\<close>

theorem projection_in_order:
  assumes "mark_event_projected i n now d = Commit b d'" "schema_ok d"
  shows "\<exists>a. row_of wa_attempt_id (db_attempts d) i = Some a \<and> as_i64 n = wa_projected_reliable_seq a + 1
    \<and> as_i64 n \<le> wa_highest_contiguous_reliable_seq a
    \<and> as_i64 n \<in> set (event_seqs i (db_events d))
    \<and> row_of wa_attempt_id (db_attempts d') i = Some (a\<lparr>wa_projected_reliable_seq := as_i64 n\<rparr>)
    \<and> mark_event_projected i n later d' = Rollback False"
proof -
  from assms(1) obtain a e where found: "find (next_to_project i (as_i64 n)) (db_attempts d) = Some a"
      "find (\<lambda>e. we_attempt_id e = i \<and> we_reliable_seq e = as_i64 n) (db_events d) = Some e"
    and atts: "db_attempts d' = update_where (\<lambda>x. wa_attempt_id x = i)
      (\<lambda>x. x\<lparr>wa_projected_reliable_seq := as_i64 n\<rparr>) (db_attempts d)"
    by (rule mark_event_projected_commit)
  from found(1) have a: "a \<in> set (db_attempts d)" "wa_attempt_id a = i" "as_i64 n = wa_projected_reliable_seq a + 1"
    "as_i64 n \<le> wa_highest_contiguous_reliable_seq a"
    by (auto simp: find_Some_iff next_to_project_def)
  then have row: "row_of wa_attempt_id (db_attempts d) i = Some a"
    using row_of_in_set [OF schema_distinct(2) [OF assms(2)]] by blast
  have "row_of wa_attempt_id (db_attempts d') i = Some (a\<lparr>wa_projected_reliable_seq := as_i64 n\<rparr>)"
    by (simp add: atts row_of_update_where row a(2))
  moreover have "mark_event_projected i n later d' = Rollback False"
    by (simp add: mark_event_projected_def projected_once [OF atts])
  moreover have "as_i64 n \<in> set (event_seqs i (db_events d))"
    using find_conv [OF found(2)] by (force simp: event_seqs_def)
  ultimately show ?thesis using row a by blast
qed

lemma yields_persist_write:
  assumes "\<And>d'. same_fleet d d' \<Longrightarrow> db_jobs d' = db_jobs d \<Longrightarrow> yields Q (k d')"
  shows "yields Q (persist_write now i a w d k)"
proof -
  define K where "K d' \<longleftrightarrow> same_fleet d d' \<and> db_jobs d' = db_jobs d" for d'
  have frame: "K d" "K d' \<Longrightarrow> K (d'\<lparr>db_job_results := t1\<rparr>)" "K d' \<Longrightarrow> K (d'\<lparr>db_job_metrics := t2\<rparr>)"
    "K d' \<Longrightarrow> K (d'\<lparr>db_block_results := t3\<rparr>)" "K d' \<Longrightarrow> K (insert_job_event e d')" "K d' \<Longrightarrow> K (set_baseline n c d')"
    for d' t1 t2 t3 e n c
    by (simp_all add: K_def same_fleet_frame) (simp_all add: insert_job_event_def set_baseline_def)
  have step: "K d' \<Longrightarrow> yields Q (k d')" for d' using assms by (simp add: K_def)
  note defs = insert_job_result_def insert_job_metric_def persist_block_result_def durable_i64_def durable_i32_def Let_def
  have "yields Q (persist_completion now i a completion d k)" for completion
    unfolding persist_completion_def defs
    by (auto intro!: frame step yield_intro split: option.split)
  moreover have "yields Q (persist_failure now i failure d k)" for failure
    unfolding persist_failure_def defs
    by (auto intro!: frame step yield_intro split: option.split)
  ultimately show ?thesis
    unfolding persist_write_def by (cases w) (auto intro: frame step)
qed

lemma accept_terminal_commit:
  assumes "accept_terminal ext w identity submission now d = Commit r d'"
  obtains a where "find (names_attempt w identity) (db_attempts d) = Some a"
    "executing (wa_status a)" "attempt_authorized d a" "now < wa_lease_expires_at a"
    "check_terminal_event ext submission a d = Inr ()"
    "check_verified (ai_attempt_id identity) (tm_artifacts submission) d = Inr ()"
    "outcome_matches (tm_outcome submission) (tm_write submission)"
    "r = Accepted" "affected (holds_claim a) (db_jobs d) = 1"
    "db_jobs d' = update_where (holds_claim a) (\<lambda>j. j\<lparr>j_status := snd (write_statuses (tm_write submission))\<rparr>) (db_jobs d)"
    "db_attempts d' = update_where (\<lambda>a. wa_attempt_id a = ai_attempt_id identity) (settle_attempt now submission) (db_attempts d)"
proof -
  obtain a where a: "find (names_attempt w identity) (db_attempts d) = Some a"
    "executing (wa_status a)" "attempt_authorized d a" "now < wa_lease_expires_at a"
    "check_terminal_event ext submission a d = Inr ()"
    "check_verified (ai_attempt_id identity) (tm_artifacts submission) d = Inr ()"
    "outcome_matches (tm_outcome submission) (tm_write submission)"
    and tx: "commit_terminal w identity submission a now d = Commit r d'"
    using assms by (auto simp: accept_terminal_def split: option.splits sum.splits if_splits)
  have "yields (\<lambda>x d'. x = Some Accepted \<and> affected (holds_claim a) (db_jobs d) = 1
    \<and> db_jobs d' = update_where (holds_claim a) (\<lambda>j. j\<lparr>j_status := snd (write_statuses (tm_write submission))\<rparr>) (db_jobs d)
    \<and> db_attempts d' = update_where (\<lambda>a. wa_attempt_id a = ai_attempt_id identity) (settle_attempt now submission) (db_attempts d))
    (commit_terminal w identity submission a now d)"
    unfolding commit_terminal_def Let_def
    by (intro yield_intro yields_persist_write) (auto simp: same_fleet_def)
  from yields_Commit [OF this tx] that [OF a] show ?thesis by blast
qed

lemma settled_terminal: "terminal (wa_status (settle_attempt now submission a))"
  by (cases "tm_write submission") (simp_all add: settle_attempt_def)

lemma settled_found:
  assumes "schema_ok d" "find (names_attempt w identity) (db_attempts d) = Some a"
  shows "find (names_attempt w identity) (update_where (\<lambda>a. wa_attempt_id a = ai_attempt_id identity)
      (settle_attempt now submission) (db_attempts d)) = Some (settle_attempt now submission a)"
proof -
  have kept: "names_attempt w identity (settle_attempt now submission x) = names_attempt w identity x" for x
    by (simp add: names_attempt_def settle_attempt_def)
  have "find (names_attempt w identity) (update_where (\<lambda>a. wa_attempt_id a = ai_attempt_id identity)
      (settle_attempt now submission) t) = map_option (settle_attempt now submission) (find (names_attempt w identity) t)" for t
    by (induction t) (auto simp: kept, auto simp: names_attempt_def)
  then show ?thesis by (simp add: assms)
qed

text \<open>C5: A terminal result commits only from an attempt that is being executed, is authorized and holds its
  lease, whose terminal event is acknowledged, and while the attempt holds the claim of its running job. Job and attempt
  then get the status of the outcome, and every later result of the attempt is refused: the same one as a duplicate, any
  other as stale.\<close>

theorem terminal_accepted_once:
  assumes "accept_terminal ext w identity submission now d = Commit r d'" "schema_ok d"
  shows "r = Accepted \<and> (\<exists>a j. names_attempt w identity a
    \<and> row_of wa_attempt_id (db_attempts d) (wa_attempt_id a) = Some a
    \<and> executing (wa_status a) \<and> attempt_authorized d a \<and> now < wa_lease_expires_at a
    \<and> as_i64 (tm_reliable_seq submission) \<le> wa_highest_contiguous_reliable_seq a
    \<and> row_of j_id (db_jobs d) (wa_job_id a) = Some j \<and> j_status j = JobRunning
    \<and> j_claim_token j = Some (wa_claim_token a)
    \<and> row_of j_id (db_jobs d') (wa_job_id a) = Some (j\<lparr>j_status := snd (write_statuses (tm_write submission))\<rparr>)
    \<and> row_of wa_attempt_id (db_attempts d') (wa_attempt_id a) = Some (settle_attempt now submission a)
    \<and> accept_terminal ext w identity other later d' =
        Rollback (if same_terminal other (settle_attempt now submission a) then Duplicate else Stale))"
proof -
  from assms(1) obtain a where found: "find (names_attempt w identity) (db_attempts d) = Some a"
    and guards: "executing (wa_status a)" "attempt_authorized d a" "now < wa_lease_expires_at a"
    and event: "check_terminal_event ext submission a d = Inr ()"
    and one: "r = Accepted" "affected (holds_claim a) (db_jobs d) = 1"
    and jobs: "db_jobs d' = update_where (holds_claim a)
      (\<lambda>j. j\<lparr>j_status := snd (write_statuses (tm_write submission))\<rparr>) (db_jobs d)"
    and atts: "db_attempts d' = update_where (\<lambda>a. wa_attempt_id a = ai_attempt_id identity)
      (settle_attempt now submission) (db_attempts d)"
    by (rule accept_terminal_commit)
  note named = find_conv [OF found]
  then have id: "ai_attempt_id identity = wa_attempt_id a" by (simp add: names_attempt_def)
  have row: "row_of wa_attempt_id (db_attempts d) (wa_attempt_id a) = Some a"
    using row_of_in_set [OF schema_distinct(2) [OF assms(2)]] named by blast
  obtain j where j: "row_of j_id (db_jobs d) (wa_job_id a) = Some j" "holds_claim a j"
    using affected_key_one [OF schema_distinct(4) [OF assms(2)] _ one(2), of "wa_job_id a"]
    by (auto simp: holds_claim_def)
  have "as_i64 (tm_reliable_seq submission) \<le> wa_highest_contiguous_reliable_seq a"
    using event by (simp add: check_terminal_event_def Let_def split: if_splits)
  moreover have "row_of j_id (db_jobs d') (wa_job_id a) = Some (j\<lparr>j_status := snd (write_statuses (tm_write submission))\<rparr>)"
    using j by (simp add: jobs row_of_update_where)
  moreover have settled: "row_of wa_attempt_id (db_attempts d') (wa_attempt_id a) = Some (settle_attempt now submission a)"
    by (simp add: atts row_of_update_where row id)
  moreover have "accept_terminal ext w identity other later d' =
        Rollback (if same_terminal other (settle_attempt now submission a) then Duplicate else Stale)"
    using settled_found [OF assms(2) found] by (simp add: accept_terminal_def atts settled_terminal)
  ultimately show ?thesis using row j guards one named by (auto simp: holds_claim_def)
qed

definition sample_codec :: external_codec where
  "sample_codec = \<lparr>ec_task_value = (\<lambda>_. Inr JNull), ec_event_value = (\<lambda>_. Inr JNull), ec_outcome_value = (\<lambda>_. Inr JNull),
     ec_write_scalar = (\<lambda>_. Inr ''null''), ec_sha256_hex = (\<lambda>_. sample_hash)\<rparr>"

definition reported_db :: "reliable_event_payload \<Rightarrow> db" where
  "reported_db payload = running_db\<lparr>db_events := [event_row 40 (sample_event\<lparr>re_payload := payload\<rparr>)],
     db_attempts := [(sample_attempt AttemptRunning)\<lparr>wa_highest_contiguous_reliable_seq := 1\<rparr>]\<rparr>"

definition sample_failure :: fleet_terminal_submission where
  "sample_failure = \<lparr>tm_reliable_seq = 1, tm_payload_digest = sample_hash, tm_outcome = Failed ''build failed'' None False,
     tm_artifacts = [], tm_write = WriteFailed \<lparr>ff_result = None, ff_remark = ''build failed'', ff_event_detail = None\<rparr>\<rparr>"

lemmas reported_eval = sample_states sample_rows reported_db_def sample_event_def sample_identity_def event_row_def
  table_checks as_i64_def

lemma reported_schema_ok: "schema_ok (reported_db payload)"
  unfolding schema_ok_def
  by (cases payload) (simp_all add: reported_eval live_session_def executing_def terminal_def)

theorem projection_in_order_witness:
  "\<exists>d'. mark_event_projected 6 1 50 (reported_db (Phase ''build'' 5)) = Commit True d'
     \<and> mark_event_projected 6 1 60 d' = Rollback False"
proof -
  obtain d' where "mark_event_projected 6 1 50 (reported_db (Phase ''build'' 5)) = Commit True d'"
    by (simp add: mark_event_projected_def reported_eval next_to_project_def Let_def update_attempts_def set_attempts_def
        set_events_def)
  with projection_in_order [OF this reported_schema_ok, of 60] show ?thesis by blast
qed

theorem terminal_accepted_once_witness:
  "\<exists>d'. accept_terminal sample_codec 1 sample_identity sample_failure 50 (reported_db (Terminal sample_hash)) = Commit Accepted d'
     \<and> accept_terminal sample_codec 1 sample_identity sample_failure 60 d' = Rollback Duplicate"
proof -
  obtain d' where tx: "accept_terminal sample_codec 1 sample_identity sample_failure 50 (reported_db (Terminal sample_hash))
      = Commit Accepted d'"
    by (simp add: accept_terminal_def reported_eval names_attempt_def attempt_authorized_def
        executing_def terminal_def check_terminal_event_def sample_failure_def statement_eval sample_codec_def payload_digest_def
        canonical_json_bytes_def and_then_def map_serialization_def affected_def check_verified_def commit_terminal_def statement_defs
        outcome_matches_def holds_claim_def persist_write_def persist_failure_def insert_job_event_def settle_attempt_def release_after_terminal_def Let_def)
  have "same_terminal sample_failure (settle_attempt 50 sample_failure a)" for a
    by (simp add: same_terminal_def settle_attempt_def)
  with terminal_accepted_once [OF tx reported_schema_ok, of sample_failure 60] tx show ?thesis by auto
qed

end
