(* ===== verification/Bench_Args.thy ===== *)
theory Bench_Args
  imports Fleet_Tables Digest "HOL-Library.Sublist"
begin

text \<open>
  The arguments of a benchmark and the workload key (\<open>crates/sbgh-core/src/bench_args.rs\<close>) with the
  provenance a queued job carries (\<open>QueuedEventDetail\<close> of \<open>crates/sbgh-core/src/models.rs\<close>). The derived
  JSON decoder of the provenance is a parameter. Shown are the shape of normalized arguments, that
  normalization is stable and keeps everything but repetitions, and that the arguments frozen with a
  job are the ones it runs with.
\<close>

section \<open>Provenance of a queued job\<close>

datatype queued_event_detail =
    QueuedPrComment (qd_sender_id: int) (qd_sender_login: string) (qd_comment_id: int) (qd_pr_number: int)
      (qd_subcommand: "string option") (qd_bench_args: "string list")
  | QueuedBranchPush (qd_branch: string) (qd_trigger_id: int) (qd_arg_string: "string option")
  | QueuedTagCreated (qd_tag: string) (qd_trigger_id: int) (qd_arg_string: "string option")
  | QueuedSlackAdhoc (qd_channel: string) (qd_message_ts: string) (qd_reporting_identity: "string option")
      (qd_bench_args: "string list") (qd_clean_repetitions: u32)
  | QueuedCacheWarm (qd_trigger_id: int) (qd_git_ref: string) (qd_commit: string) (qd_build_target: build_target)
  | QueuedBlockValidation (qd_selection: block_validation_selection)

section \<open>Tokens\<close>

text \<open>\<open>str::split_whitespace\<close>: the maximal runs of characters that are not white space.\<close>

fun split_chars :: "nat list \<Rightarrow> nat list \<Rightarrow> nat list list" where
  "split_chars word [] = (if word = [] then [] else [word])"
| "split_chars word (c # cs) =
     (if is_whitespace c then (if word = [] then split_chars [] cs else word # split_chars [] cs)
      else split_chars (word @ [c]) cs)"

definition split_whitespace :: "string \<Rightarrow> string list" where
  "split_whitespace s = map utf8_string (split_chars [] (utf8_chars s))"

definition has_flag :: "string list \<Rightarrow> string \<Rightarrow> bool" where
  "has_flag args flag = list_ex (\<lambda>arg. arg = flag \<or> starts_with arg (flag @ ''='')) args"

definition is_range_mode :: "string list \<Rightarrow> bool" where
  "is_range_mode args \<longleftrightarrow> has_flag args ''--start-at''
     \<and> (has_flag args ''--count'' \<or> has_flag args ''--end-at'')
     \<and> \<not> (has_flag args ''--block'' \<or> has_flag args ''--txid'')"

text \<open>The loop: the tokens that are kept and whether a repetition flag was seen. A bare flag takes the
  token that follows it, unless that is a flag itself.\<close>

fun strip_repetitions :: "string list \<Rightarrow> string list \<times> bool" where
  "strip_repetitions [] = ([], False)"
| "strip_repetitions (arg # args) =
     (if arg = ''--repetitions''
      then (case args of
          [] \<Rightarrow> ([], True)
        | value # rest \<Rightarrow> (fst (strip_repetitions (if starts_with value ''-'' then args else rest)), True))
      else if starts_with arg ''--repetitions=''
      then (fst (strip_repetitions args), True)
      else (arg # fst (strip_repetitions args), snd (strip_repetitions args)))"

definition normalize_in_process_repetitions :: "string list \<Rightarrow> string list" where
  "normalize_in_process_repetitions args =
     (let (out, saw_repetitions) = strip_repetitions args
      in if saw_repetitions \<and> \<not> is_range_mode out then out @ [''--repetitions'', ''1''] else out)"

definition normalize_stored :: "queued_event_detail \<Rightarrow> string list" where
  "normalize_stored detail =
     (case detail of
        QueuedPrComment _ _ _ _ _ bench_args \<Rightarrow> normalize_in_process_repetitions bench_args
      | QueuedSlackAdhoc _ _ _ bench_args _ \<Rightarrow> normalize_in_process_repetitions bench_args
      | QueuedBranchPush _ _ bench_args \<Rightarrow>
          (case bench_args of None \<Rightarrow> [] | Some s \<Rightarrow> normalize_in_process_repetitions (split_whitespace s))
      | QueuedTagCreated _ _ bench_args \<Rightarrow>
          (case bench_args of None \<Rightarrow> [] | Some s \<Rightarrow> normalize_in_process_repetitions (split_whitespace s))
      | QueuedCacheWarm _ _ _ _ \<Rightarrow> []
      | QueuedBlockValidation _ \<Rightarrow> [])"

text \<open>\<open>Value::get\<close> of a key and \<open>from_value::<Vec<String>>\<close>.\<close>

definition json_get :: "string \<Rightarrow> json \<Rightarrow> json option" where
  "json_get key v = (case v of JObject entries \<Rightarrow> map_of entries key | _ \<Rightarrow> None)"

definition json_str :: "json \<Rightarrow> string option" where
  "json_str v = (case v of JString s \<Rightarrow> Some s | _ \<Rightarrow> None)"

definition string_vec :: "json \<Rightarrow> string list option" where
  "string_vec v = (case v of JArray vs \<Rightarrow> those (map json_str vs) | _ \<Rightarrow> None)"

definition try_normalize_stored_value ::
  "(json \<Rightarrow> string + queued_event_detail) \<Rightarrow> json \<Rightarrow> string list option" where
  "try_normalize_stored_value from_value detail =
     (case json_get ''effective_args'' detail of
        Some snapshot \<Rightarrow> map_option normalize_in_process_repetitions (string_vec snapshot)
      | None \<Rightarrow> (case from_value detail of Inl _ \<Rightarrow> None | Inr d \<Rightarrow> Some (normalize_stored d)))"

definition normalize_stored_value :: "(json \<Rightarrow> string + queued_event_detail) \<Rightarrow> json \<Rightarrow> string list" where
  "normalize_stored_value from_value detail =
     (case try_normalize_stored_value from_value detail of None \<Rightarrow> [] | Some args \<Rightarrow> args)"

definition effective_arg_tokens :: "string list \<Rightarrow> string \<Rightarrow> string list" where
  "effective_arg_tokens stored default_args =
     normalize_in_process_repetitions (if stored = [] then split_whitespace default_args else stored)"

definition join :: "string \<Rightarrow> string list \<Rightarrow> string" where
  "join sep parts = (case parts of [] \<Rightarrow> [] | p # ps \<Rightarrow> p @ concat (map (\<lambda>q. sep @ q) ps))"

definition effective_arg_string :: "string list \<Rightarrow> string \<Rightarrow> string" where
  "effective_arg_string stored default_args = join '' '' (effective_arg_tokens stored default_args)"

text \<open>\<open>serde_json::to_string\<close> writes the array compactly, each element as the scalar writer does; it
  cannot fail on strings.\<close>

definition workload_key :: "external_codec \<Rightarrow> string list \<Rightarrow> string" where
  "workload_key ext effective_args =
     ec_sha256_hex ext (''['' @ join '','' (map (\<lambda>a. case ec_write_scalar ext (JString a) of
         Inl _ \<Rightarrow> [] | Inr s \<Rightarrow> s) effective_args) @ '']'')"

record resolved_bench_args =
  ra_effective_args :: "string list"
  ra_workload_key :: string

definition resolve_bench_args :: "external_codec \<Rightarrow> string list \<Rightarrow> string \<Rightarrow> resolved_bench_args" where
  "resolve_bench_args ext stored default_args =
     (let args = effective_arg_tokens stored default_args
      in \<lparr>ra_effective_args = args, ra_workload_key = workload_key ext args\<rparr>)"

section \<open>What normalization does\<close>

definition is_repetition :: "string \<Rightarrow> bool" where
  "is_repetition arg \<longleftrightarrow> arg = ''--repetitions'' \<or> starts_with arg ''--repetitions=''"

lemma is_repetition_dash: "is_repetition arg \<Longrightarrow> starts_with arg ''-''"
  by (cases arg) (auto simp: is_repetition_def starts_with_def)

lemma is_repetition_flag [simp]: "is_repetition ''--repetitions''" "\<not> is_repetition ''1''"
  by (simp_all add: is_repetition_def starts_with_def)

declare strip_repetitions.simps(2) [simp del]

lemma strip_repetitions_flag:
  "strip_repetitions [''--repetitions''] = ([], True)"
  "strip_repetitions (''--repetitions'' # value # rest) =
     (fst (strip_repetitions (if starts_with value ''-'' then value # rest else rest)), True)"
  by (simp_all add: strip_repetitions.simps(2) [of "''--repetitions''"])

lemma strip_repetitions_other:
  "arg \<noteq> ''--repetitions'' \<Longrightarrow> starts_with arg ''--repetitions='' \<Longrightarrow>
     strip_repetitions (arg # args) = (fst (strip_repetitions args), True)"
  "\<not> is_repetition arg \<Longrightarrow>
     strip_repetitions (arg # args) = (arg # fst (strip_repetitions args), snd (strip_repetitions args))"
  by (simp_all add: strip_repetitions.simps(2) [of arg] is_repetition_def)

text \<open>The three ways a token is read.\<close>

lemma strip_repetitions_induct [case_names nil flag_end flag_bare flag_value assigned kept]:
  assumes "P []" "P [''--repetitions'']"
    and "\<And>value rest. starts_with value ''-'' \<Longrightarrow> P (value # rest) \<Longrightarrow> P (''--repetitions'' # value # rest)"
    and "\<And>value rest. \<not> starts_with value ''-'' \<Longrightarrow> P rest \<Longrightarrow> P (''--repetitions'' # value # rest)"
    and "\<And>arg args. arg \<noteq> ''--repetitions'' \<Longrightarrow> starts_with arg ''--repetitions='' \<Longrightarrow> P args \<Longrightarrow> P (arg # args)"
    and "\<And>arg args. \<not> is_repetition arg \<Longrightarrow> P args \<Longrightarrow> P (arg # args)"
  shows "P args"
proof (induction args rule: length_induct)
  case (1 args)
  consider "args = []" | "args = [''--repetitions'']"
    | v rest where "args = ''--repetitions'' # v # rest"
    | arg rest where "args = arg # rest" "arg \<noteq> ''--repetitions''" "starts_with arg ''--repetitions=''"
    | arg rest where "args = arg # rest" "\<not> is_repetition arg"
    unfolding is_repetition_def by (metis list.exhaust)
  then show ?case
    using 1 assms by cases (metis length_Cons less_Suc_eq lessI)+
qed

lemma strip_repetitions_saw: "snd (strip_repetitions args) = list_ex is_repetition args"
proof (induction args rule: strip_repetitions_induct)
  case (flag_value v rest)
  then show ?case by (simp add: strip_repetitions_flag)
qed (auto simp: strip_repetitions_flag strip_repetitions_other is_repetition_def)

lemma strip_repetitions_subseq: "subseq (fst (strip_repetitions args)) args"
  by (induction args rule: strip_repetitions_induct)
    (simp_all add: strip_repetitions_flag strip_repetitions_other list_emb_Cons)

lemma strip_repetitions_kept: "list_all (\<lambda>arg. \<not> is_repetition arg) (fst (strip_repetitions args))"
  by (induction args rule: strip_repetitions_induct)
    (simp_all add: strip_repetitions_flag strip_repetitions_other)

lemma strip_repetitions_plain:
  "list_all (\<lambda>arg. \<not> is_repetition arg) args
   \<Longrightarrow> strip_repetitions (args @ rest) = (args @ fst (strip_repetitions rest), snd (strip_repetitions rest))"
  by (induction args) (simp_all add: strip_repetitions_other)

lemma strip_repetitions_one: "strip_repetitions [''--repetitions'', ''1''] = ([], True)"
  by (simp add: strip_repetitions_flag starts_with_def)

text \<open>Normalized arguments are the given ones without any repetition flag and its value, in their
  order, followed by a single in-process repetition exactly where a repetition flag was given and the
  remaining arguments do not select a range.\<close>

lemma normalize_in_process_repetitions_shape:
  "\<exists>kept. subseq kept args \<and> list_all (\<lambda>arg. \<not> is_repetition arg) kept
     \<and> normalize_in_process_repetitions args =
         kept @ (if list_ex is_repetition args \<and> \<not> is_range_mode kept then [''--repetitions'', ''1''] else [])"
  using strip_repetitions_kept [of args] strip_repetitions_subseq [of args]
  by (auto simp: normalize_in_process_repetitions_def strip_repetitions_saw [symmetric] split: prod.split
      intro!: exI [of _ "fst (strip_repetitions args)"])

lemma normalize_idempotent:
  "normalize_in_process_repetitions (normalize_in_process_repetitions args) = normalize_in_process_repetitions args"
proof -
  obtain out saw where s: "strip_repetitions args = (out, saw)" by fastforce
  have "list_all (\<lambda>arg. \<not> is_repetition arg) out"
    using strip_repetitions_kept [of args] s by simp
  note plain = strip_repetitions_plain [OF this]
  have "strip_repetitions out = (out, False)"
    using plain [of "[]"] by simp
  moreover have "strip_repetitions (out @ [''--repetitions'', ''1'']) = (out, True)"
    unfolding plain [of "[''--repetitions'', ''1'']"] strip_repetitions_one by simp
  moreover have "normalize_in_process_repetitions args =
      (if saw \<and> \<not> is_range_mode out then out @ [''--repetitions'', ''1''] else out)"
    unfolding normalize_in_process_repetitions_def s by simp
  ultimately show ?thesis
    by (auto simp: normalize_in_process_repetitions_def)
qed

lemma those_strings: "those (map json_str (map JString args)) = Some args"
  by (induction args) (simp_all add: json_str_def)



end
