(* ===== verification/Submission_Kernel.thy ===== *)
theory Submission_Kernel
  imports Bench_Args
begin

text \<open>
  The task-submission boundary: the commands of \<open>crates/sbgh-core/src/submission.rs\<close> and their validation
  and fingerprint in \<open>crates/sbgh-daemon/src/submission.rs\<close>. The derived decoder of the queued provenance
  and the derived encoder of the digest material are the fields of a \<open>submission_codec\<close>. Shown are what
  a prepared submission satisfies and what its fingerprint depends on.
\<close>

section \<open>Commands\<close>

definition SUBMISSION_CONTRACT_VERSION :: int where "SUBMISSION_CONTRACT_VERSION = 1"

record producer_key =
  pk_namespace :: string
  pk_key :: string

datatype submission_actor =
    ActorSystem
  | ActorGithubUser int
  | ActorSlackUser string string

record scheduling_constraints =
  sk_required_worker_id :: "uuid option"
  sk_required_measurement_profile :: "string option"

record resolved_task_source =
  rt_github_installation_id :: int
  rt_github_repo_id :: int
  rt_source :: job_source
  rt_intent :: job_intent
  rt_task_kind :: task_kind
  rt_build_target :: build_target
  rt_git_ref_kind :: git_ref_kind
  rt_git_ref_display :: string
  rt_commit :: string
  rt_committed_at :: "instant option"
  rt_workload_key :: "string option"

record benchmark_variant =
  va_source :: resolved_task_source
  va_requested_run_count :: int
  va_baseline_calibration_id :: "int option"

record benchmark_plan =
  pl_variants :: "benchmark_variant list"
  pl_effective_args :: "string list"

record build_only_plan =
  pb_source :: resolved_task_source

record block_validation_plan =
  pv_source :: resolved_task_source
  pv_payload :: block_validation_payload

datatype task_plan =
    PlanBenchmark benchmark_plan
  | PlanBuildOnly build_only_plan
  | PlanBlockValidation block_validation_plan

primrec kind_required_capability :: "task_kind \<Rightarrow> worker_capability" where
  "kind_required_capability KindBenchmark = Benchmark"
| "kind_required_capability KindBlockValidation = BlockValidation"
| "kind_required_capability KindBuildOnly = BuildOnly"

primrec required_capability :: "task_plan \<Rightarrow> worker_capability" where
  "required_capability (PlanBenchmark _) = kind_required_capability KindBenchmark"
| "required_capability (PlanBuildOnly _) = kind_required_capability KindBuildOnly"
| "required_capability (PlanBlockValidation _) = kind_required_capability KindBlockValidation"

primrec first_source :: "task_plan \<Rightarrow> resolved_task_source option" where
  "first_source (PlanBenchmark plan) = map_option va_source (case pl_variants plan of [] \<Rightarrow> None | v # _ \<Rightarrow> Some v)"
| "first_source (PlanBuildOnly plan) = Some (pb_source plan)"
| "first_source (PlanBlockValidation plan) = Some (pv_source plan)"

record github_submission_provenance =
  gp_webhook_id :: int
  gp_triggering_user_id :: "int option"
  gp_pull_request_id :: "int option"
  gp_triggering_comment_id :: "int option"

record slack_submission_provenance =
  sn_team_id :: string
  sn_channel_id :: string
  sn_request_message_ts :: string
  sn_reporting_identity :: string
  sn_report_message_ts :: "string option"

record submission_provenance =
  pr_queued_event_detail :: json
  pr_github :: "github_submission_provenance option"
  pr_slack :: "slack_submission_provenance option"

record submission_command =
  cm_actor :: submission_actor
  cm_producer_key :: producer_key
  cm_constraints :: scheduling_constraints
  cm_task :: task_plan
  cm_provenance :: submission_provenance

record prepared_submission =
  ps_command :: submission_command
  ps_contract_version :: int
  ps_request_digest :: string

datatype submission_disposition = Created | AlreadySubmitted

record submission_receipt =
  rc_submission_id :: uuid
  rc_disposition :: submission_disposition
  rc_initial_job_ids :: "uuid list"

datatype submission_error =
    SubmissionInvalid string
  | SubmissionConflict string string
  | Persistence

section \<open>Digest material\<close>

record digest_source =
  ds_github_installation_id :: int
  ds_github_repo_id :: int
  ds_task_kind :: task_kind
  ds_build_target :: build_target
  ds_commit :: string
  ds_workload_key :: "string option"

record digest_variant =
  dv_source :: digest_source
  dv_requested_run_count :: int
  dv_baseline_calibration_id :: "int option"

datatype digest_task =
    DigestBenchmark "digest_variant list" "string list"
  | DigestBuildOnly digest_source
  | DigestBlockValidation digest_source block_validation_payload

record digest_material =
  dm_contract_version :: int
  dm_constraints :: scheduling_constraints
  dm_task :: digest_task

record submission_codec =
  sq_queued :: "json \<Rightarrow> string + queued_event_detail"
  sq_material :: "digest_material \<Rightarrow> string + string"

definition digest_source_from :: "resolved_task_source \<Rightarrow> digest_source" where
  "digest_source_from source = \<lparr>ds_github_installation_id = rt_github_installation_id source,
     ds_github_repo_id = rt_github_repo_id source, ds_task_kind = rt_task_kind source,
     ds_build_target = rt_build_target source, ds_commit = rt_commit source,
     ds_workload_key = rt_workload_key source\<rparr>"

definition digest_variant_from :: "benchmark_variant \<Rightarrow> digest_variant" where
  "digest_variant_from variant = \<lparr>dv_source = digest_source_from (va_source variant),
     dv_requested_run_count = va_requested_run_count variant,
     dv_baseline_calibration_id = va_baseline_calibration_id variant\<rparr>"

primrec digest_task_from :: "task_plan \<Rightarrow> digest_task" where
  "digest_task_from (PlanBenchmark plan) =
     DigestBenchmark (map digest_variant_from (pl_variants plan)) (pl_effective_args plan)"
| "digest_task_from (PlanBuildOnly plan) = DigestBuildOnly (digest_source_from (pb_source plan))"
| "digest_task_from (PlanBlockValidation plan) =
     DigestBlockValidation (digest_source_from (pv_source plan)) (pv_payload plan)"

section \<open>Validation\<close>

definition valid_key :: "string \<Rightarrow> nat \<Rightarrow> bool" where
  "valid_key value limit \<longleftrightarrow> \<not> trim_is_empty value \<and> length value \<le> limit \<and> \<not> any_control value"

definition validate_source :: "resolved_task_source \<Rightarrow> submission_error + unit" where
  "validate_source source =
     (if rt_github_installation_id source \<le> 0 \<or> rt_github_repo_id source \<le> 0
      then Inl (SubmissionInvalid ''GitHub installation and repository ids must be positive'')
      else if trim_is_empty (rt_commit source)
      then Inl (SubmissionInvalid ''task source must contain an immutable commit'')
      else if trim_is_empty (rt_git_ref_display source)
      then Inl (SubmissionInvalid ''task source must contain a display ref'')
      else Inr ())"

text \<open>The body of the loop over the variants of a benchmark plan.\<close>

definition validate_variant ::
  "resolved_task_source \<Rightarrow> string \<Rightarrow> benchmark_variant \<Rightarrow> submission_error + unit" where
  "validate_variant first expected_workload_key variant =
     (let source = va_source variant
      in and_then (validate_source source) (\<lambda>_.
         if rt_task_kind source \<noteq> KindBenchmark \<or> rt_build_target source \<noteq> StacksBench
         then Inl (SubmissionInvalid ''benchmark variant has an unsupported task/build target'')
         else if rt_github_installation_id source \<noteq> rt_github_installation_id first
           \<or> rt_source source \<noteq> rt_source first \<or> rt_intent source \<noteq> rt_intent first
         then Inl (SubmissionInvalid ''benchmark variants must share installation, source, and intent'')
         else if rt_workload_key source \<noteq> Some expected_workload_key
         then Inl (SubmissionInvalid ''benchmark workload key differs from its frozen effective arguments'')
         else if va_requested_run_count variant \<le> 0
         then Inl (SubmissionInvalid ''benchmark run count must be positive'')
         else Inr ()))"

primrec is_benchmark_provenance :: "queued_event_detail \<Rightarrow> bool" where
  "is_benchmark_provenance (QueuedPrComment _ _ _ _ _ _) = True"
| "is_benchmark_provenance (QueuedBranchPush _ _ _) = True"
| "is_benchmark_provenance (QueuedTagCreated _ _ _) = True"
| "is_benchmark_provenance (QueuedSlackAdhoc _ _ _ _ _) = True"
| "is_benchmark_provenance (QueuedCacheWarm _ _ _ _) = False"
| "is_benchmark_provenance (QueuedBlockValidation _) = False"

definition validate_benchmark_plan ::
  "external_codec \<Rightarrow> json \<Rightarrow> queued_event_detail \<Rightarrow> benchmark_plan \<Rightarrow> submission_error + unit" where
  "validate_benchmark_plan ext detail queued plan =
     (if \<not> is_benchmark_provenance queued
      then Inl (SubmissionInvalid ''benchmark plan has non-benchmark queued provenance'')
      else case pl_variants plan of
        [] \<Rightarrow> Inl (SubmissionInvalid ''benchmark plan must contain at least one variant'')
      | v # _ \<Rightarrow>
          (case Option.bind (json_get ''effective_args'' detail) string_vec of
             None \<Rightarrow> Inl (SubmissionInvalid ''benchmark queued provenance must contain effective_args'')
           | Some queued_args \<Rightarrow>
               if queued_args \<noteq> pl_effective_args plan
               then Inl (SubmissionInvalid ''queued effective_args differ from the immutable benchmark plan'')
               else for_each (validate_variant (va_source v) (workload_key ext (pl_effective_args plan)))
                 (pl_variants plan)))"

definition validate_build_only_plan ::
  "queued_event_detail \<Rightarrow> build_only_plan \<Rightarrow> submission_error + unit" where
  "validate_build_only_plan queued plan =
     (if \<not> is_QueuedCacheWarm queued
      then Inl (SubmissionInvalid ''build-only plan has non-build queued provenance'')
      else and_then (validate_source (pb_source plan)) (\<lambda>_.
        ensure (rt_task_kind (pb_source plan) = KindBuildOnly \<and> rt_build_target (pb_source plan) = StacksBench)
          (SubmissionInvalid ''build-only plan has an unsupported task/build target'')))"

definition validate_block_validation_plan ::
  "queued_event_detail \<Rightarrow> block_validation_plan \<Rightarrow> submission_error + unit" where
  "validate_block_validation_plan queued plan =
     (if \<not> is_QueuedBlockValidation queued
      then Inl (SubmissionInvalid ''validation plan has non-validation queued provenance'')
      else and_then (validate_source (pv_source plan)) (\<lambda>_.
        if rt_task_kind (pv_source plan) \<noteq> KindBlockValidation \<or> rt_build_target (pv_source plan) \<noteq> StacksInspect
        then Inl (SubmissionInvalid ''validation plan has an unsupported task/build target'')
        else case validate_task_payload (TaskBlockValidation (pv_payload plan)) of
          Inl e \<Rightarrow> Inl (SubmissionInvalid (protocol_error_to_string e))
        | Inr _ \<Rightarrow> Inr ()))"

definition actor_agrees ::
  "submission_actor \<Rightarrow> github_submission_provenance option \<Rightarrow> slack_submission_provenance option \<Rightarrow> bool" where
  "actor_agrees actor github slack =
     (case (actor, github, slack) of
        (ActorGithubUser user_id, Some github, None) \<Rightarrow> gp_triggering_user_id github = Some user_id
      | (ActorSlackUser team_id user_id, None, Some slack) \<Rightarrow> sn_team_id slack = team_id \<and> \<not> trim_is_empty user_id
      | (ActorSystem, _, None) \<Rightarrow> True
      | _ \<Rightarrow> False)"

primrec is_benchmark_plan :: "task_plan \<Rightarrow> bool" where
  "is_benchmark_plan (PlanBenchmark _) = True"
| "is_benchmark_plan (PlanBuildOnly _) = False"
| "is_benchmark_plan (PlanBlockValidation _) = False"

definition validate_submission ::
  "submission_codec \<Rightarrow> external_codec \<Rightarrow> submission_command \<Rightarrow> submission_error + unit" where
  "validate_submission codec ext command =
     (let key = cm_producer_key command; profile = sk_required_measurement_profile (cm_constraints command);
          provenance = cm_provenance command; detail = pr_queued_event_detail provenance
      in if \<not> valid_key (pk_namespace key) 64 \<or> \<not> valid_key (pk_key key) 512
         then Inl (SubmissionInvalid ''producer namespace/key is empty, oversized, or contains control characters'')
         else if (case profile of None \<Rightarrow> False | Some p \<Rightarrow> \<not> valid_key p 128)
         then Inl (SubmissionInvalid ''required measurement profile is invalid'')
         else if \<not> is_benchmark_plan (cm_task command) \<and> profile \<noteq> None
         then Inl (SubmissionInvalid ''measurement-profile constraints apply only to benchmark submissions'')
         else case sq_queued codec detail of
           Inl e \<Rightarrow> Inl (SubmissionInvalid (''queued-event provenance is invalid: '' @ e))
         | Inr queued \<Rightarrow>
             and_then (case cm_task command of
                 PlanBenchmark plan \<Rightarrow> validate_benchmark_plan ext detail queued plan
               | PlanBuildOnly plan \<Rightarrow> validate_build_only_plan queued plan
               | PlanBlockValidation plan \<Rightarrow> validate_block_validation_plan queued plan) (\<lambda>_.
               ensure (actor_agrees (cm_actor command) (pr_github provenance) (pr_slack provenance))
                 (SubmissionInvalid ''actor and source provenance disagree'')))"

definition prepare ::
  "submission_codec \<Rightarrow> external_codec \<Rightarrow> submission_command \<Rightarrow> submission_error + prepared_submission" where
  "prepare codec ext command =
     and_then (validate_submission codec ext command) (\<lambda>_.
     case sq_material codec \<lparr>dm_contract_version = SUBMISSION_CONTRACT_VERSION,
         dm_constraints = cm_constraints command, dm_task = digest_task_from (cm_task command)\<rparr> of
       Inl _ \<Rightarrow> Inl Persistence
     | Inr encoded \<Rightarrow> Inr \<lparr>ps_command = command, ps_contract_version = SUBMISSION_CONTRACT_VERSION,
         ps_request_digest = ec_sha256_hex ext encoded\<rparr>)"

end
