(* ===== verification/Fleet_Store_Submissions.thy ===== *)
theory Fleet_Store_Submissions
  imports Fleet_Store_Fencing
begin

text \<open>
  Preparing the jobs of a submission for execution (\<open>stores/fleet.rs\<close>,
  \<open>freeze_submission_sources\<close> and \<open>prepare_execution\<close>): the source of every spec is fixed to a
  commit, then each job receives its execution payload, both only while the scheduler generation the
  preparation started from is current.
\<close>

record resolved_spec_source =
  rv_spec_id :: uuid
  rv_commit :: string

record prepared_execution =
  px_scheduler_generation :: int
  px_job_id :: uuid
  px_commit :: string
  px_payload :: task_payload
  px_payload_hash :: string

definition PROTOCOL_VERSION :: u16 where
  "PROTOCOL_VERSION = 1"

definition ascii_lower :: "char \<Rightarrow> char" where
  "ascii_lower c = (if 65 \<le> byte_of c \<and> byte_of c \<le> 90 then char_of (byte_of c + 32) else c)"

definition eq_ignore_ascii_case :: "string \<Rightarrow> string \<Rightarrow> bool" where
  "eq_ignore_ascii_case s t \<longleftrightarrow> map ascii_lower s = map ascii_lower t"

definition immutable_commit :: "string \<Rightarrow> bool" where
  "immutable_commit commit \<longleftrightarrow> length commit \<in> {40, 64} \<and> list_all is_ascii_hexdigit commit"

text \<open>The map of the sources by spec; a bad commit or a repeated spec is an error.\<close>

fun resolve_sources ::
  "(uuid \<times> string) list \<Rightarrow> resolved_spec_source list \<Rightarrow> store_error + (uuid \<times> string) list" where
  "resolve_sources resolved [] = Inr resolved"
| "resolve_sources resolved (source # sources) =
     (if \<not> immutable_commit (rv_commit source) \<or> map_of resolved (rv_spec_id source) \<noteq> None
      then Inl (Config ''group source resolutions must contain unique specs and immutable commits'')
      else resolve_sources (resolved @ [(rv_spec_id source, rv_commit source)]) sources)"

definition conflicting_job :: "uuid \<Rightarrow> string \<Rightarrow> db \<Rightarrow> bool" where
  "conflicting_job spec_id commit d =
     list_ex (\<lambda>j. j_task_spec_id j = spec_id \<and> (case j_git_commit_hash j of None \<Rightarrow> False
       | Some h \<Rightarrow> \<not> eq_ignore_ascii_case h commit)) (db_jobs d)"

fun freeze_each ::
  "(uuid \<times> string) list \<Rightarrow> task_spec list \<Rightarrow> db \<Rightarrow> bool outcome" where
  "freeze_each resolved [] d = Commit True d"
| "freeze_each resolved (row # rows) d =
     (let spec_id = sp_id row in
      case map_of resolved spec_id of
        None \<Rightarrow> Rollback False
      | Some commit \<Rightarrow>
        if (case sp_git_commit_hash row of None \<Rightarrow> False | Some h \<Rightarrow> \<not> eq_ignore_ascii_case h commit)
        then Error (Config (''benchmark spec '' @ uuid_to_string spec_id @ '' is already frozen to a different commit''))
        else if conflicting_job spec_id commit d
        then Error (Config (''benchmark spec '' @ uuid_to_string spec_id @ '' has a job at a different commit''))
        else
          let d1 = d\<lparr>db_specs := update_where (\<lambda>s. sp_id s = spec_id) (\<lambda>s. s\<lparr>sp_git_commit_hash := Some commit\<rparr>)
                (db_specs d)\<rparr>
          in update_jobs (\<lambda>j. j_task_spec_id j = spec_id \<and> j_status j = JobQueued \<and> j_git_commit_hash j = None)
               (\<lambda>j. j\<lparr>j_git_commit_hash := Some commit\<rparr>) d1 (freeze_each resolved rows))"

definition freeze_submission_sources ::
  "uuid \<Rightarrow> resolved_spec_source list \<Rightarrow> int \<Rightarrow> db \<Rightarrow> bool outcome" where
  "freeze_submission_sources submission_id sources scheduler_generation d =
     (case resolve_sources [] sources of
        Inl e \<Rightarrow> Error e
      | Inr resolved \<Rightarrow>
        let policy = db_scheduler d;
            rows = sort_key sp_spec_index (filter (\<lambda>s. sp_task_submission_id s = submission_id) (db_specs d))
        in if sc_paused policy \<or> sc_generation policy \<noteq> scheduler_generation then Rollback False
           else if rows = [] \<or> length rows \<noteq> length resolved then Rollback False
           else freeze_each resolved rows d)"

definition prepare_execution :: "prepared_execution \<Rightarrow> db \<Rightarrow> bool outcome" where
  "prepare_execution prepared d =
     (let policy = db_scheduler d;
          unprepared = (\<lambda>j. j_id j = px_job_id prepared \<and> j_status j = JobQueued \<and> j_execution_payload j = None)
      in if sc_paused policy \<or> sc_generation policy \<noteq> px_scheduler_generation prepared then Rollback False
         else update_jobs unprepared (\<lambda>j. j\<lparr>j_git_commit_hash := Some (px_commit prepared),
                j_execution_payload_version := Some (int (unat PROTOCOL_VERSION)),
                j_execution_payload := Some (px_payload prepared),
                j_execution_payload_hash := Some (px_payload_hash prepared)\<rparr>) d
                (Commit (affected unprepared (db_jobs d) = 1)))"

section \<open>The operations implement the abstract machine\<close>

lemma freeze_each_refines: "schema_ok d \<Longrightarrow> ensures (refines d) (freeze_each resolved rows d)"
proof (induction rows arbitrary: d)
  case (Cons row rows)
  have same: "core_of (d\<lparr>db_specs := t, db_jobs := update_where P (\<lambda>j. j\<lparr>j_git_commit_hash := c\<rparr>) (db_jobs d)\<rparr>)
      = core_of d" for t P c
    by (intro core_eqI) (auto intro!: view_same simp: abs_job_def)
  have "schema_ok (d\<lparr>db_specs := update_where P (\<lambda>s. s\<lparr>sp_git_commit_hash := c\<rparr>) (db_specs d), db_jobs := t\<rparr>)"
    if "job_table_ok t" for P c t
    using that by (intro schema_intros schema_ok_update_specs Cons.prems) simp_all
  then show ?case
    unfolding freeze_each.simps Let_def
    by (intro tx_intro; intro ensures_mono [OF Cons.IH]) (auto simp: refines_def same)
qed (simp add: tx_intro refines_refl)

lemma freeze_submission_sources_refines:
  "schema_ok d \<Longrightarrow> ensures (refines d) (freeze_submission_sources s sources generation d)"
  unfolding freeze_submission_sources_def Let_def by (intro tx_intro freeze_each_refines)

lemma prepare_execution_refines: "schema_ok d \<Longrightarrow> ensures (refines d) (prepare_execution prepared d)"
  unfolding prepare_execution_def Let_def
  by (intro tx_intro; rule refines_stutter)
    (auto intro!: schema_intros core_eqI view_same simp: abs_job_def)

end
