(* ===== verification/Submission_Store.thy ===== *)
theory Submission_Store
  imports Submission_Kernel Fleet_Store_Submissions Audited_Requests
begin

text \<open>
  Persistence of submissions and of the runs they ask for: \<open>stores/submissions.rs\<close>, the workflow
  operations of \<open>stores/jobs.rs\<close> and \<open>recover_submission\<close> of \<open>stores/fleet.rs\<close>. Identifiers that the
  code or the database draws at random are arguments. A submission is looked up outside the transaction
  that inserts it: the tables at the first lookup, during the transaction and at the lookup after a lost
  election are three arguments.

  Of the foreign keys, those into \<open>worker_registry\<close> and \<open>github_repo\<close> are checked; the other tables they
  refer to are not modelled.
\<close>

section \<open>Tables of a submission\<close>

definition set_steps :: "task_workflow_step list \<Rightarrow> db \<Rightarrow> (db \<Rightarrow> 'a outcome) \<Rightarrow> 'a outcome" where
  "set_steps t d k =
     (if list_all (\<lambda>s. 0 \<le> sw_step_index s) t \<and> distinct (map (\<lambda>s. (sw_task_submission_id s, sw_step_index s)) t)
      then k (d\<lparr>db_steps := t\<rparr>) else Error Database)"

definition provenance_check :: "task_submission_provenance \<Rightarrow> bool" where
  "provenance_check p \<longleftrightarrow> sv_actor_kind p \<in> {''system'', ''github_user'', ''slack_user''}
     \<and> (sv_actor_kind p = ''system'') = (sv_actor_identity p = None)"

definition set_provenance ::
  "task_submission_provenance list \<Rightarrow> db \<Rightarrow> (db \<Rightarrow> 'a outcome) \<Rightarrow> 'a outcome" where
  "set_provenance t d k =
     (if list_all provenance_check t \<and> distinct (map sv_task_submission_id t) then k (d\<lparr>db_provenance := t\<rparr>)
      else Error Database)"

definition github_check :: "task_submission_github \<Rightarrow> bool" where
  "github_check g \<longleftrightarrow> sg_github_pull_request_id g \<noteq> None \<or> sg_triggering_comment_id g = None"

definition set_github :: "task_submission_github list \<Rightarrow> db \<Rightarrow> (db \<Rightarrow> 'a outcome) \<Rightarrow> 'a outcome" where
  "set_github t d k =
     (if list_all github_check t \<and> distinct (map sg_task_submission_id t)
        \<and> distinct (filter (\<lambda>w. w \<noteq> None) (map sg_github_webhook_id t))
      then k (d\<lparr>db_github := t\<rparr>) else Error Database)"

definition slack_check :: "task_submission_slack \<Rightarrow> bool" where
  "slack_check s \<longleftrightarrow> length_between 1 64 (sl_team_id s) \<and> length_between 1 64 (sl_channel_id s)
     \<and> length_between 1 64 (sl_request_message_ts s) \<and> length_between 1 128 (sl_reporting_identity s)
     \<and> (case sl_report_message_ts s of None \<Rightarrow> True | Some ts \<Rightarrow> length_between 1 64 ts)"

definition set_slack :: "task_submission_slack list \<Rightarrow> db \<Rightarrow> (db \<Rightarrow> 'a outcome) \<Rightarrow> 'a outcome" where
  "set_slack t d k =
     (if list_all slack_check t \<and> distinct (map sl_task_submission_id t)
        \<and> distinct (map sl_reporting_identity t)
      then k (d\<lparr>db_slack := t\<rparr>) else Error Database)"

definition idempotency_check :: "task_submission_idempotency \<Rightarrow> bool" where
  "idempotency_check i \<longleftrightarrow> length_between 1 64 (si_producer_namespace i)
     \<and> length_between 1 512 (si_producer_key i) \<and> si_initial_job_ids i \<noteq> []
     \<and> contract_check (si_contract_version i) (si_request_digest i)"

definition known_repo :: "db \<Rightarrow> int \<Rightarrow> bool" where
  "known_repo d i = list_ex (\<lambda>r. gr_id r = i) (db_repos d)"

definition known_worker :: "db \<Rightarrow> uuid option \<Rightarrow> bool" where
  "known_worker d w = (case w of None \<Rightarrow> True | Some i \<Rightarrow> list_ex (\<lambda>r. wr_worker_id r = i) (db_registry d))"

definition insert_submission :: "task_submission \<Rightarrow> db \<Rightarrow> (db \<Rightarrow> 'a outcome) \<Rightarrow> 'a outcome" where
  "insert_submission row d k =
     (if known_repo d (ts_github_repo_id row) \<and> known_worker d (ts_required_worker_id row)
      then set_submissions (db_submissions d @ [row]) d k else Error Database)"

definition insert_spec :: "task_spec \<Rightarrow> db \<Rightarrow> (db \<Rightarrow> 'a outcome) \<Rightarrow> 'a outcome" where
  "insert_spec row d k =
     (if known_repo d (sp_github_repo_id row) then set_specs (db_specs d @ [row]) d k else Error Database)"

definition insert_job :: "job \<Rightarrow> db \<Rightarrow> (db \<Rightarrow> 'a outcome) \<Rightarrow> 'a outcome" where
  "insert_job row d k =
     (if known_repo d (j_github_repo_id row) then set_jobs (db_jobs d @ [row]) d k else Error Database)"

definition insert_step ::
  "uuid \<Rightarrow> int \<Rightarrow> submission_step_kind \<Rightarrow> uuid \<Rightarrow> db \<Rightarrow> (db \<Rightarrow> 'a outcome) \<Rightarrow> 'a outcome" where
  "insert_step submission_id step_index step_kind spec_id d =
     set_steps (db_steps d @ [\<lparr>sw_task_submission_id = submission_id, sw_step_index = step_index,
       sw_step_kind = step_kind, sw_task_spec_id = Some spec_id\<rparr>]) d"

section \<open>Shared calibration\<close>

definition supports_shared_calibration :: "task_kind \<Rightarrow> build_target \<Rightarrow> bool" where
  "supports_shared_calibration kind target \<longleftrightarrow> kind = KindBenchmark \<and> target = StacksBench"

definition uses_shared_calibration :: "task_kind \<Rightarrow> build_target \<Rightarrow> int \<Rightarrow> bool" where
  "uses_shared_calibration kind target runs \<longleftrightarrow> supports_shared_calibration kind target \<and> runs > 1"

definition measured_run_count :: "task_kind \<Rightarrow> int \<Rightarrow> int" where
  "measured_run_count kind requested = (if kind = KindBuildOnly then 0 else max requested 1)"

text \<open>The wrap-around of \<open>i32\<close> arithmetic in a release build.\<close>

definition i32_wrap :: "int \<Rightarrow> int" where
  "i32_wrap n = (n + 2 ^ 31) mod 2 ^ 32 - 2 ^ 31"

section \<open>Persisting a submission\<close>

definition existing_receipt :: "prepared_submission \<Rightarrow> db \<Rightarrow> submission_error + submission_receipt option" where
  "existing_receipt prepared d =
     (let key = cm_producer_key (ps_command prepared)
      in case find (\<lambda>i. si_producer_namespace i = pk_namespace key \<and> si_producer_key i = pk_key key) (db_idempotency d) of
        None \<Rightarrow> Inr None
      | Some row \<Rightarrow>
          (case (si_contract_version row, si_request_digest row) of
             (Some version, Some digest) \<Rightarrow>
               if version \<noteq> ps_contract_version prepared \<or> digest \<noteq> ps_request_digest prepared
               then Inl (SubmissionConflict (pk_namespace key) (pk_key key))
               else Inr (Some \<lparr>rc_submission_id = si_task_submission_id row,
                 rc_disposition = AlreadySubmitted, rc_initial_job_ids = si_initial_job_ids row\<rparr>)
           | _ \<Rightarrow> Inr (Some \<lparr>rc_submission_id = si_task_submission_id row,
               rc_disposition = AlreadySubmitted, rc_initial_job_ids = si_initial_job_ids row\<rparr>)))"

type_synonym variant = "resolved_task_source \<times> int \<times> int option \<times> bool"

primrec plan_variants :: "task_plan \<Rightarrow> variant list" where
  "plan_variants (PlanBenchmark plan) =
     map (\<lambda>v. (va_source v, va_requested_run_count v, va_baseline_calibration_id v, True)) (pl_variants plan)"
| "plan_variants (PlanBuildOnly plan) = [(pb_source plan, 1, None, False)]"
| "plan_variants (PlanBlockValidation plan) = [(pv_source plan, 1, None, True)]"

definition measured_runs :: "variant list \<Rightarrow> int" where
  "measured_runs variants =
     i32_wrap (sum_list (map (\<lambda>(source, requested, _, _). measured_run_count (rt_task_kind source) requested) variants))"

definition spec_row :: "uuid \<Rightarrow> uuid \<Rightarrow> int \<Rightarrow> variant \<Rightarrow> task_spec" where
  "spec_row spec_id submission_id index variant =
     (case variant of (source, requested_runs, baseline_calibration_id, _) \<Rightarrow>
        \<lparr>sp_id = spec_id, sp_task_submission_id = submission_id, sp_spec_index = index,
          sp_git_commit_hash = Some (rt_commit source), sp_baseline_calibration_id = baseline_calibration_id,
          sp_requested_run_count = requested_runs, sp_github_repo_id = rt_github_repo_id source,
          sp_task_kind = rt_task_kind source, sp_build_target = rt_build_target source,
          sp_git_ref_kind = rt_git_ref_kind source, sp_git_ref_display = rt_git_ref_display source,
          sp_git_committed_at = rt_committed_at source, sp_workload_key = rt_workload_key source\<rparr>)"

text \<open>The steps of a specification: build, calibrate where runs share a calibration, run where the task
  measures.\<close>

definition spec_steps :: "int \<Rightarrow> variant \<Rightarrow> submission_step_kind list" where
  "spec_steps runs variant =
     (case variant of (source, _, _, has_run) \<Rightarrow>
        [StepBuild]
        @ (if uses_shared_calibration (rt_task_kind source) (rt_build_target source) runs then [StepCalibrate] else [])
        @ (if has_run then [StepRun] else []))"

fun insert_steps ::
  "uuid \<Rightarrow> uuid \<Rightarrow> int \<Rightarrow> submission_step_kind list \<Rightarrow> db \<Rightarrow> (db \<Rightarrow> 'a outcome) \<Rightarrow> 'a outcome" where
  "insert_steps submission_id spec_id next_step [] d k = k d"
| "insert_steps submission_id spec_id next_step (kind # kinds) d k =
     insert_step submission_id next_step kind spec_id d (\<lambda>d1.
     insert_steps submission_id spec_id (next_step + 1) kinds d1 k)"

fun insert_specs ::
  "uuid \<Rightarrow> int \<Rightarrow> (uuid \<times> variant) list \<Rightarrow> int \<Rightarrow> int \<Rightarrow> db \<Rightarrow> (db \<Rightarrow> 'a outcome) \<Rightarrow> 'a outcome" where
  "insert_specs submission_id runs [] index next_step d k = k d"
| "insert_specs submission_id runs ((spec_id, variant) # variants) index next_step d k =
     insert_spec (spec_row spec_id submission_id index variant) d (\<lambda>d1.
     insert_steps submission_id spec_id next_step (spec_steps runs variant) d1 (\<lambda>d2.
     insert_specs submission_id runs variants (index + 1) (next_step + int (length (spec_steps runs variant))) d2 k))"

text \<open>The execution columns of the first job. A block validation is executable at once; the payload of
  the other tasks is frozen later by \<open>prepare_execution\<close>.\<close>

type_synonym execution = "int option \<times> task_payload option \<times> string option"

definition initial_execution :: "external_codec \<Rightarrow> task_plan \<Rightarrow> submission_error + execution" where
  "initial_execution ext task =
     (case task of
        PlanBlockValidation plan \<Rightarrow>
          let payload = TaskBlockValidation (pv_payload plan)
          in (case payload_digest ext (ec_task_value ext) payload of
                Inl _ \<Rightarrow> Inl Persistence
              | Inr hash \<Rightarrow> Inr (Some (int (unat PROTOCOL_VERSION)), Some payload, Some hash))
      | _ \<Rightarrow> Inr (None, None, None))"

definition show_int :: "int \<Rightarrow> string" where
  "show_int i = (if i < 0 then ''-'' @ show_nat (nat (- i)) else show_nat (nat i))"

primrec actor_columns :: "submission_actor \<Rightarrow> string \<times> string option" where
  "actor_columns ActorSystem = (''system'', None)"
| "actor_columns (ActorGithubUser user_id) = (''github_user'', Some (show_int user_id))"
| "actor_columns (ActorSlackUser team_id user_id) = (''slack_user'', Some (team_id @ '':'' @ user_id))"

definition submission_row :: "uuid \<Rightarrow> prepared_submission \<Rightarrow> resolved_task_source \<Rightarrow> task_submission" where
  "submission_row submission_id prepared source = \<lparr>ts_id = submission_id,
     ts_required_worker_id = sk_required_worker_id (cm_constraints (ps_command prepared)),
     ts_assigned_worker_id = None,
     ts_required_measurement_profile = sk_required_measurement_profile (cm_constraints (ps_command prepared)),
     ts_assigned_measurement_profile = None, ts_execution_generation = 1, ts_fencing_generation = 0,
     ts_github_installation_id = rt_github_installation_id source, ts_github_repo_id = rt_github_repo_id source,
     ts_source = rt_source source, ts_intent = rt_intent source,
     ts_artifact_prefix = uuid_to_string submission_id, ts_recovery_of_submission_id = None,
     ts_contract_version = Some (ps_contract_version prepared),
     ts_request_digest = Some (ps_request_digest prepared)\<rparr>"

definition initial_job_row ::
  "uuid \<Rightarrow> uuid \<Rightarrow> uuid \<Rightarrow> resolved_task_source \<Rightarrow> worker_capability \<Rightarrow> execution \<Rightarrow> instant \<Rightarrow> job" where
  "initial_job_row job_id submission_id spec_id source cap execution now =
     (case execution of (version, payload, hash) \<Rightarrow>
     \<lparr>j_id = job_id, j_task_submission_id = submission_id, j_task_spec_id = spec_id,
       j_github_installation_id = rt_github_installation_id source, j_github_repo_id = rt_github_repo_id source,
       j_status = JobQueued, j_source = rt_source source, j_task_kind = rt_task_kind source,
       j_required_capability = capability_as_str cap, j_git_commit_hash = Some (rt_commit source),
       j_execution_payload_version = version, j_execution_payload = payload, j_execution_payload_hash = hash,
       j_claim_token = None, j_claimed_at = None, j_created_at = now, j_task_run_index = 0,
       j_intent = rt_intent source, j_build_target = rt_build_target source,
       j_git_ref_kind = rt_git_ref_kind source, j_git_ref_display = rt_git_ref_display source,
       j_git_committed_at = rt_committed_at source, j_workload_key = rt_workload_key source\<rparr>)"

definition plan_message_event :: "uuid \<Rightarrow> string \<Rightarrow> instant \<Rightarrow> job_event" where
  "plan_message_event job_id message_ts now = \<lparr>je_job_id = job_id, je_event_kind = EventPlanMessageSent,
     je_event_status = StatusSuccess, je_remark = None,
     je_detail = Some (JObject [(''plan_message_ts'', JString message_ts)]), je_occurred_at = now\<rparr>"

definition insert_slack_provenance ::
  "uuid \<Rightarrow> uuid \<Rightarrow> slack_submission_provenance option \<Rightarrow> instant \<Rightarrow> db \<Rightarrow> (db \<Rightarrow> 'a outcome) \<Rightarrow> 'a outcome" where
  "insert_slack_provenance submission_id job_id provenance now d k =
     (case provenance of None \<Rightarrow> k d
      | Some slack \<Rightarrow>
          set_slack (db_slack d @ [\<lparr>sl_task_submission_id = submission_id, sl_team_id = sn_team_id slack,
            sl_channel_id = sn_channel_id slack, sl_request_message_ts = sn_request_message_ts slack,
            sl_reporting_identity = sn_reporting_identity slack,
            sl_report_message_ts = sn_report_message_ts slack\<rparr>]) d (\<lambda>d1.
          case sn_report_message_ts slack of None \<Rightarrow> k d1
          | Some message_ts \<Rightarrow> k (insert_job_event (plan_message_event job_id message_ts now) d1)))"

definition insert_github_provenance ::
  "uuid \<Rightarrow> github_submission_provenance option \<Rightarrow> db \<Rightarrow> (db \<Rightarrow> 'a outcome) \<Rightarrow> 'a outcome" where
  "insert_github_provenance submission_id provenance d k =
     (case provenance of None \<Rightarrow> k d
      | Some github \<Rightarrow>
          set_github (db_github d @ [\<lparr>sg_task_submission_id = submission_id,
            sg_github_webhook_id = Some (gp_webhook_id github),
            sg_triggering_user_id = gp_triggering_user_id github,
            sg_github_pull_request_id = gp_pull_request_id github,
            sg_triggering_comment_id = gp_triggering_comment_id github\<rparr>]) d k)"

text \<open>\<open>INSERT INTO task_submission_idempotency .. ON CONFLICT .. DO NOTHING\<close>: the continuation learns
  whether the row was inserted.\<close>

definition elect ::
  "task_submission_idempotency \<Rightarrow> db \<Rightarrow> (bool \<Rightarrow> db \<Rightarrow> 'a outcome) \<Rightarrow> 'a outcome" where
  "elect row d k =
     (if \<not> idempotency_check row then Error Database
      else if list_ex (\<lambda>i. si_producer_namespace i = si_producer_namespace row
          \<and> si_producer_key i = si_producer_key row) (db_idempotency d) then k False d
      else if list_ex (\<lambda>i. si_task_submission_id i = si_task_submission_id row) (db_idempotency d)
      then Error Database
      else k True (d\<lparr>db_idempotency := db_idempotency d @ [row]\<rparr>))"

record submission_ids =
  nu_submission_id :: uuid
  nu_job_id :: uuid
  nu_spec_ids :: "uuid list"

definition persist_tx ::
  "external_codec \<Rightarrow> prepared_submission \<Rightarrow> resolved_task_source \<Rightarrow> submission_ids \<Rightarrow> instant \<Rightarrow> db \<Rightarrow> db
     \<Rightarrow> (submission_error + submission_receipt) outcome" where
  "persist_tx ext prepared source ids now after d =
     (let command = ps_command prepared; task = cm_task command; submission_id = nu_submission_id ids;
          job_id = nu_job_id ids; variants = plan_variants task; provenance = cm_provenance command;
          detail = pr_queued_event_detail provenance; actor = actor_columns (cm_actor command);
          key = cm_producer_key command
      in insert_submission (submission_row submission_id prepared source) d (\<lambda>d1.
         insert_specs submission_id (measured_runs variants) (zip (nu_spec_ids ids) variants) 0 0 d1 (\<lambda>d2.
         case initial_execution ext task of
           Inl e \<Rightarrow> Rollback (Inl e)
         | Inr execution \<Rightarrow>
         insert_job (initial_job_row job_id submission_id (hd (nu_spec_ids ids)) source
             (required_capability task) execution now) d2 (\<lambda>d3.
         let d4 = insert_job_event \<lparr>je_job_id = job_id, je_event_kind = EventQueued,
               je_event_status = StatusSuccess, je_remark = None, je_detail = Some detail,
               je_occurred_at = now\<rparr> d3
         in set_provenance (db_provenance d4 @ [\<lparr>sv_task_submission_id = submission_id,
             sv_actor_kind = fst actor, sv_actor_identity = snd actor, sv_queued_event_detail = detail\<rparr>]) d4 (\<lambda>d5.
         insert_github_provenance submission_id (pr_github provenance) d5 (\<lambda>d6.
         insert_slack_provenance submission_id job_id (pr_slack provenance) now d6 (\<lambda>d7.
         elect \<lparr>si_producer_namespace = pk_namespace key, si_producer_key = pk_key key,
             si_task_submission_id = submission_id, si_contract_version = Some (ps_contract_version prepared),
             si_request_digest = Some (ps_request_digest prepared), si_initial_job_ids = [job_id]\<rparr> d7 (\<lambda>elected d8.
         if \<not> elected
         then Rollback (case existing_receipt prepared after of
             Inl e \<Rightarrow> Inl e | Inr None \<Rightarrow> Inl Persistence | Inr (Some receipt) \<Rightarrow> Inr receipt)
         else Commit (Inr \<lparr>rc_submission_id = submission_id, rc_disposition = Created,
             rc_initial_job_ids = [job_id]\<rparr>) d8)))))))) "

definition persist_submission ::
  "external_codec \<Rightarrow> prepared_submission \<Rightarrow> submission_ids \<Rightarrow> instant \<Rightarrow> db \<Rightarrow> db \<Rightarrow> db
     \<Rightarrow> (submission_error + submission_receipt) outcome" where
  "persist_submission ext prepared ids now before after d =
     (case existing_receipt prepared before of
        Inl e \<Rightarrow> Rollback (Inl e)
      | Inr (Some receipt) \<Rightarrow> Rollback (Inr receipt)
      | Inr None \<Rightarrow>
          (case first_source (cm_task (ps_command prepared)) of
             None \<Rightarrow> Rollback (Inl (SubmissionInvalid ''a task plan must contain at least one source''))
           | Some source \<Rightarrow> persist_tx ext prepared source ids now after d))"

definition submit ::
  "submission_codec \<Rightarrow> external_codec \<Rightarrow> submission_command \<Rightarrow> submission_ids \<Rightarrow> instant \<Rightarrow> db \<Rightarrow> db \<Rightarrow> db
     \<Rightarrow> (submission_error + submission_receipt) outcome" where
  "submit codec ext command ids now before after d =
     (case prepare codec ext command of
        Inl e \<Rightarrow> Rollback (Inl e)
      | Inr prepared \<Rightarrow> persist_submission ext prepared ids now before after d)"

section \<open>The runs of a submission\<close>

definition latest_event :: "job_event_kind \<Rightarrow> uuid \<Rightarrow> db \<Rightarrow> job_event option" where
  "latest_event kind job_id d =
     latest_by je_occurred_at (filter (\<lambda>e. je_job_id e = job_id \<and> je_event_kind e = kind) (db_job_events d))"

definition copy_event :: "job_event_kind \<Rightarrow> uuid \<Rightarrow> uuid \<Rightarrow> instant \<Rightarrow> db \<Rightarrow> db" where
  "copy_event kind job_id prior_job_id now d =
     (case latest_event kind prior_job_id d of None \<Rightarrow> d
      | Some e \<Rightarrow> insert_job_event (e\<lparr>je_job_id := job_id, je_occurred_at := now\<rparr>) d)"

definition copy_run_provenance_events_in_tx :: "uuid \<Rightarrow> uuid \<Rightarrow> instant \<Rightarrow> db \<Rightarrow> db" where
  "copy_run_provenance_events_in_tx job_id prior_job_id now d =
     copy_event EventPlanMessageSent job_id prior_job_id now (copy_event EventQueued job_id prior_job_id now d)"

text \<open>The row of a further run: the columns that are not copied take their defaults.\<close>

definition next_run_row :: "uuid \<Rightarrow> job \<Rightarrow> int \<Rightarrow> instant \<Rightarrow> job" where
  "next_run_row job_id prior next_index now = prior\<lparr>j_id := job_id, j_status := JobQueued,
     j_required_capability := capability_as_str (kind_required_capability (j_task_kind prior)),
     j_execution_payload_version := None, j_execution_payload := None, j_execution_payload_hash := None,
     j_claim_token := None, j_claimed_at := None, j_created_at := now, j_task_run_index := next_index\<rparr>"

definition insert_next_run_in_tx ::
  "uuid \<Rightarrow> job \<Rightarrow> int \<Rightarrow> instant \<Rightarrow> db \<Rightarrow> job option outcome" where
  "insert_next_run_in_tx job_id prior next_index now d =
     (let row = next_run_row job_id prior next_index now
      in insert_job row d (\<lambda>d1.
         Commit (Some row) (copy_run_provenance_events_in_tx job_id (j_id prior) now d1)))"

definition initial_run_row :: "uuid \<Rightarrow> task_submission \<Rightarrow> task_spec \<Rightarrow> instant \<Rightarrow> job" where
  "initial_run_row job_id submission spec now =
     \<lparr>j_id = job_id, j_task_submission_id = ts_id submission, j_task_spec_id = sp_id spec,
       j_github_installation_id = ts_github_installation_id submission, j_github_repo_id = sp_github_repo_id spec,
       j_status = JobQueued, j_source = ts_source submission, j_task_kind = sp_task_kind spec,
       j_required_capability = capability_as_str (kind_required_capability (sp_task_kind spec)),
       j_git_commit_hash = sp_git_commit_hash spec, j_execution_payload_version = None,
       j_execution_payload = None, j_execution_payload_hash = None, j_claim_token = None,
       j_claimed_at = None, j_created_at = now, j_task_run_index = 0, j_intent = ts_intent submission,
       j_build_target = sp_build_target spec, j_git_ref_kind = sp_git_ref_kind spec,
       j_git_ref_display = sp_git_ref_display spec, j_git_committed_at = sp_git_committed_at spec,
       j_workload_key = sp_workload_key spec\<rparr>"

definition insert_initial_run_for_spec_in_tx ::
  "uuid \<Rightarrow> task_submission \<Rightarrow> task_spec \<Rightarrow> uuid \<Rightarrow> instant \<Rightarrow> db \<Rightarrow> job option outcome" where
  "insert_initial_run_for_spec_in_tx job_id submission spec prior_job_id now d =
     (let row = initial_run_row job_id submission spec now
      in insert_job row d (\<lambda>d1. Commit (Some row) (copy_run_provenance_events_in_tx job_id prior_job_id now d1)))"

definition pending_job :: "uuid \<Rightarrow> job \<Rightarrow> bool" where
  "pending_job submission_id j \<longleftrightarrow> j_task_submission_id j = submission_id
     \<and> j_status j \<in> {JobQueued, JobClaimed, JobRunning}"

definition max_run_index :: "uuid \<Rightarrow> db \<Rightarrow> int" where
  "max_run_index spec_id d =
     (case map j_task_run_index (filter (\<lambda>j. j_task_spec_id j = spec_id) (db_jobs d)) of
        [] \<Rightarrow> 0 | i # is \<Rightarrow> foldr max is i)"

definition next_spec_after :: "uuid \<Rightarrow> int \<Rightarrow> db \<Rightarrow> task_spec option" where
  "next_spec_after submission_id spec_index d =
     first_by sp_spec_index (filter (\<lambda>s. sp_task_submission_id s = submission_id \<and> sp_spec_index s > spec_index)
       (db_specs d))"

definition append_next_benchmark_run ::
  "uuid \<Rightarrow> uuid \<Rightarrow> instant \<Rightarrow> db \<Rightarrow> job option outcome" where
  "append_next_benchmark_run completed_job_id job_id now d =
     (case row_of j_id (db_jobs d) completed_job_id of None \<Rightarrow> Rollback None
      | Some prior \<Rightarrow>
     case row_of sp_id (db_specs d) (j_task_spec_id prior) of None \<Rightarrow> Rollback None
      | Some spec \<Rightarrow>
     let submission_id = j_task_submission_id prior;
         max_index = max_run_index (j_task_spec_id prior) d; next_index = max_index + 1
     in if j_status prior \<noteq> JobCompleted \<or> j_task_kind prior = KindBuildOnly then Rollback None
        else if list_ex (pending_job submission_id) (db_jobs d) then Rollback None
        else if max_index \<noteq> j_task_run_index prior then Rollback None
        else if next_index < sp_requested_run_count spec
        then insert_next_run_in_tx job_id prior next_index now d
        else case next_spec_after submission_id (sp_spec_index spec) d of None \<Rightarrow> Rollback None
          | Some next_spec \<Rightarrow>
              if list_ex (\<lambda>j. j_task_spec_id j = sp_id next_spec) (db_jobs d) then Rollback None
              else case row_of ts_id (db_submissions d) submission_id of None \<Rightarrow> Error Database
                | Some submission \<Rightarrow>
                    insert_initial_run_for_spec_in_tx job_id submission next_spec (j_id prior) now d)"

text \<open>The last run of a submission, in the order of its specifications and their runs.\<close>

definition latest_run :: "uuid \<Rightarrow> db \<Rightarrow> (job \<times> task_spec) option" where
  "latest_run submission_id d =
     latest_by (\<lambda>(j, s). (sp_spec_index s, j_task_run_index j))
       (concat (map (\<lambda>j. map (Pair j) (filter (\<lambda>s. sp_id s = j_task_spec_id j) (db_specs d)))
         (filter (\<lambda>j. j_task_submission_id j = submission_id) (db_jobs d))))"

definition pending_run :: "db \<Rightarrow> job \<Rightarrow> task_spec \<Rightarrow> bool" where
  "pending_run d j s \<longleftrightarrow>
     j_status j = JobCompleted \<and> sp_task_kind s \<noteq> KindBuildOnly
     \<and> \<not> list_ex (pending_job (j_task_submission_id j)) (db_jobs d)
     \<and> (j_task_run_index j + 1 < sp_requested_run_count s
        \<or> list_ex (\<lambda>s'. sp_task_submission_id s' = j_task_submission_id j \<and> sp_spec_index s' > sp_spec_index s
            \<and> \<not> list_ex (\<lambda>j'. j_task_spec_id j' = sp_id s') (db_jobs d)) (db_specs d))"

definition pending_completed_benchmark_runs :: "db \<Rightarrow> uuid list" where
  "pending_completed_benchmark_runs d =
     sort (map (\<lambda>(j, s). j_id j) (filter (\<lambda>(j, s). pending_run d j s)
       (concat (map (\<lambda>sub. case latest_run (ts_id sub) d of None \<Rightarrow> [] | Some p \<Rightarrow> [p]) (db_submissions d)))))"

text \<open>One append per pending submission, each its own transaction; an error ends the loop.\<close>

fun resume_each ::
  "instant \<Rightarrow> (uuid \<times> uuid) list \<Rightarrow> job list \<Rightarrow> db \<Rightarrow> (store_error + job list) \<times> db" where
  "resume_each now [] out d = (Inr out, d)"
| "resume_each now ((completed_job_id, job_id) # pending) out d =
     (case run_tx (append_next_benchmark_run completed_job_id job_id now) d of
        (Inl e, d1) \<Rightarrow> (Inl e, d1)
      | (Inr None, d1) \<Rightarrow> resume_each now pending out d1
      | (Inr (Some job), d1) \<Rightarrow> resume_each now pending (out @ [job]) d1)"

definition resume_pending_benchmark_runs ::
  "uuid list \<Rightarrow> instant \<Rightarrow> db \<Rightarrow> (store_error + job list) \<times> db" where
  "resume_pending_benchmark_runs job_ids now d =
     resume_each now (zip (pending_completed_benchmark_runs d) job_ids) [] d"

section \<open>The Slack message of a submission\<close>

definition record_plan_message_ts :: "uuid \<Rightarrow> string \<Rightarrow> instant \<Rightarrow> db \<Rightarrow> unit outcome" where
  "record_plan_message_ts job_id message_ts now d =
     set_slack (update_where (\<lambda>slack. list_ex (\<lambda>j. j_id j = job_id
         \<and> j_task_submission_id j = sl_task_submission_id slack) (db_jobs d))
       (\<lambda>slack. slack\<lparr>sl_report_message_ts := Some message_ts\<rparr>) (db_slack d)) d (\<lambda>d1.
     if list_ex (\<lambda>j. j_id j = job_id) (db_jobs d1)
     then Commit () (insert_job_event (plan_message_event job_id message_ts now) d1)
     else Error Database)"

definition event_message_ts :: "job_event \<Rightarrow> string option" where
  "event_message_ts e = Option.bind (Option.bind (je_detail e) (json_get ''plan_message_ts'')) json_str"

definition latest_plan_message_ts :: "uuid \<Rightarrow> db \<Rightarrow> string option" where
  "latest_plan_message_ts job_id d =
     (case Option.bind (row_of j_id (db_jobs d) job_id) (\<lambda>job.
         Option.bind (row_of sl_task_submission_id (db_slack d) (j_task_submission_id job)) sl_report_message_ts) of
        Some ts \<Rightarrow> Some ts
      | None \<Rightarrow>
          Option.bind (latest_by je_occurred_at (filter (\<lambda>e. je_job_id e = job_id
              \<and> je_event_kind e = EventPlanMessageSent \<and> event_message_ts e \<noteq> None) (db_job_events d)))
            event_message_ts)"

section \<open>Recovery\<close>

record submission_recovery =
  sr_prior_submission_id :: uuid
  sr_new_submission_id :: uuid
  sr_first_job_id :: uuid
  sr_execution_generation :: int

definition recovery_target_ok :: "uuid option \<Rightarrow> db \<Rightarrow> bool" where
  "recovery_target_ok target d =
     (case target of None \<Rightarrow> True
      | Some worker_id \<Rightarrow> list_ex (\<lambda>r. wr_worker_id r = worker_id \<and> wr_enabled r \<and> \<not> wr_draining r
          \<and> capability_as_str Benchmark \<in> set (wr_allowed_capabilities r)) (db_registry d))"

definition benchmark_submission :: "uuid \<Rightarrow> db \<Rightarrow> bool" where
  "benchmark_submission submission_id d \<longleftrightarrow>
     list_ex (\<lambda>s. sp_task_submission_id s = submission_id) (db_specs d)
     \<and> \<not> list_ex (\<lambda>s. sp_task_submission_id s = submission_id \<and> sp_task_kind s \<noteq> KindBenchmark) (db_specs d)"

definition owed_for :: "uuid \<Rightarrow> db \<Rightarrow> worker_cleanup_obligation \<Rightarrow> bool" where
  "owed_for submission_id d ob \<longleftrightarrow> co_status ob = CleanupPending
     \<and> list_ex (\<lambda>j. j_id j = co_job_id ob \<and> j_task_submission_id j = submission_id) (db_jobs d)"

definition abandon :: "instant \<Rightarrow> worker_cleanup_obligation \<Rightarrow> worker_cleanup_obligation" where
  "abandon now ob = ob\<lparr>co_status := CleanupAbandoned, co_completed_at := Some now\<rparr>"

definition cancel_abandoned ::
  "uuid \<Rightarrow> string \<Rightarrow> instant \<Rightarrow> uuid \<Rightarrow> db \<Rightarrow> (db \<Rightarrow> 'a outcome) \<Rightarrow> 'a outcome" where
  "cancel_abandoned submission_id reason now job_id d k =
     (let running = (\<lambda>j. j_id j = job_id \<and> j_status j = JobRunning)
      in update_jobs running (\<lambda>j. j\<lparr>j_status := JobCancelled\<rparr>) d (\<lambda>d1.
         k (if affected running (db_jobs d) = 1
            then insert_job_event \<lparr>je_job_id = job_id, je_event_kind = EventCancelled,
              je_event_status = StatusSuccess, je_remark = Some reason,
              je_detail = Some (JObject [(''recovery'', JString ''operator_abandoned_remote_cleanup''),
                (''prior_submission_id'', JString (uuid_to_string submission_id))]),
              je_occurred_at = now\<rparr> d1
            else d1)))"

definition recovered_submission ::
  "uuid \<Rightarrow> uuid option \<Rightarrow> task_submission \<Rightarrow> task_submission" where
  "recovered_submission new_id target prior = prior\<lparr>ts_id := new_id, ts_required_worker_id := target,
     ts_assigned_worker_id := None, ts_assigned_measurement_profile := None,
     ts_execution_generation := ts_execution_generation prior + 1,
     ts_fencing_generation := ts_fencing_generation prior + 1,
     ts_artifact_prefix := uuid_to_string new_id,
     ts_recovery_of_submission_id := (case ts_recovery_of_submission_id prior of
       None \<Rightarrow> Some (ts_id prior) | Some original \<Rightarrow> Some original)\<rparr>"

definition recovered_specs :: "uuid \<Rightarrow> uuid \<Rightarrow> uuid list \<Rightarrow> db \<Rightarrow> task_spec list" where
  "recovered_specs submission_id new_id spec_ids d =
     map (\<lambda>(i, s). s\<lparr>sp_id := i, sp_task_submission_id := new_id\<rparr>)
       (zip spec_ids (sort_key sp_spec_index (filter (\<lambda>s. sp_task_submission_id s = submission_id) (db_specs d))))"

definition recovered_steps :: "uuid \<Rightarrow> uuid \<Rightarrow> db \<Rightarrow> task_workflow_step list" where
  "recovered_steps submission_id new_id d =
     map (\<lambda>step. step\<lparr>sw_task_submission_id := new_id,
         sw_task_spec_id := Option.bind (sw_task_spec_id step) (\<lambda>i.
           Option.bind (row_of sp_id (db_specs d) i) (\<lambda>old.
             map_option sp_id (find (\<lambda>s. sp_task_submission_id s = new_id
               \<and> sp_spec_index s = sp_spec_index old) (db_specs d))))\<rparr>)
       (sort_key sw_step_index (filter (\<lambda>s. sw_task_submission_id s = submission_id) (db_steps d)))"

definition first_job_of :: "uuid \<Rightarrow> db \<Rightarrow> job option" where
  "first_job_of submission_id d =
     first_by (\<lambda>j. (j_created_at j, j_id j)) (filter (\<lambda>j. j_task_run_index j = 0
       \<and> list_ex (\<lambda>s. sp_id s = j_task_spec_id j \<and> sp_task_submission_id s = submission_id
            \<and> sp_spec_index s = 0) (db_specs d)) (db_jobs d))"

definition recovered_job :: "uuid \<Rightarrow> uuid \<Rightarrow> uuid \<Rightarrow> instant \<Rightarrow> job \<Rightarrow> job" where
  "recovered_job job_id new_id spec_id now old = old\<lparr>j_id := job_id, j_task_submission_id := new_id,
     j_task_spec_id := spec_id, j_status := JobQueued, j_claim_token := None, j_claimed_at := None,
     j_created_at := now, j_task_run_index := 0\<rparr>"

text \<open>The provenance events in the order \<open>occurred_at DESC, id DESC\<close>, which is also the order in which
  the copies receive their identities.\<close>

definition recovered_events :: "uuid \<Rightarrow> uuid \<Rightarrow> string \<Rightarrow> instant \<Rightarrow> db \<Rightarrow> job_event list" where
  "recovered_events old_job_id job_id reason now d =
     map (\<lambda>e. e\<lparr>je_job_id := job_id, je_occurred_at := now,
         je_remark := (if je_event_kind e = EventQueued then Some reason else je_remark e)\<rparr>)
       (rev (sort_key je_occurred_at (filter (\<lambda>e. je_job_id e = old_job_id
          \<and> je_event_kind e \<in> {EventQueued, EventPlanMessageSent}) (db_job_events d))))"

definition recover_job ::
  "uuid \<Rightarrow> submission_ids \<Rightarrow> string \<Rightarrow> instant \<Rightarrow> int \<Rightarrow> db \<Rightarrow> submission_recovery outcome" where
  "recover_job submission_id ids reason now generation d =
     (let new_id = nu_submission_id ids; job_id = nu_job_id ids
      in case (first_job_of submission_id d,
             find (\<lambda>s. sp_task_submission_id s = new_id \<and> sp_spec_index s = 0) (db_specs d)) of
        (Some old, Some new_spec) \<Rightarrow>
          insert_job (recovered_job job_id new_id (sp_id new_spec) now old) d (\<lambda>d1.
          let d2 = d1\<lparr>db_job_events := db_job_events d1 @ recovered_events (j_id old) job_id reason now d1\<rparr>
          in set_provenance (db_provenance d2 @ map (\<lambda>p. p\<lparr>sv_task_submission_id := new_id\<rparr>)
               (filter (\<lambda>p. sv_task_submission_id p = submission_id) (db_provenance d2))) d2 (\<lambda>d3.
          set_github (db_github d3 @ map (\<lambda>g. g\<lparr>sg_task_submission_id := new_id, sg_github_webhook_id := None\<rparr>)
               (filter (\<lambda>g. sg_task_submission_id g = submission_id) (db_github d3))) d3 (\<lambda>d4.
          set_slack (update_where (\<lambda>s. sl_task_submission_id s = submission_id)
               (\<lambda>s. s\<lparr>sl_task_submission_id := new_id\<rparr>) (db_slack d4)) d4
            (Commit \<lparr>sr_prior_submission_id = submission_id, sr_new_submission_id = new_id,
               sr_first_job_id = job_id, sr_execution_generation = generation\<rparr>))))
      | _ \<Rightarrow> Error Database)"

definition recover_submission ::
  "uuid \<Rightarrow> uuid option \<Rightarrow> string \<Rightarrow> submission_ids \<Rightarrow> instant \<Rightarrow> db \<Rightarrow> submission_recovery outcome" where
  "recover_submission submission_id target reason ids now d =
     (if trim_is_empty reason \<or> length reason > 1024
      then Error (Config ''submission recovery requires a concise operator reason'')
      else if \<not> recovery_target_ok target d
      then Error (Config ''recovery target is not an enabled, non-draining benchmark worker'')
      else case row_of ts_id (db_submissions d) submission_id of
        None \<Rightarrow> Error (Config ''submission does not exist or is not a benchmark comparison generation'')
      | Some prior \<Rightarrow>
          if \<not> benchmark_submission submission_id d
          then Error (Config ''submission does not exist or is not a benchmark comparison generation'')
          else if list_ex (\<lambda>a. wa_task_submission_id a = submission_id \<and> active (wa_status a)) (db_attempts d)
          then Error (Config ''benchmark submission still has active work'')
          else let abandoned = filter (owed_for submission_id d) (db_obligations d);
                   d1 = update_obligations (owed_for submission_id d) (abandon now) d
               in tx_for (cancel_abandoned submission_id reason now) (map co_job_id abandoned) d1 (\<lambda>d2.
                  insert_submission (recovered_submission (nu_submission_id ids) target prior) d2 (\<lambda>d3.
                  let new_specs = recovered_specs submission_id (nu_submission_id ids) (nu_spec_ids ids) d3
                  in if list_all (\<lambda>s. known_repo d3 (sp_github_repo_id s)) new_specs
                     then set_specs (db_specs d3 @ new_specs) d3 (\<lambda>d4.
                       set_steps (db_steps d4 @ recovered_steps submission_id (nu_submission_id ids) d4) d4 (\<lambda>d5.
                       recover_job submission_id ids reason now (ts_execution_generation prior + 1) d5))
                     else Error Database)))"

section \<open>The operations implement the abstract machine\<close>

lemma ensures_insert [tx_intro]:
  "ensures Q (k (d\<lparr>db_steps := t1\<rparr>)) \<Longrightarrow> ensures Q (set_steps t1 d k)"
  "ensures Q (k (d\<lparr>db_provenance := t2\<rparr>)) \<Longrightarrow> ensures Q (set_provenance t2 d k)"
  "ensures Q (k (d\<lparr>db_github := t3\<rparr>)) \<Longrightarrow> ensures Q (set_github t3 d k)"
  "ensures Q (k (d\<lparr>db_slack := t4\<rparr>)) \<Longrightarrow> ensures Q (set_slack t4 d k)"
  "(submission_table_ok (db_submissions d @ [r1]) \<Longrightarrow> ensures Q (k (d\<lparr>db_submissions := db_submissions d @ [r1]\<rparr>)))
     \<Longrightarrow> ensures Q (insert_submission r1 d k)"
  "(spec_table_ok (db_specs d @ [r2]) \<Longrightarrow> ensures Q (k (d\<lparr>db_specs := db_specs d @ [r2]\<rparr>)))
     \<Longrightarrow> ensures Q (insert_spec r2 d k)"
  "(job_table_ok (db_jobs d @ [r3]) \<Longrightarrow> ensures Q (k (d\<lparr>db_jobs := db_jobs d @ [r3]\<rparr>)))
     \<Longrightarrow> ensures Q (insert_job r3 d k)"
  "ensures Q (k2 False d) \<Longrightarrow> ensures Q (k2 True (d\<lparr>db_idempotency := db_idempotency d @ [r4]\<rparr>))
     \<Longrightarrow> ensures Q (elect r4 d k2)"
  by (auto simp: ensures_def set_steps_def set_provenance_def set_github_def set_slack_def
      insert_submission_def insert_spec_def insert_job_def elect_def)

text \<open>A transaction step that the abstract machine does not see.\<close>

definition quiet :: "db \<Rightarrow> db \<Rightarrow> bool" where
  "quiet d d' \<longleftrightarrow> schema_ok d' \<and> core_of d' = core_of d"

lemma quiet_frame:
  "schema_ok d \<Longrightarrow> quiet d d"
  "quiet d d' \<Longrightarrow> spec_table_ok t1 \<Longrightarrow> quiet d (d'\<lparr>db_specs := t1\<rparr>)"
  "quiet d d' \<Longrightarrow> quiet d (d'\<lparr>db_steps := t2\<rparr>)"
  "quiet d d' \<Longrightarrow> quiet d (d'\<lparr>db_provenance := t3\<rparr>)"
  "quiet d d' \<Longrightarrow> quiet d (d'\<lparr>db_github := t4\<rparr>)"
  "quiet d d' \<Longrightarrow> quiet d (d'\<lparr>db_slack := t5\<rparr>)"
  "quiet d d' \<Longrightarrow> quiet d (d'\<lparr>db_idempotency := t6\<rparr>)"
  "quiet d d' \<Longrightarrow> quiet d (d'\<lparr>db_job_events := t7\<rparr>)"
  "quiet d d' \<Longrightarrow> quiet d (insert_job_event e d')"
  by (simp_all add: quiet_def schema_intros)

lemma quiet_refines: "refines d d' \<Longrightarrow> quiet d' d'' \<Longrightarrow> refines d d''"
  by (simp add: refines_def quiet_def)

lemma refines_insert_submission:
  assumes "schema_ok d" "submission_table_ok (db_submissions d @ [r])"
  shows "refines d (d\<lparr>db_submissions := db_submissions d @ [r]\<rparr>)"
proof (rule refines_step)
  have "row_of ts_id (db_submissions d) (ts_id r) = None"
    using assms(2) by (auto simp: submission_table_ok_def row_of_None)
  then have "core_of (d\<lparr>db_submissions := db_submissions d @ [r]\<rparr>) = set_fence (ts_id r) (ts_fencing_generation r) (core_of d)"
    by (intro core_eqI) (simp_all add: view_insert)
  moreover have "0 \<le> ts_fencing_generation r"
    using assms(2) by (simp add: submission_table_ok_def submission_check_def)
  ultimately show "core_step (core_of d) (core_of (d\<lparr>db_submissions := db_submissions d @ [r]\<rparr>))"
    using \<open>row_of ts_id (db_submissions d) (ts_id r) = None\<close>
    by (simp add: core_step.add_submission view_None)
qed (simp add: assms schema_intros)

lemma refines_insert_job:
  assumes "schema_ok d" "job_table_ok (db_jobs d @ [r])" "j_status r = JobQueued"
    "row_of ts_id (db_submissions d) (j_task_submission_id r) \<noteq> None"
  shows "refines d (d\<lparr>db_jobs := db_jobs d @ [r]\<rparr>)"
proof (rule refines_step)
  have new: "row_of j_id (db_jobs d) (j_id r) = None"
    using assms(2) by (auto simp: job_table_ok_def row_of_None)
  then have "core_of (d\<lparr>db_jobs := db_jobs d @ [r]\<rparr>) = set_job (j_id r) (abs_job r) (core_of d)"
    by (intro core_eqI) (simp_all add: view_insert)
  moreover have "core_step (core_of d) \<dots>"
    using new assms(3,4) by (intro core_step.add_job) (simp_all add: view_None abs_job_def)
  ultimately show "core_step (core_of d) (core_of (d\<lparr>db_jobs := db_jobs d @ [r]\<rparr>))" by simp
qed (simp add: assms schema_intros)

text \<open>What stays of a submission through the quiet steps.\<close>

lemma quiet_submission:
  "quiet d d' \<Longrightarrow> row_of ts_id (db_submissions d') i = None \<longleftrightarrow> row_of ts_id (db_submissions d) i = None"
  by (simp only: quiet_def view_None [of ts_id ts_fencing_generation, symmetric]) (metis core_of_sel(4))

lemma ensures_insert_steps:
  assumes "quiet d0 d" "\<And>d'. quiet d0 d' \<Longrightarrow> ensures Q (k d')"
  shows "ensures Q (insert_steps i s n kinds d k)"
  using assms(1)
  by (induction kinds arbitrary: n d) (auto simp: insert_step_def intro!: tx_intro assms(2) quiet_frame)

lemma ensures_insert_specs:
  assumes "quiet d0 d" "\<And>d'. quiet d0 d' \<Longrightarrow> ensures Q (k d')"
  shows "ensures Q (insert_specs i runs vs n step d k)"
  using assms(1)
proof (induction vs arbitrary: n step d)
  case (Cons v vs)
  obtain spec_id variant where "v = (spec_id, variant)" by (cases v)
  then show ?case
    by (simp only: insert_specs.simps)
      (intro tx_intro ensures_insert_steps [of d0] Cons.IH quiet_frame Cons.prems)
qed (simp add: assms(2))

lemma ensures_provenance:
  assumes "quiet d0 d" "\<And>d'. quiet d0 d' \<Longrightarrow> ensures Q (k d')"
  shows "ensures Q (insert_github_provenance s g d k)" "ensures Q (insert_slack_provenance s j p now d k)"
proof -
  show "ensures Q (insert_github_provenance s g d k)"
    using assms by (auto simp: insert_github_provenance_def split: option.split intro!: tx_intro intro: quiet_frame)
  show "ensures Q (insert_slack_provenance s j p now d k)"
  proof (cases p)
    case (Some slack)
    with assms show ?thesis
      by (cases "sn_report_message_ts slack")
        (auto simp: insert_slack_provenance_def intro!: tx_intro assms(2) intro: quiet_frame)
  qed (simp add: insert_slack_provenance_def assms)
qed

lemma ensures_insert_job:
  assumes "schema_ok d" "j_status r = JobQueued" "row_of ts_id (db_submissions d) (j_task_submission_id r) \<noteq> None"
    "\<And>d'. refines d d' \<Longrightarrow> quiet d' d' \<Longrightarrow> ensures Q (k d')"
  shows "ensures Q (insert_job r d k)"
  by (intro tx_intro assms(4) refines_insert_job assms(1-3) quiet_frame(1))
    (simp_all add: assms(1) schema_intros)

lemma ensures_case_sum [tx_intro]:
  "(\<And>e. x = Inl e \<Longrightarrow> ensures Q (f e)) \<Longrightarrow> (\<And>a. x = Inr a \<Longrightarrow> ensures Q (g a)) \<Longrightarrow> ensures Q (case_sum f g x)"
  by (cases x) simp_all

lemma ensures_insert_submission:
  assumes "schema_ok d" "\<And>d'. refines d d' \<Longrightarrow> d' = d\<lparr>db_submissions := db_submissions d @ [r]\<rparr> \<Longrightarrow> ensures Q (k d')"
  shows "ensures Q (insert_submission r d k)"
  by (intro tx_intro assms(2) refines_insert_submission assms(1)) simp_all

lemma persist_tx_refines:
  assumes "schema_ok d"
  shows "ensures (refines d) (persist_tx ext prepared source ids now after d)"
  unfolding persist_tx_def Let_def
proof (rule ensures_insert_submission [OF assms], goal_cases)
  case (1 d1)
  let ?row = "submission_row (nu_submission_id ids) prepared source"
  have queued: "j_status (initial_job_row j s i src c x now) = JobQueued"
    "j_task_submission_id (initial_job_row j s i src c x now) = s" for j s i src c x now
    by (simp_all add: initial_job_row_def split: prod.split)
  have "ts_id ?row = nu_submission_id ids" by (simp add: submission_row_def Let_def)
  then have present: "row_of ts_id (db_submissions d2) (nu_submission_id ids) \<noteq> None" if "quiet d1 d2" for d2
    by (subst quiet_submission [OF that]) (auto simp: row_of_None 1(2))
  have all: "refines d d4" if "quiet d1 d2" "refines d2 d3" "quiet d3 d4" for d2 d3 d4
    using that 1(1) by (meson quiet_refines refines_trans)
  have "schema_ok d1" using 1(1) by (simp add: refines_def)
  then show ?case
  proof (intro ensures_insert_specs [of d1] quiet_frame(1) ensures_case_sum ensures_insert_job, goal_cases)
    case (3 d2 x) then show ?case by (simp add: quiet_def)
  next
    case (5 d2 x) then show ?case using present by (simp add: queued)
  next
    case (6 d2 x d3)
    note q = all [OF \<open>quiet d1 d2\<close> \<open>refines d2 d3\<close>]
    show ?case
      by (intro tx_intro ensures_provenance [of d3] quiet_frame \<open>quiet d3 d3\<close> q)
  qed (simp_all add: queued tx_intro)
qed

lemma persist_submission_refines:
  assumes "schema_ok d"
  shows "ensures (refines d) (persist_submission ext prepared ids now before after d)"
  unfolding persist_submission_def
  by (auto split: sum.split option.split intro!: tx_intro persist_tx_refines assms)

lemma submit_refines:
  assumes "schema_ok d"
  shows "ensures (refines d) (submit codec ext command ids now before after d)"
  unfolding submit_def by (intro tx_intro persist_submission_refines assms)

lemma quiet_copies: "quiet d d' \<Longrightarrow> quiet d (copy_run_provenance_events_in_tx j i now d')"
  by (auto simp: copy_run_provenance_events_in_tx_def copy_event_def split: option.split intro!: quiet_frame)

lemma wf_owner:
  assumes "well_formed d" "row_of j_id (db_jobs d) i = Some j"
  shows "row_of ts_id (db_submissions d) (j_task_submission_id j) \<noteq> None"
  using coherentD(7) [OF wfD(2) [OF assms(1)]] assms(2)
  by (force simp: jobs_owned_def job_owned_def view_def abs_job_def)

lemma append_next_benchmark_run_refines:
  assumes "well_formed d"
  shows "ensures (refines d) (append_next_benchmark_run i j now d)"
proof -
  note sch = wfD(1) [OF assms]
  have "ensures (refines d) (insert_next_run_in_tx j prior n now d)"
    if "row_of j_id (db_jobs d) i = Some prior" for prior n
    unfolding insert_next_run_in_tx_def Let_def
    by (intro ensures_insert_job sch tx_intro)
      (use wf_owner [OF assms that] in \<open>auto simp: next_run_row_def intro: quiet_refines quiet_copies\<close>)
  moreover have "ensures (refines d) (insert_initial_run_for_spec_in_tx j s spec p now d)"
    if "row_of ts_id (db_submissions d) k = Some s" for s spec p k
    unfolding insert_initial_run_for_spec_in_tx_def Let_def
    by (intro ensures_insert_job sch tx_intro)
      (use that row_of_Some [OF that] in \<open>auto simp: initial_run_row_def intro: quiet_refines quiet_copies\<close>)
  ultimately show ?thesis
    unfolding append_next_benchmark_run_def Let_def
    by (auto split: option.split intro!: tx_intro)
qed

lemma record_plan_message_ts_refines:
  assumes "schema_ok d"
  shows "ensures (refines d) (record_plan_message_ts i ts now d)"
  unfolding record_plan_message_ts_def
  by (intro tx_intro quiet_refines [OF refines_refl [OF assms]] quiet_frame assms)

text \<open>The abandoned obligations settle, and their running jobs are cancelled.\<close>

definition cancelled_jobs :: "uuid set \<Rightarrow> core \<Rightarrow> core" where
  "cancelled_jobs K c = c\<lparr>c_jobs := (\<lambda>j. if j \<in> K then map_option (jc_status_update (\<lambda>_. JobCancelled)) (c_jobs c j)
     else c_jobs c j)\<rparr>"

definition settled_obligations :: "int set \<Rightarrow> core \<Rightarrow> core" where
  "settled_obligations S c = c\<lparr>c_obligations := (\<lambda>i. if i \<in> S
     then map_option (ob_pending_update (\<lambda>_. False)) (c_obligations c i) else c_obligations c i)\<rparr>"

definition abandoned_core :: "int set \<Rightarrow> core \<Rightarrow> core" where
  "abandoned_core S c = cancelled_jobs {ob_job obl |obl. \<exists>i \<in> S. c_obligations c i = Some obl} (settled_obligations S c)"

lemma abandoned_sel [simp]:
  "c_jobs (cancelled_jobs K c) j = (if j \<in> K then map_option (jc_status_update (\<lambda>_. JobCancelled)) (c_jobs c j) else c_jobs c j)"
  "c_attempts (cancelled_jobs K c) = c_attempts c"
  "c_obligations (cancelled_jobs K c) = c_obligations c"
  "c_fences (cancelled_jobs K c) = c_fences c"
  "c_jobs (settled_obligations S c) = c_jobs c"
  "c_attempts (settled_obligations S c) = c_attempts c"
  "c_obligations (settled_obligations S c) i = (if i \<in> S
     then map_option (ob_pending_update (\<lambda>_. False)) (c_obligations c i) else c_obligations c i)"
  "c_fences (settled_obligations S c) = c_fences c"
  by (simp_all add: cancelled_jobs_def settled_obligations_def)

lemma abandoned_core_insert:
  assumes "i \<notin> S" "c_obligations c i = Some obl" "c_jobs c (ob_job obl) = Some job"
  shows "abandoned_core (insert i S) c = set_job (ob_job obl) (job\<lparr>jc_status := JobCancelled\<rparr>)
    (set_obligation i (obl\<lparr>ob_pending := False\<rparr>) (abandoned_core S c))"
  using assms by (intro core_eqI) (auto simp: abandoned_core_def fun_eq_iff)

lemma abandoned_core_steps:
  assumes "finite S" "\<And>i. i \<in> S \<Longrightarrow> \<exists>obl job. c_obligations c i = Some obl \<and> ob_pending obl \<and> c_jobs c (ob_job obl) = Some job"
  shows "core_step\<^sup>*\<^sup>* c (abandoned_core S c)"
  using assms
proof (induction S)
  case empty
  have "abandoned_core {} c = c"
    by (intro core_eqI) (simp_all add: abandoned_core_def fun_eq_iff)
  then show ?case by simp
next
  case (insert i S)
  obtain obl job where a: "c_obligations c i = Some obl" "ob_pending obl" "c_jobs c (ob_job obl) = Some job"
    using insert.prems [of i] by auto
  obtain job' where job': "c_jobs (abandoned_core S c) (ob_job obl) = Some job'"
    "job'\<lparr>jc_status := JobCancelled\<rparr> = job\<lparr>jc_status := JobCancelled\<rparr>"
    using a(3) that by (cases "ob_job obl \<in> {ob_job obl |obl. \<exists>i \<in> S. c_obligations c i = Some obl}")
      (simp_all only: abandoned_core_def abandoned_sel if_True if_False, simp_all)
  have "c_obligations (abandoned_core S c) i = Some obl"
    using a(1) insert.hyps(2) by (simp add: abandoned_core_def)
  then have "core_step (abandoned_core S c) (abandoned_core (insert i S) c)"
    using core_step.settle_cancelled [of "abandoned_core S c" i obl job'] a(2) job'
      abandoned_core_insert [OF insert.hyps(2) a(1,3)] by simp
  moreover have "core_step\<^sup>*\<^sup>* c (abandoned_core S c)" using insert by blast
  ultimately show ?case by simp
qed

lemma ensures_cancel_abandoned:
  assumes "schema_ok d" "core_of d = cancelled_jobs K c"
    "job_id \<in> K \<or> (\<exists>job. c_jobs c job_id = Some job \<and> jc_status job = JobRunning)"
    "\<And>d'. schema_ok d' \<Longrightarrow> core_of d' = cancelled_jobs (insert job_id K) c \<Longrightarrow> ensures Q (k d')"
  shows "ensures Q (cancel_abandoned s reason now job_id d k)"
proof -
  let ?P = "\<lambda>j. j_id j = job_id \<and> j_status j = JobRunning"
  let ?d' = "d\<lparr>db_jobs := update_where ?P (\<lambda>j. j\<lparr>j_status := JobCancelled\<rparr>) (db_jobs d)\<rparr>"
  have "c_jobs (core_of ?d') i = map_option (\<lambda>job. if i = job_id \<and> jc_status job = JobRunning
      then job\<lparr>jc_status := JobCancelled\<rparr> else job) (c_jobs (core_of d) i)" for i
    by (cases "row_of j_id (db_jobs d) i") (auto simp: view_def row_of_update_where abs_job_def dest: row_of_Some)
  then have "c_jobs (core_of ?d') i = c_jobs (cancelled_jobs (insert job_id K) c) i" for i
    unfolding assms(2) using assms(3) by (cases "c_jobs c i") auto
  moreover have "c_attempts (core_of ?d') = c_attempts (core_of d)" "c_obligations (core_of ?d') = c_obligations (core_of d)" "c_fences (core_of ?d') = c_fences (core_of d)"
    by simp_all
  ultimately have "core_of ?d' = cancelled_jobs (insert job_id K) c"
    unfolding assms(2) by (intro core_eqI) (auto simp del: core_of_sel)
  then have "ensures Q (k (if b then insert_job_event e ?d' else ?d'))"
    if "job_table_ok (update_where ?P (\<lambda>j. j\<lparr>j_status := JobCancelled\<rparr>) (db_jobs d))" for b e
    using that assms(1) by (cases b) (auto intro!: assms(4) schema_intros)
  then show ?thesis
    unfolding cancel_abandoned_def Let_def by (intro tx_intro) simp
qed

lemma ensures_cancel_all:
  assumes "schema_ok d" "core_of d = cancelled_jobs K c"
    "\<And>i. i \<in> set xs \<Longrightarrow> i \<in> K \<or> (\<exists>job. c_jobs c i = Some job \<and> jc_status job = JobRunning)"
    "\<And>d'. schema_ok d' \<Longrightarrow> core_of d' = cancelled_jobs (K \<union> set xs) c \<Longrightarrow> ensures Q (k d')"
  shows "ensures Q (tx_for (cancel_abandoned s reason now) xs d k)"
  using assms
proof (induction xs arbitrary: d K)
  case (Cons x xs)
  show ?case
    unfolding tx_for.simps
    by (rule ensures_cancel_abandoned [OF Cons.prems(1,2)]) (use Cons.prems(3,4) in \<open>auto intro!: Cons.IH\<close>)
qed simp

lemma core_of_settled:
  assumes "distinct (map co_id (db_obligations d))" "\<And>ob. P ob \<Longrightarrow> co_status ob = CleanupPending"
  shows "core_of (update_obligations P (abandon now) d)
    = settled_obligations (co_id ` set (filter P (db_obligations d))) (core_of d)"
proof (rule core_eqI)
  let ?S = "(co_id ` set (filter P (db_obligations d)))"
  show "c_obligations (core_of (update_obligations P (abandon now) d)) = c_obligations (settled_obligations ?S (core_of d))"
  proof
    fix i
    show "c_obligations (core_of (update_obligations P (abandon now) d)) i
        = c_obligations (settled_obligations ?S (core_of d)) i"
    proof (cases "row_of co_id (db_obligations d) i")
      case (Some ob)
      then have "i \<in> ?S \<longleftrightarrow> P ob"
        using row_of_iff [OF assms(1)] by (auto, metis option.inject)
      with Some show ?thesis
        by (simp only: abandoned_sel) (simp add: update_obligations_def view_def row_of_update_where abandon_def abs_obligation_def)
    qed (simp add: update_obligations_def view_def row_of_update_where abandon_def)
  qed
qed (simp_all add: update_obligations_def)

lemma recover_job_refines:
  assumes "schema_ok d" "row_of ts_id (db_submissions d) (nu_submission_id ids) \<noteq> None"
  shows "ensures (refines d) (recover_job s ids reason now g d)"
  unfolding recover_job_def Let_def
  by (intro tx_intro ensures_insert_job assms)
    (auto simp: recovered_job_def assms split: option.split intro!: quiet_frame elim: quiet_refines)

lemma recovered_refines:
  assumes "schema_ok d"
  shows "ensures (refines d) (insert_submission (recovered_submission (nu_submission_id ids) target prior) d (\<lambda>d1.
    if list_all (\<lambda>s. known_repo d1 (sp_github_repo_id s)) (specs d1)
    then set_specs (db_specs d1 @ specs d1) d1 (\<lambda>d2.
      set_steps (db_steps d2 @ steps d2) d2 (recover_job s ids reason now g))
    else Error Database))"
proof (rule ensures_insert_submission [OF assms], intro tx_intro)
  fix d1
  let ?row = "recovered_submission (nu_submission_id ids) target prior"
  let ?d2 = "d1\<lparr>db_specs := db_specs d1 @ specs d1\<rparr>"
  let ?d3 = "?d2\<lparr>db_steps := db_steps ?d2 @ steps ?d2\<rparr>"
  assume first: "refines d d1" and d1: "d1 = d\<lparr>db_submissions := db_submissions d @ [?row]\<rparr>"
    and ok: "spec_table_ok (db_specs d1 @ specs d1)"
  have q: "quiet d1 ?d3" using first ok by (intro quiet_frame) (simp_all add: refines_def)
  then have "ensures (refines ?d3) (recover_job s ids reason now g ?d3)"
    by (intro recover_job_refines) (auto simp: quiet_def row_of_None d1 recovered_submission_def)
  then show "ensures (refines d) (recover_job s ids reason now g ?d3)"
    by (rule ensures_mono) (rule refines_trans [OF quiet_refines [OF first q]])
qed

lemma settled_jobs:
  assumes "\<And>ob. ob \<in> A \<Longrightarrow> g (co_id ob) = Some (abs_obligation ob)"
  shows "{ob_job obl |obl. \<exists>i \<in> co_id ` A. g i = Some obl} = co_job_id ` A"
proof -
  have job: "co_job_id ob = ob_job (abs_obligation ob)" for ob by (simp add: abs_obligation_def)
  show ?thesis unfolding job using assms by fastforce
qed

lemma recover_submission_refines:
  assumes "well_formed d"
  shows "ensures (refines d) (recover_submission s target reason ids now d)"
proof -
  note sch = wfD(1) [OF assms]
  let ?P = "owed_for s d"
  let ?S = "co_id ` set (filter ?P (db_obligations d))"
  let ?d1 = "update_obligations ?P (abandon now) d"
  have ob: "\<exists>j. row_of j_id (db_jobs d) (co_job_id ob) = Some j \<and> j_status j = JobRunning"
    "row_of co_id (db_obligations d) (co_id ob) = Some ob" if "ob \<in> set (db_obligations d)" "?P ob" for ob
  proof -
    show row: "row_of co_id (db_obligations d) (co_id ob) = Some ob"
      using that(1) schema_distinct(5) [OF sch] by (simp add: row_of_in_set)
    show "\<exists>j. row_of j_id (db_jobs d) (co_job_id ob) = Some j \<and> j_status j = JobRunning"
      using wf_obligation [OF assms row] that(2) by (metis owed_for_def)
  qed
  have core1: "core_of ?d1 = settled_obligations ?S (core_of d)"
    by (rule core_of_settled [OF schema_distinct(5) [OF sch]]) (simp add: owed_for_def)
  have steps: "core_step\<^sup>*\<^sup>* (core_of d) (abandoned_core ?S (core_of d))"
    by (rule abandoned_core_steps) (use ob in \<open>fastforce simp: view_def owed_for_def abs_obligation_def\<close>)+
  have "c_obligations (core_of d) (co_id ob) = Some (abs_obligation ob)" if "ob \<in> set (filter ?P (db_obligations d))" for ob
    using ob(2) [of ob] that by (simp add: view_def)
  from settled_jobs [OF this] have jobs: "abandoned_core ?S (core_of d)
      = cancelled_jobs (co_job_id ` set (filter ?P (db_obligations d))) (core_of ?d1)"
    by (simp only: abandoned_core_def core1)
  have running: "\<exists>job. c_jobs (core_of ?d1) i = Some job \<and> jc_status job = JobRunning"
    if "i \<in> set (map co_job_id (filter ?P (db_obligations d)))" for i
    using that ob(1) by (fastforce simp: core1 view_def abs_job_def simp del: core_of_sel(3))
  have main: "ensures (refines d) (tx_for (cancel_abandoned s reason now) (map co_job_id (filter ?P (db_obligations d))) ?d1 k)"
    if "\<And>d2. schema_ok d2 \<Longrightarrow> ensures (refines d2) (k d2)" for k
  proof (rule ensures_cancel_all [where K = "{}" and c = "core_of ?d1"])
    fix d2
    assume d2: "schema_ok d2" "core_of d2
      = cancelled_jobs ({} \<union> set (map co_job_id (filter ?P (db_obligations d)))) (core_of ?d1)"
    then have "refines d d2" using steps by (simp only: refines_def jobs set_map Un_empty_left)
    then show "ensures (refines d) (k d2)"
      by (rule ensures_mono [OF that [OF d2(1)] refines_trans])
  qed (use running in \<open>auto simp: cancelled_jobs_def abandon_def intro!: schema_intros sch simp del: core_of_sel\<close>)
  show ?thesis
    unfolding recover_submission_def Let_def
    by (intro ensures_branch ensures_end main recovered_refines)
qed

lemma resume_each_refines:
  assumes "well_formed d"
  shows "refines d (snd (resume_each now pending out d))"
  using assms
proof (induction pending arbitrary: out d)
  case Nil
  then show ?case by (simp add: refines_refl wfD(1))
next
  case (Cons p pending)
  obtain i j where p: "p = (i, j)" by (cases p)
  obtain r d1 where step: "run_tx (append_next_benchmark_run i j now) d = (r, d1)" by fastforce
  have first: "refines d d1"
    using ensures_run_tx [of "refines d" "append_next_benchmark_run i j now" d]
      append_next_benchmark_run_refines [OF Cons.prems] refines_refl [OF wfD(1) [OF Cons.prems]] step
    by simp
  note rest = refines_trans [OF first Cons.IH [OF refines_wf [OF Cons.prems first]]]
  show ?case
    using rest first by (simp add: p step split: sum.split option.split)
qed

lemma resume_pending_benchmark_runs_refines:
  "well_formed d \<Longrightarrow> refines d (snd (resume_pending_benchmark_runs ids now d))"
  by (simp add: resume_pending_benchmark_runs_def resume_each_refines)

end
