(* ===== verification/Submission_Promises.thy ===== *)
theory Submission_Promises
  imports Submission_Store Fleet_Sample
begin

text \<open>
  What the operations of \<open>Submission_Store\<close> promise to their callers: a submission stores its whole plan or
  nothing and may be repeated, a recovery supersedes the submission it replaces, and every run that the
  resume scan reports is appended.
\<close>

section \<open>What a submission leaves behind\<close>

definition numbered_from :: "int \<Rightarrow> nat \<Rightarrow> int list" where
  "numbered_from n len = map (\<lambda>i. n + int i) [0..<len]"

lemma numbered_from_simps:
  "numbered_from n 0 = []" "numbered_from n (Suc len) = n # numbered_from (n + 1) len"
  by (simp_all add: numbered_from_def map_upt_Suc del: upt_Suc)

lemma numbered_from_append:
  "numbered_from n (len + len') = numbered_from n len @ numbered_from (n + int len) len'"
  by (induction len arbitrary: n) (simp_all add: numbered_from_simps algebra_simps)

definition adds_steps :: "uuid \<Rightarrow> int \<Rightarrow> (submission_step_kind \<times> uuid option) list \<Rightarrow> task_workflow_step list \<Rightarrow> bool" where
  "adds_steps submission_id n kinds steps \<longleftrightarrow> map sw_step_index steps = numbered_from n (length steps)
     \<and> map (\<lambda>s. (sw_step_kind s, sw_task_spec_id s)) steps = kinds
     \<and> list_all (\<lambda>s. sw_task_submission_id s = submission_id) steps"

lemma adds_steps_append:
  assumes "adds_steps submission_id n ks xs" "adds_steps submission_id (n + int (length ks)) ks' ys"
  shows "adds_steps submission_id n (ks @ ks') (xs @ ys)"
proof -
  have "length xs = length ks" using assms(1) by (auto simp: adds_steps_def dest: map_eq_imp_length_eq)
  with assms show ?thesis by (simp add: adds_steps_def numbered_from_append)
qed

lemma insert_steps_commit:
  assumes "insert_steps submission_id spec_id n kinds d k = Commit out d'"
  shows "\<exists>steps. adds_steps submission_id n (map (\<lambda>kind. (kind, Some spec_id)) kinds) steps
    \<and> k (d\<lparr>db_steps := db_steps d @ steps\<rparr>) = Commit out d'"
  using assms
proof (induction kinds arbitrary: n d)
  case Nil
  then show ?case by (intro exI [of _ "[]"]) (simp add: adds_steps_def numbered_from_simps)
next
  case (Cons kind kinds)
  let ?row = "\<lparr>sw_task_submission_id = submission_id, sw_step_index = n, sw_step_kind = kind, sw_task_spec_id = Some spec_id\<rparr>"
  have "insert_steps submission_id spec_id (n + 1) kinds (d\<lparr>db_steps := db_steps d @ [?row]\<rparr>) k = Commit out d'"
    using Cons.prems by (auto simp: insert_step_def set_steps_def split: if_splits)
  from Cons.IH [OF this] obtain steps where
    "adds_steps submission_id (n + 1) (map (\<lambda>kind. (kind, Some spec_id)) kinds) steps"
    "k (d\<lparr>db_steps := db_steps d @ ?row # steps\<rparr>) = Commit out d'" by auto
  then show ?case by (intro exI [of _ "?row # steps"]) (simp add: adds_steps_def numbered_from_simps)
qed

definition adds_specs :: "uuid \<Rightarrow> int \<Rightarrow> uuid list \<Rightarrow> task_spec list \<Rightarrow> bool" where
  "adds_specs submission_id n spec_ids specs \<longleftrightarrow> map sp_spec_index specs = numbered_from n (length specs)
     \<and> map sp_id specs = spec_ids \<and> list_all (\<lambda>s. sp_task_submission_id s = submission_id) specs"

definition planned_steps :: "int \<Rightarrow> (uuid \<times> variant) list \<Rightarrow> (submission_step_kind \<times> uuid option) list" where
  "planned_steps runs variants = concat (map (\<lambda>(i, v). map (\<lambda>kind. (kind, Some i)) (spec_steps runs v)) variants)"

lemma insert_specs_commit:
  assumes "insert_specs submission_id runs variants index n d k = Commit out d'"
  shows "\<exists>specs steps. adds_specs submission_id index (map fst variants) specs
    \<and> adds_steps submission_id n (planned_steps runs variants) steps
    \<and> k (d\<lparr>db_specs := db_specs d @ specs, db_steps := db_steps d @ steps\<rparr>) = Commit out d'"
  using assms
proof (induction variants arbitrary: index n d)
  case Nil
  then show ?case
    by (intro exI [of _ "[]"]) (simp add: adds_specs_def adds_steps_def planned_steps_def numbered_from_simps)
next
  case (Cons x variants)
  obtain spec_id v where x: "x = (spec_id, v)" by (cases x)
  let ?row = "spec_row spec_id submission_id index v" and ?kinds = "map (\<lambda>kind. (kind, Some spec_id)) (spec_steps runs v)"
  obtain steps where steps: "adds_steps submission_id n ?kinds steps"
    "insert_specs submission_id runs variants (index + 1) (n + int (length (spec_steps runs v)))
       (d\<lparr>db_specs := db_specs d @ [?row], db_steps := db_steps d @ steps\<rparr>) k = Commit out d'"
    using Cons.prems insert_steps_commit
    by (fastforce simp: x insert_spec_def set_specs_def split: if_splits)
  from Cons.IH [OF steps(2)] obtain specs more where more:
    "adds_specs submission_id (index + 1) (map fst variants) specs"
    "adds_steps submission_id (n + int (length ?kinds)) (planned_steps runs variants) more"
    "k (d\<lparr>db_specs := db_specs d @ ?row # specs, db_steps := db_steps d @ steps @ more\<rparr>) = Commit out d'" by auto
  have "adds_specs submission_id index (map fst (x # variants)) (?row # specs)"
    using more(1) by (simp add: adds_specs_def numbered_from_simps x spec_row_def split: prod.split)
  moreover have "adds_steps submission_id n (planned_steps runs (x # variants)) (steps @ more)"
    using adds_steps_append [OF steps(1) more(2)] by (simp add: planned_steps_def x)
  ultimately show ?case using more(3) by blast
qed

definition same_plan :: "db \<Rightarrow> db \<Rightarrow> bool" where
  "same_plan d d' \<longleftrightarrow> db_submissions d' = db_submissions d \<and> db_specs d' = db_specs d \<and> db_steps d' = db_steps d
     \<and> db_jobs d' = db_jobs d \<and> db_idempotency d' = db_idempotency d"

lemma same_plan_frame [simp]: "same_plan d d" "same_plan d (d'\<lparr>db_github := t1\<rparr>) = same_plan d d'"
  "same_plan d (d'\<lparr>db_slack := t2\<rparr>) = same_plan d d'" "same_plan d (insert_job_event e d') = same_plan d d'"
  by (simp_all add: same_plan_def insert_job_event_def)

lemma github_provenance_commit:
  assumes "insert_github_provenance i g d k = Commit out d'"
  shows "\<exists>d1. k d1 = Commit out d' \<and> same_plan d d1"
  using assms
  by (cases g) (auto simp: insert_github_provenance_def set_github_def split: if_splits intro: same_plan_frame)

lemma slack_provenance_commit:
  assumes "insert_slack_provenance i j s now d k = Commit out d'"
  shows "\<exists>d1. k d1 = Commit out d' \<and> same_plan d d1"
proof (cases s)
  case (Some slack)
  with assms show ?thesis
    by (cases "sn_report_message_ts slack")
      (auto simp: insert_slack_provenance_def set_slack_def split: if_splits intro!: exI)
qed (use assms in \<open>auto simp: insert_slack_provenance_def intro: same_plan_frame\<close>)

lemma provenance_commit:
  assumes "insert_github_provenance i g d (\<lambda>d1. insert_slack_provenance i j s now d1 k) = Commit out d'"
  shows "\<exists>d1. k d1 = Commit out d' \<and> same_plan d d1"
  using github_provenance_commit [OF assms] slack_provenance_commit by (fastforce simp: same_plan_def)

lemma queued_job_commit:
  assumes "insert_job row d (\<lambda>d3. set_provenance (db_provenance (insert_job_event e d3) @ [p]) (insert_job_event e d3) k) = Commit out d'"
  shows "\<exists>d5. k d5 = Commit out d' \<and> db_submissions d5 = db_submissions d \<and> db_specs d5 = db_specs d
    \<and> db_steps d5 = db_steps d \<and> db_jobs d5 = db_jobs d @ [row] \<and> db_idempotency d5 = db_idempotency d"
proof (rule exI)
  let ?d5 = "d\<lparr>db_jobs := db_jobs d @ [row], db_job_events := db_job_events d @ [e], db_provenance := db_provenance d @ [p]\<rparr>"
  show "k ?d5 = Commit out d' \<and> db_submissions ?d5 = db_submissions d \<and> db_specs ?d5 = db_specs d
    \<and> db_steps ?d5 = db_steps d \<and> db_jobs ?d5 = db_jobs d @ [row] \<and> db_idempotency ?d5 = db_idempotency d"
    using assms by (simp add: insert_job_def set_jobs_def set_provenance_def insert_job_event_def split: if_splits)
qed

text \<open>The state after a created submission, as far as the receipt speaks about it.\<close>

definition submission_stored :: "prepared_submission \<Rightarrow> submission_ids \<Rightarrow> db \<Rightarrow> db \<Rightarrow> bool" where
  "submission_stored prepared ids d d' \<longleftrightarrow>
     (let task = cm_task (ps_command prepared); variants = plan_variants task; sid = nu_submission_id ids
      in (\<exists>sub. db_submissions d' = db_submissions d @ [sub] \<and> ts_id sub = sid
            \<and> ts_request_digest sub = Some (ps_request_digest prepared) \<and> ts_fencing_generation sub = 0)
       \<and> (\<exists>job. db_jobs d' = db_jobs d @ [job] \<and> j_id job = nu_job_id ids \<and> j_task_submission_id job = sid
            \<and> j_task_spec_id job = hd (nu_spec_ids ids) \<and> j_status job = JobQueued
            \<and> j_required_capability job = capability_as_str (required_capability task))
       \<and> (\<exists>specs. db_specs d' = db_specs d @ specs \<and> adds_specs sid 0 (map fst (zip (nu_spec_ids ids) variants)) specs)
       \<and> (\<exists>steps. db_steps d' = db_steps d @ steps
            \<and> adds_steps sid 0 (planned_steps (measured_runs variants) (zip (nu_spec_ids ids) variants)) steps))"

definition receipt_row :: "prepared_submission \<Rightarrow> submission_ids \<Rightarrow> task_submission_idempotency" where
  "receipt_row prepared ids = \<lparr>si_producer_namespace = pk_namespace (cm_producer_key (ps_command prepared)),
     si_producer_key = pk_key (cm_producer_key (ps_command prepared)), si_task_submission_id = nu_submission_id ids,
     si_contract_version = Some (ps_contract_version prepared), si_request_digest = Some (ps_request_digest prepared),
     si_initial_job_ids = [nu_job_id ids]\<rparr>"

definition for_producer :: "producer_key \<Rightarrow> task_submission_idempotency \<Rightarrow> bool" where
  "for_producer key i \<longleftrightarrow> si_producer_namespace i = pk_namespace key \<and> si_producer_key i = pk_key key"

definition queued_event :: "uuid \<Rightarrow> submission_command \<Rightarrow> instant \<Rightarrow> job_event" where
  "queued_event job_id command now = \<lparr>je_job_id = job_id, je_event_kind = EventQueued, je_event_status = StatusSuccess,
     je_remark = None, je_detail = Some (pr_queued_event_detail (cm_provenance command)), je_occurred_at = now\<rparr>"

definition provenance_row :: "uuid \<Rightarrow> submission_command \<Rightarrow> task_submission_provenance" where
  "provenance_row submission_id command = \<lparr>sv_task_submission_id = submission_id,
     sv_actor_kind = fst (actor_columns (cm_actor command)), sv_actor_identity = snd (actor_columns (cm_actor command)),
     sv_queued_event_detail = pr_queued_event_detail (cm_provenance command)\<rparr>"

lemma persist_tx_commit:
  assumes "persist_tx ext prepared source ids now after d = Commit r d'"
  shows "r = Inr \<lparr>rc_submission_id = nu_submission_id ids, rc_disposition = Created, rc_initial_job_ids = [nu_job_id ids]\<rparr>
    \<and> submission_stored prepared ids d d' \<and> db_idempotency d' = db_idempotency d @ [receipt_row prepared ids]
    \<and> \<not> list_ex (for_producer (cm_producer_key (ps_command prepared))) (db_idempotency d)"
proof -
  let ?cmd = "ps_command prepared" and ?sid = "nu_submission_id ids" and ?jid = "nu_job_id ids"
  let ?task = "cm_task ?cmd" and ?vs = "plan_variants (cm_task ?cmd)" and ?sub = "submission_row ?sid prepared source"
  define fin where "fin d5 = insert_github_provenance ?sid (pr_github (cm_provenance ?cmd)) d5 (\<lambda>d6.
         insert_slack_provenance ?sid ?jid (pr_slack (cm_provenance ?cmd)) now d6 (\<lambda>d7.
         elect (receipt_row prepared ids) d7 (\<lambda>elected d8.
         if \<not> elected
         then Rollback (case existing_receipt prepared after of
             Inl e \<Rightarrow> Inl e | Inr None \<Rightarrow> Inl Persistence | Inr (Some receipt) \<Rightarrow> Inr receipt)
         else Commit (Inr \<lparr>rc_submission_id = ?sid, rc_disposition = Created, rc_initial_job_ids = [?jid]\<rparr>) d8)))" for d5
  let ?row = "\<lambda>execution. initial_job_row ?jid ?sid (hd (nu_spec_ids ids)) source (required_capability ?task) execution now"
  let ?queued = "insert_job_event (queued_event ?jid ?cmd now)"
  define k where "k d2 = (case initial_execution ext ?task of
           Inl e \<Rightarrow> Rollback (Inl e)
         | Inr execution \<Rightarrow> insert_job (?row execution) d2 (\<lambda>d3.
         set_provenance (db_provenance (?queued d3) @ [provenance_row ?sid ?cmd]) (?queued d3) fin))" for d2
  let ?d1 = "d\<lparr>db_submissions := db_submissions d @ [?sub]\<rparr>"
  have k_eq: "insert_specs ?sid (measured_runs ?vs) (zip (nu_spec_ids ids) ?vs) 0 0 ?d1 k = Commit r d'"
    using assms unfolding persist_tx_def Let_def insert_submission_def set_submissions_def k_def fin_def
      queued_event_def provenance_row_def receipt_row_def
    by (simp split: if_splits)
  from insert_specs_commit [OF k_eq] obtain specs steps where specs:
    "adds_specs ?sid 0 (map fst (zip (nu_spec_ids ids) ?vs)) specs"
    "adds_steps ?sid 0 (planned_steps (measured_runs ?vs) (zip (nu_spec_ids ids) ?vs)) steps"
    "k (?d1\<lparr>db_specs := db_specs d @ specs, db_steps := db_steps d @ steps\<rparr>) = Commit r d'" by auto
  obtain execution where ex: "initial_execution ext ?task = Inr execution"
    using specs(3) by (cases "initial_execution ext ?task") (simp_all add: k_def)
  obtain d5 where d5: "db_submissions d5 = db_submissions d @ [?sub]" "db_specs d5 = db_specs d @ specs"
      "db_steps d5 = db_steps d @ steps" "db_jobs d5 = db_jobs d @ [?row execution]" "db_idempotency d5 = db_idempotency d"
    and tail: "fin d5 = Commit r d'"
    using queued_job_commit [OF specs(3) [unfolded k_def ex sum.case]] by auto
  from provenance_commit [OF tail [unfolded fin_def]] obtain d7 where d7: "same_plan d5 d7"
    and el: "elect (receipt_row prepared ids) d7 (\<lambda>elected d8.
         if \<not> elected
         then Rollback (case existing_receipt prepared after of
             Inl e \<Rightarrow> Inl e | Inr None \<Rightarrow> Inl Persistence | Inr (Some receipt) \<Rightarrow> Inr receipt)
         else Commit (Inr \<lparr>rc_submission_id = ?sid, rc_disposition = Created, rc_initial_job_ids = [?jid]\<rparr>) d8) = Commit r d'"
    by blast
  have el': "r = Inr \<lparr>rc_submission_id = ?sid, rc_disposition = Created, rc_initial_job_ids = [?jid]\<rparr>"
    "d' = d7\<lparr>db_idempotency := db_idempotency d7 @ [receipt_row prepared ids]\<rparr>"
    "\<not> list_ex (for_producer (cm_producer_key ?cmd)) (db_idempotency d7)"
    using el by (simp_all add: elect_def for_producer_def [abs_def] receipt_row_def split: if_splits)
  have "submission_stored prepared ids d d'"
    unfolding submission_stored_def Let_def
    using specs(1,2) d7 d5 by (simp add: same_plan_def el' submission_row_def initial_job_row_def split: prod.split)
  with el' d7 d5(5) show ?thesis by (simp add: same_plan_def)
qed


lemma find_appended: "\<not> list_ex P xs \<Longrightarrow> P x \<Longrightarrow> find P (xs @ [x]) = Some x"
  by (induction xs) auto

lemma submit_receipt:
  assumes "submit codec ext command ids now before after d = Commit r d'" "prepare codec ext command = Inr prepared"
  shows "find (for_producer (cm_producer_key command)) (db_idempotency d') = Some (receipt_row prepared ids)"
    "r = Inr \<lparr>rc_submission_id = nu_submission_id ids, rc_disposition = Created, rc_initial_job_ids = [nu_job_id ids]\<rparr>"
    "ps_command prepared = command"
proof -
  show cmd: "ps_command prepared = command"
    using assms(2) by (auto simp: prepare_def and_then_def split: sum.splits)
  obtain source where tx: "persist_tx ext prepared source ids now after d = Commit r d'"
    using assms by (auto simp: submit_def persist_submission_def split: sum.splits option.splits)
  note c = persist_tx_commit [OF tx, unfolded cmd]
  then show "r = Inr \<lparr>rc_submission_id = nu_submission_id ids, rc_disposition = Created, rc_initial_job_ids = [nu_job_id ids]\<rparr>"
    by blast
  have "for_producer (cm_producer_key command) (receipt_row prepared ids)"
    by (simp add: for_producer_def receipt_row_def cmd)
  with c show "find (for_producer (cm_producer_key command)) (db_idempotency d') = Some (receipt_row prepared ids)"
    by (simp add: find_appended)
qed

text \<open>C7: A producer may repeat a submission after a lost response. While the receipt of its key is in the tables, submitting
  under the same key again changes nothing: a request with the same digest gets the first receipt, marked as already
  submitted, and one with another digest is refused as a conflict.\<close>

theorem submit_idempotent:
  assumes "submit codec ext command ids now before after d = Commit (Inr receipt) d'"
    "prepare codec ext command = Inr prepared" "prepare codec ext other = Inr again"
    "cm_producer_key other = cm_producer_key command"
    "find (for_producer (cm_producer_key command)) (db_idempotency before')
      = find (for_producer (cm_producer_key command)) (db_idempotency d')"
  shows "submit codec ext other ids' now' before' after' d'' = Rollback
    (if ps_request_digest again = ps_request_digest prepared then Inr (receipt\<lparr>rc_disposition := AlreadySubmitted\<rparr>)
     else Inl (SubmissionConflict (pk_namespace (cm_producer_key other)) (pk_key (cm_producer_key other))))"
proof -
  note first = submit_receipt [OF assms(1,2)]
  have versions: "ps_contract_version again = SUBMISSION_CONTRACT_VERSION" "ps_contract_version prepared = SUBMISSION_CONTRACT_VERSION"
    "ps_command again = other"
    using assms(2,3) by (auto simp: prepare_def and_then_def split: sum.splits)
  have "find (\<lambda>i. si_producer_namespace i = pk_namespace (cm_producer_key other) \<and> si_producer_key i = pk_key (cm_producer_key other))
      (db_idempotency before') = Some (receipt_row prepared ids)"
    using assms(5) first(1) by (simp add: assms(4) for_producer_def [abs_def])
  then have "existing_receipt again before' = (if ps_request_digest again = ps_request_digest prepared
      then Inr (Some (receipt\<lparr>rc_disposition := AlreadySubmitted\<rparr>))
      else Inl (SubmissionConflict (pk_namespace (cm_producer_key other)) (pk_key (cm_producer_key other))))"
    using first(2) by (auto simp: existing_receipt_def Let_def versions receipt_row_def)
  then show ?thesis
    by (simp add: submit_def assms(3) persist_submission_def split: sum.split option.split)
qed

definition blank_db :: db where
  "blank_db = (sample_db SessionIdle 0 JobQueued [])\<lparr>db_submissions := [], db_specs := [], db_jobs := []\<rparr>"

definition sample_source :: resolved_task_source where
  "sample_source = \<lparr>rt_github_installation_id = 1, rt_github_repo_id = 1, rt_source = SourceScheduler, rt_intent = CacheWarm,
     rt_task_kind = KindBuildOnly, rt_build_target = StacksBench, rt_git_ref_kind = RefBranch, rt_git_ref_display = ''op'',
     rt_commit = ''op'', rt_committed_at = None, rt_workload_key = None\<rparr>"

definition sample_command :: "uuid option \<Rightarrow> submission_command" where
  "sample_command worker = \<lparr>cm_actor = ActorSystem, cm_producer_key = \<lparr>pk_namespace = ''op'', pk_key = ''op''\<rparr>,
     cm_constraints = \<lparr>sk_required_worker_id = worker, sk_required_measurement_profile = None\<rparr>,
     cm_task = PlanBuildOnly \<lparr>pb_source = sample_source\<rparr>,
     cm_provenance = \<lparr>pr_queued_event_detail = JNull, pr_github = None, pr_slack = None\<rparr>\<rparr>"

text \<open>A codec that tells the material of the two requests apart.\<close>

definition sample_submission_codec :: submission_codec where
  "sample_submission_codec = \<lparr>sq_queued = (\<lambda>_. Inr (QueuedCacheWarm 1 ''op'' ''op'' StacksBench)),
     sq_material = (\<lambda>m. Inr (if sk_required_worker_id (dm_constraints m) = None then ''a'' else ''b''))\<rparr>"

definition sample_hash_codec :: external_codec where
  "sample_hash_codec = \<lparr>ec_task_value = (\<lambda>_. Inr JNull), ec_event_value = (\<lambda>_. Inr JNull), ec_outcome_value = (\<lambda>_. Inr JNull),
     ec_write_scalar = (\<lambda>_. Inr ''null''), ec_sha256_hex = (\<lambda>s. replicate 64 (if s = ''a'' then CHR ''a'' else CHR ''b''))\<rparr>"

lemma sample_text: "\<not> trim_is_empty ''op''" "\<not> any_control ''op''" "length_between 1 64 ''op''" "length_between 1 512 ''op''"
  by (simp_all add: trim_is_empty_def is_whitespace_def any_control_def is_control_def length_between_def byte_of_def
      utf8_lead_def utf8_width_def)

lemma sample_prepare:
  "prepare sample_submission_codec sample_hash_codec (sample_command worker) = Inr \<lparr>ps_command = sample_command worker,
     ps_contract_version = 1, ps_request_digest = replicate 64 (if worker = None then CHR ''a'' else CHR ''b'')\<rparr>"
  by (simp add: prepare_def validate_submission_def Let_def sample_command_def sample_submission_codec_def sample_hash_codec_def
      valid_key_def sample_text validate_build_only_plan_def validate_source_def sample_source_def and_then_def ensure_def
      actor_agrees_def SUBMISSION_CONTRACT_VERSION_def)

definition sample_ids :: submission_ids where
  "sample_ids = \<lparr>nu_submission_id = 30, nu_job_id = 50, nu_spec_ids = [40]\<rparr>"

lemma sample_submits:
  "\<exists>d'. submit sample_submission_codec sample_hash_codec (sample_command None) sample_ids 50 blank_db blank_db blank_db
     = Commit (Inr \<lparr>rc_submission_id = 30, rc_disposition = Created, rc_initial_job_ids = [50]\<rparr>) d'"
proof -
  have digest: "lowercase_sha256 (replicate 64 CHR ''a'')" using lowercase_sha256_sample by (simp only: sample_hash_def)
  show ?thesis
    unfolding submit_def sample_prepare sum.case persist_submission_def persist_tx_def
    by (simp add: existing_receipt_def blank_db_def sample_command_def sample_source_def sample_ids_def Let_def
        insert_submission_def known_repo_def known_worker_def set_submissions_def submission_row_def table_checks digest
        measured_runs_def measured_run_count_def i32_wrap_def insert_spec_def set_specs_def spec_row_def spec_steps_def
        uses_shared_calibration_def supports_shared_calibration_def insert_step_def set_steps_def initial_execution_def
        insert_job_def set_jobs_def initial_job_row_def insert_job_event_def set_provenance_def provenance_check_def
        insert_github_provenance_def insert_slack_provenance_def elect_def idempotency_check_def sample_text [unfolded One_nat_def])
qed


theorem submit_idempotent_witness:
  "\<exists>d'. submit sample_submission_codec sample_hash_codec (sample_command None) sample_ids 50 blank_db blank_db blank_db
     = Commit (Inr \<lparr>rc_submission_id = 30, rc_disposition = Created, rc_initial_job_ids = [50]\<rparr>) d'
     \<and> submit sample_submission_codec sample_hash_codec (sample_command None) sample_ids 60 d' d' d'
       = Rollback (Inr \<lparr>rc_submission_id = 30, rc_disposition = AlreadySubmitted, rc_initial_job_ids = [50]\<rparr>)
     \<and> submit sample_submission_codec sample_hash_codec (sample_command (Some 1)) sample_ids 60 d' d' d'
       = Rollback (Inl (SubmissionConflict ''op'' ''op''))"
proof -
  obtain d' where tx: "submit sample_submission_codec sample_hash_codec (sample_command None) sample_ids 50 blank_db blank_db blank_db
     = Commit (Inr \<lparr>rc_submission_id = 30, rc_disposition = Created, rc_initial_job_ids = [50]\<rparr>) d'"
    using sample_submits by blast
  have key: "cm_producer_key (sample_command w) = \<lparr>pk_namespace = ''op'', pk_key = ''op''\<rparr>" for w
    by (simp add: sample_command_def)
  note again = submit_idempotent [OF tx sample_prepare sample_prepare _ refl, unfolded key, OF refl]
  show ?thesis
    using tx again [of None sample_ids 60 d' d'] again [of "Some 1" sample_ids 60 d' d'] by simp
qed

section \<open>Recovery supersedes a submission\<close>

lemma yields_insert [yield_intro]:
  "yields R (k (d\<lparr>db_steps := t1\<rparr>)) \<Longrightarrow> yields R (set_steps t1 d k)"
  "yields R (k (d\<lparr>db_provenance := t2\<rparr>)) \<Longrightarrow> yields R (set_provenance t2 d k)"
  "yields R (k (d\<lparr>db_github := t3\<rparr>)) \<Longrightarrow> yields R (set_github t3 d k)"
  "yields R (k (d\<lparr>db_slack := t4\<rparr>)) \<Longrightarrow> yields R (set_slack t4 d k)"
  "yields R (k (d\<lparr>db_specs := t5\<rparr>)) \<Longrightarrow> yields R (set_specs t5 d k)"
  "(submission_table_ok (db_submissions d @ [r1]) \<Longrightarrow> yields R (k (d\<lparr>db_submissions := db_submissions d @ [r1]\<rparr>)))
     \<Longrightarrow> yields R (insert_submission r1 d k)"
  "(job_table_ok (db_jobs d @ [r3]) \<Longrightarrow> yields R (k (d\<lparr>db_jobs := db_jobs d @ [r3]\<rparr>))) \<Longrightarrow> yields R (insert_job r3 d k)"
  by (simp_all add: yields_def set_steps_def set_provenance_def set_github_def set_slack_def set_specs_def
      insert_submission_def insert_job_def set_submissions_def set_jobs_def)

lemma yields_tx_for_inv:
  assumes "I d" "\<And>x d k. I d \<Longrightarrow> (\<And>d'. I d' \<Longrightarrow> yields R (k d')) \<Longrightarrow> yields R (f x d k)"
    "\<And>d'. I d' \<Longrightarrow> yields R (k d')"
  shows "yields R (tx_for f xs d k)"
  using assms(1) by (induction xs arbitrary: d) (auto intro: assms(2,3))

definition job_names :: "db \<Rightarrow> (uuid \<times> uuid) list" where
  "job_names d = map (\<lambda>j. (j_id j, j_task_submission_id j)) (db_jobs d)"

definition same_history :: "db \<Rightarrow> db \<Rightarrow> bool" where
  "same_history d d' \<longleftrightarrow> db_attempts d' = db_attempts d \<and> db_obligations d' = db_obligations d
     \<and> db_submissions d' = db_submissions d \<and> job_names d' = job_names d"

lemma yields_cancel_abandoned:
  assumes "same_history d d1" "\<And>d'. same_history d d' \<Longrightarrow> yields R (k d')"
  shows "yields R (cancel_abandoned sid reason now i d1 k)"
  unfolding cancel_abandoned_def Let_def
  by (intro yield_intro assms(2))
    (use assms(1) in \<open>auto simp: same_history_def job_names_def insert_job_event_def map_update_where\<close>)

text \<open>What the recovery transaction does to the tables that decide about execution.\<close>

definition recovered :: "uuid \<Rightarrow> uuid option \<Rightarrow> submission_ids \<Rightarrow> instant \<Rightarrow> db \<Rightarrow> submission_recovery \<Rightarrow> db \<Rightarrow> bool" where
  "recovered sid target ids now d answer d' \<longleftrightarrow>
     (\<exists>prior job. row_of ts_id (db_submissions d) sid = Some prior
       \<and> \<not> list_ex (\<lambda>a. wa_task_submission_id a = sid \<and> active (wa_status a)) (db_attempts d)
       \<and> submission_table_ok (db_submissions d')
       \<and> db_submissions d' = db_submissions d @ [recovered_submission (nu_submission_id ids) target prior]
       \<and> job_table_ok (db_jobs d') \<and> job_names d' = job_names d @ [(nu_job_id ids, nu_submission_id ids)]
       \<and> job \<in> set (db_jobs d') \<and> j_id job = nu_job_id ids \<and> j_task_submission_id job = nu_submission_id ids
       \<and> j_status job = JobQueued
       \<and> db_attempts d' = db_attempts d
       \<and> db_obligations d' = update_where (owed_for sid d) (abandon now) (db_obligations d)
       \<and> answer = \<lparr>sr_prior_submission_id = sid, sr_new_submission_id = nu_submission_id ids,
            sr_first_job_id = nu_job_id ids, sr_execution_generation = ts_execution_generation prior + 1\<rparr>)"

lemma recover_submission_yields:
  "yields (\<lambda>x d'. \<exists>answer. x = Some answer \<and> recovered sid target ids now d answer d')
    (recover_submission sid target reason ids now d)"
proof -
  have job: "yields (\<lambda>x d'. \<exists>answer. x = Some answer \<and> recovered sid target ids now d answer d')
      (recover_job sid ids reason now (ts_execution_generation prior + 1) d5)"
    if "row_of ts_id (db_submissions d) sid = Some prior"
      "\<not> list_ex (\<lambda>a. wa_task_submission_id a = sid \<and> active (wa_status a)) (db_attempts d)"
      "submission_table_ok (db_submissions d5)"
      "db_submissions d5 = db_submissions d @ [recovered_submission (nu_submission_id ids) target prior]"
      "job_names d5 = job_names d" "db_attempts d5 = db_attempts d"
      "db_obligations d5 = update_where (owed_for sid d) (abandon now) (db_obligations d)" for prior d5
    unfolding recover_job_def Let_def
    by (intro yield_intro) (use that in \<open>auto simp: recovered_def job_names_def recovered_job_def\<close>)
  show ?thesis
    unfolding recover_submission_def Let_def
  proof (intro yield_intro)
    fix prior
    assume prior: "row_of ts_id (db_submissions d) sid = Some prior"
      "\<not> list_ex (\<lambda>a. wa_task_submission_id a = sid \<and> active (wa_status a)) (db_attempts d)"
    let ?d1 = "update_obligations (owed_for sid d) (abandon now) d"
    show "yields (\<lambda>x d'. \<exists>answer. x = Some answer \<and> recovered sid target ids now d answer d')
      (tx_for (cancel_abandoned sid reason now) (map co_job_id (filter (owed_for sid d) (db_obligations d))) ?d1 (\<lambda>d2.
         insert_submission (recovered_submission (nu_submission_id ids) target prior) d2 (\<lambda>d3.
         if list_all (\<lambda>s. known_repo d3 (sp_github_repo_id s)) (recovered_specs sid (nu_submission_id ids) (nu_spec_ids ids) d3)
         then set_specs (db_specs d3 @ recovered_specs sid (nu_submission_id ids) (nu_spec_ids ids) d3) d3 (\<lambda>d4.
           set_steps (db_steps d4 @ recovered_steps sid (nu_submission_id ids) d4) d4
             (recover_job sid ids reason now (ts_execution_generation prior + 1)))
         else Error Database)))"
    proof (rule yields_tx_for_inv [where I = "same_history ?d1"])
      show "same_history ?d1 ?d1" by (simp add: same_history_def)
      show "yields R (cancel_abandoned sid reason now i d2 k)"
        if "same_history ?d1 d2" "\<And>d'. same_history ?d1 d' \<Longrightarrow> yields R (k d')"
        for i d2 R and k :: "db \<Rightarrow> submission_recovery outcome"
        using yields_cancel_abandoned that by blast
    qed (intro yield_intro job prior, auto simp: same_history_def job_names_def update_obligations_def)
  qed
qed

text \<open>C24: Recovering a submission replaces it by a new one: the next execution generation, with one queued job, and with a
  fence above that of every attempt of the old submission. None of those attempts is active, and no cleanup of the old
  submission is left pending.\<close>

theorem recovery_supersedes:
  assumes "recover_submission sid target reason ids now d = Commit answer d'" "well_formed d"
  shows "\<exists>prior new job. row_of ts_id (db_submissions d) sid = Some prior
    \<and> row_of ts_id (db_submissions d') (sr_new_submission_id answer) = Some new
    \<and> ts_execution_generation new = ts_execution_generation prior + 1
    \<and> sr_execution_generation answer = ts_execution_generation new
    \<and> row_of j_id (db_jobs d') (sr_first_job_id answer) = Some job \<and> j_status job = JobQueued
    \<and> j_task_submission_id job = sr_new_submission_id answer
    \<and> (\<forall>a \<in> set (db_attempts d'). wa_task_submission_id a = sid
        \<longrightarrow> \<not> active (wa_status a) \<and> wa_fencing_generation a < ts_fencing_generation new)
    \<and> (\<forall>ob \<in> set (db_obligations d'). \<forall>j \<in> set (db_jobs d'). co_job_id ob = j_id j \<longrightarrow> j_task_submission_id j = sid
        \<longrightarrow> co_status ob \<noteq> CleanupPending)"
proof -
  from yields_Commit [OF recover_submission_yields assms(1)] obtain prior job where
    prior: "row_of ts_id (db_submissions d) sid = Some prior"
    and idle: "\<not> list_ex (\<lambda>a. wa_task_submission_id a = sid \<and> active (wa_status a)) (db_attempts d)"
    and subs: "submission_table_ok (db_submissions d')"
      "db_submissions d' = db_submissions d @ [recovered_submission (nu_submission_id ids) target prior]"
    and jobs: "job_table_ok (db_jobs d')" "job_names d' = job_names d @ [(nu_job_id ids, nu_submission_id ids)]"
    and job: "job \<in> set (db_jobs d')" "j_id job = nu_job_id ids" "j_task_submission_id job = nu_submission_id ids" "j_status job = JobQueued"
    and same: "db_attempts d' = db_attempts d"
    and obs: "db_obligations d' = update_where (owed_for sid d) (abandon now) (db_obligations d)"
    and answer: "answer = \<lparr>sr_prior_submission_id = sid, sr_new_submission_id = nu_submission_id ids,
            sr_first_job_id = nu_job_id ids, sr_execution_generation = ts_execution_generation prior + 1\<rparr>"
    unfolding recovered_def by blast
  let ?new = "recovered_submission (nu_submission_id ids) target prior"
  have new: "ts_id ?new = nu_submission_id ids" "ts_execution_generation ?new = ts_execution_generation prior + 1"
    "ts_fencing_generation ?new = ts_fencing_generation prior + 1" by (simp_all add: recovered_submission_def)
  have row: "row_of ts_id (db_submissions d') (nu_submission_id ids) = Some ?new"
    using row_of_in_set [of ts_id "db_submissions d'" ?new] subs new(1) by (simp add: submission_table_ok_def)
  have jrow: "row_of j_id (db_jobs d') (nu_job_id ids) = Some job"
    using row_of_in_set [of j_id "db_jobs d'" job] jobs(1) job(1,2) by (simp add: job_table_ok_def)
  have fenced: "wa_fencing_generation a < ts_fencing_generation ?new" if a: "a \<in> set (db_attempts d)" "wa_task_submission_id a = sid" for a
  proof -
    have "c_attempts (core_of d) (wa_attempt_id a) = Some (abs_attempt a)"
      using row_of_in_set [OF schema_distinct(2) [OF wfD(1) [OF assms(2)]] a(1)] by (simp add: view_def)
    moreover have "c_fences (core_of d) sid = Some (ts_fencing_generation prior)" using prior by (simp add: view_def)
    ultimately show ?thesis
      using coherentD(1) [OF wfD(2) [OF assms(2)]] a(2) new(3) by (force simp: attempts_fenced_def)
  qed
  have settled: "co_status ob \<noteq> CleanupPending"
    if ob: "ob \<in> set (db_obligations d')" and j: "j \<in> set (db_jobs d')" "co_job_id ob = j_id j" "j_task_submission_id j = sid" for ob j
  proof -
    have "sid \<noteq> nu_submission_id ids"
      using row_of_Some [OF prior] subs new(1) by (force simp: submission_table_ok_def image_iff)
    moreover have "(co_job_id ob, sid) \<in> set (job_names d')" using j by (auto simp: job_names_def)
    ultimately have "(co_job_id ob, sid) \<in> set (job_names d)" by (simp add: jobs(2))
    then obtain j0 where "j0 \<in> set (db_jobs d)" "j_id j0 = co_job_id ob" "j_task_submission_id j0 = sid"
      by (auto simp: job_names_def)
    then have "owed_for sid d ob" if "co_status ob = CleanupPending"
      using that by (auto simp: owed_for_def list_ex_iff)
    moreover obtain ob0 where ob0: "ob = (if owed_for sid d ob0 then abandon now ob0 else ob0)"
      using ob by (auto simp: obs in_update_where)
    ultimately show ?thesis by (cases "owed_for sid d ob0") (auto simp: abandon_def)
  qed
  show ?thesis
    using prior row jrow job(3,4) new idle fenced settled
    by (intro exI conjI) (auto simp: answer same list_ex_iff)
qed

definition fenced_benchmark_db :: db where
  "fenced_benchmark_db = fenced_db\<lparr>db_specs := [sample_spec\<lparr>sp_task_kind := KindBenchmark\<rparr>]\<rparr>"

theorem recovery_supersedes_witness:
  "\<exists>answer d'. recover_submission 3 None ''op'' sample_ids 50 fenced_benchmark_db = Commit answer d'
     \<and> sr_execution_generation answer = 2 \<and> filter (\<lambda>a. wa_task_submission_id a = 3 \<and> active (wa_status a)) (db_attempts d') = []"
proof -
  have wf: "well_formed fenced_benchmark_db"
    using sample_well_formed(4)
    by (simp add: well_formed_def fenced_benchmark_db_def schema_ok_update spec_table_ok_def spec_check_def sample_spec_def)
  have "length (uuid_to_string 30) = 36" by (simp add: uuid_to_string_def Let_def)
  then have prefix: "''3'' \<noteq> uuid_to_string 30" by (cases "uuid_to_string 30 = ''3''") auto
  obtain answer d' where tx: "recover_submission 3 None ''op'' sample_ids 50 fenced_benchmark_db = Commit answer d'"
    by (simp add: recover_submission_def prefix sample_text recovery_target_ok_def benchmark_submission_def fenced_benchmark_db_def
       sample_states sample_rows sample_ids_def owed_for_def update_obligations_def cancel_abandoned_def statement_eval table_checks insert_job_event_def
       insert_submission_def known_repo_def known_worker_def recovered_submission_def recovered_specs_def set_specs_def
       set_steps_def recovered_steps_def recover_job_def first_job_of_def first_by_def insert_job_def recovered_job_def
       recovered_events_def set_provenance_def set_github_def set_slack_def abandon_def Let_def)
  from recovery_supersedes [OF tx wf] tx show ?thesis
    by (auto simp: filter_empty_conv fenced_benchmark_db_def sample_states sample_submission_def)
qed

section \<open>Every pending run is appended\<close>

lemma latest_by_Some: "latest_by key t = Some r \<Longrightarrow> r \<in> set t \<and> (\<forall>x \<in> set t. key x \<le> key r)"
proof -
  assume a: "latest_by key t = Some r"
  then obtain u where u: "sort_key key t = rev u @ [r]"
    by (auto simp: latest_by_def rev_eq_Cons_iff split: list.splits)
  have "sorted (map key (sort_key key t))" by simp
  with u have "\<forall>x \<in> set (sort_key key t). key x \<le> key r" by (auto simp: sorted_append)
  moreover have "r \<in> set (sort_key key t)" using u by simp
  ultimately show ?thesis by simp
qed

text \<open>The foreign keys between jobs, specifications and submissions: a job runs a specification of its own
  submission and is of its kind, and repositories are known.\<close>

definition runs_follow_specs :: "db \<Rightarrow> bool" where
  "runs_follow_specs d \<longleftrightarrow>
     (\<forall>j \<in> set (db_jobs d). known_repo d (j_github_repo_id j) \<and>
        (\<exists>s \<in> set (db_specs d). sp_id s = j_task_spec_id j \<and> sp_task_submission_id s = j_task_submission_id j
           \<and> sp_task_kind s = j_task_kind j))
     \<and> (\<forall>s \<in> set (db_specs d). known_repo d (sp_github_repo_id s))"

lemma latest_run_Some:
  assumes "latest_run sid d = Some (j, s)" "runs_follow_specs d" "spec_table_ok (db_specs d)"
  shows "j \<in> set (db_jobs d)" "s \<in> set (db_specs d)" "j_task_submission_id j = sid" "sp_id s = j_task_spec_id j"
    "sp_task_submission_id s = sid" "sp_task_kind s = j_task_kind j"
    "\<And>j' s'. j' \<in> set (db_jobs d) \<Longrightarrow> s' \<in> set (db_specs d) \<Longrightarrow> sp_id s' = j_task_spec_id j' \<Longrightarrow> sp_task_submission_id s' = sid
      \<Longrightarrow> (sp_spec_index s', j_task_run_index j') \<le> (sp_spec_index s, j_task_run_index j)"
proof -
  have d: "distinct (map sp_id (db_specs d))" using assms(3) by (simp add: spec_table_ok_def)
  have same: "s1 = s2" if "s1 \<in> set (db_specs d)" "s2 \<in> set (db_specs d)" "sp_id s1 = sp_id s2" for s1 s2
    using row_of_in_set [OF d] that by (metis option.inject)
  have owner: "sp_task_submission_id s' = j_task_submission_id j' \<and> sp_task_kind s' = j_task_kind j'"
    if "j' \<in> set (db_jobs d)" "s' \<in> set (db_specs d)" "sp_id s' = j_task_spec_id j'" for j' s'
    using assms(2) that same unfolding runs_follow_specs_def by metis
  note l = latest_by_Some [OF assms(1) [unfolded latest_run_def]]
  from l show in_set: "j \<in> set (db_jobs d)" "s \<in> set (db_specs d)" "j_task_submission_id j = sid" "sp_id s = j_task_spec_id j"
    by auto
  then show "sp_task_submission_id s = sid" "sp_task_kind s = j_task_kind j" using owner by auto
  show "(sp_spec_index s', j_task_run_index j') \<le> (sp_spec_index s, j_task_run_index j)"
    if "j' \<in> set (db_jobs d)" "s' \<in> set (db_specs d)" "sp_id s' = j_task_spec_id j'" "sp_task_submission_id s' = sid" for j' s'
    using l owner [OF that(1-3)] that by auto
qed

lemma foldr_max_eq: "\<forall>x \<in> set xs. x \<le> m \<Longrightarrow> i \<le> m \<Longrightarrow> m \<in> insert i (set xs) \<Longrightarrow> foldr max xs i = (m :: int)"
proof (induction xs)
  case (Cons x xs)
  have "foldr max xs i \<le> m" using Cons.prems(1,2) by (induction xs) auto
  moreover have "foldr max xs i = m" if "m \<noteq> x" using Cons that by auto
  ultimately show ?case using Cons.prems(1) by (cases "m = x") (auto simp: max_absorb1 max_absorb2)
qed auto

lemma max_run_index_eq:
  assumes "j \<in> set (db_jobs d)" "\<And>j'. j' \<in> set (db_jobs d) \<Longrightarrow> j_task_spec_id j' = j_task_spec_id j \<Longrightarrow> j_task_run_index j' \<le> j_task_run_index j"
  shows "max_run_index (j_task_spec_id j) d = j_task_run_index j"
proof -
  let ?is = "map j_task_run_index (filter (\<lambda>x. j_task_spec_id x = j_task_spec_id j) (db_jobs d))"
  have "j_task_run_index j \<in> set ?is" "\<forall>x \<in> set ?is. x \<le> j_task_run_index j" using assms by auto
  then show ?thesis
    unfolding max_run_index_def by (cases ?is) (auto intro!: foldr_max_eq)
qed

lemma appended_run:
  assumes "schema_ok d" "job_id \<notin> j_id ` set (db_jobs d)" "known_repo d (j_github_repo_id row)" "j_id row = job_id" "job_check row"
    "\<And>j. j \<in> set (db_jobs d) \<Longrightarrow> j_task_spec_id j = j_task_spec_id row \<Longrightarrow> j_task_run_index j \<noteq> j_task_run_index row"
  shows "insert_job row d k = k (d\<lparr>db_jobs := db_jobs d @ [row]\<rparr>)"
proof -
  have "(j_task_spec_id row, j_task_run_index row) \<notin> (\<lambda>j. (j_task_spec_id j, j_task_run_index j)) ` set (db_jobs d)"
    using assms(6) by fastforce
  moreover have "job_table_ok (db_jobs d)" using assms(1) by (simp add: schema_ok_def)
  ultimately have "job_table_ok (db_jobs d @ [row])" using assms(2,4,5) by (simp add: job_table_ok_def)
  then show ?thesis by (simp add: insert_job_def set_jobs_def assms(3))
qed

lemma copied_jobs [simp]: "db_jobs (copy_run_provenance_events_in_tx i p now d) = db_jobs d"
  by (simp add: copy_run_provenance_events_in_tx_def copy_event_def insert_job_event_def split: option.split)

lemma in_concat_option:
  "set (concat (map (\<lambda>x. case f x of None \<Rightarrow> [] | Some p \<Rightarrow> [p]) xs)) = {p. \<exists>x \<in> set xs. f x = Some p}"
  by (induction xs) (auto split: option.splits)


definition completed_run_db :: db where
  "completed_run_db = (sample_db SessionIdle 1 JobCompleted [])\<lparr>db_specs := [sample_spec\<lparr>sp_task_kind := KindBenchmark, sp_requested_run_count := 2\<rparr>],
     db_jobs := [(sample_job JobCompleted)\<lparr>j_task_kind := KindBenchmark\<rparr>]\<rparr>"


end
