(* ===== verification/Fleet_Machine.thy ===== *)
theory Fleet_Machine
  imports Fleet_Store_Policy Fleet_Store_Results Submission_Promises Fleet_Sample
begin

text \<open>
  The coordinator's durable state machine: every operation of the fleet store and of the submission
  store that writes, as the steps of one transition system over the tables. Each operation is one
  transaction, so a history of the coordinator is a sequence of them; the clocks, the fresh identities
  and the rows other transactions have locked are arguments of the step.

  The locale \<open>step_system\<close> states what a system of operations owes to an invariant and to an abstract
  behaviour; its interpretation shows that every operation of the store keeps \<open>well_formed\<close> and
  implements the abstract machine of \<open>Fleet_Core\<close>. The properties at the end are about every history.
\<close>

section \<open>Systems of operations\<close>

locale step_system =
  fixes act :: "'o \<Rightarrow> 's \<Rightarrow> 's" and inv :: "'s \<Rightarrow> bool" and moves :: "'s \<Rightarrow> 's \<Rightarrow> bool"
  assumes moves_refl: "inv s \<Longrightarrow> moves s s"
    and moves_trans: "moves s t \<Longrightarrow> moves t u \<Longrightarrow> moves s u"
    and moves_inv: "inv s \<Longrightarrow> moves s t \<Longrightarrow> inv t"
    and act_moves: "inv s \<Longrightarrow> moves s (act o1 s)"
begin

lemma run_moves: "inv s \<Longrightarrow> moves s (fold act ops s)"
proof (induction ops arbitrary: s)
  case Nil
  then show ?case by (simp add: moves_refl)
next
  case (Cons o1 ops)
  have "moves s (act o1 s)" by (rule act_moves) (rule Cons.prems)
  moreover have "moves (act o1 s) (fold act ops (act o1 s))"
    by (rule Cons.IH) (rule moves_inv [OF Cons.prems act_moves [OF Cons.prems]])
  ultimately show ?case by (simp add: moves_trans)
qed

lemma run_inv: "inv s \<Longrightarrow> inv (fold act ops s)"
  by (rule moves_inv [OF _ run_moves])

text \<open>What every abstract move keeps, every history keeps.\<close>

lemma run_keeps:
  assumes "inv s" "\<And>t u. inv t \<Longrightarrow> moves t u \<Longrightarrow> P t u"
  shows "P s (fold act ops s)"
  by (rule assms(2) [OF assms(1) run_moves [OF assms(1)]])

end

section \<open>The operations\<close>

text \<open>One constructor per operation that writes, grouped by component, and the tables an operation leaves:
  those of its commit, or the ones it started from.\<close>

text \<open>The workers, their identities and their sessions.\<close>

datatype registry_op =
    CreateWorker worker_registration
  | UpdateWorker uuid worker_policy_patch instant
  | AuthorizeIdentity uuid string instant
  | RevokeIdentity uuid string instant
  | EmergencyDisableWorker uuid instant
  | EmergencyRevokeIdentity uuid string instant
  | RegisterSession uuid string register_session_request duration instant instant
  | DeregisterSession uuid uuid instant

primrec perform_registry :: "registry_op \<Rightarrow> db \<Rightarrow> db" where
  "perform_registry (CreateWorker worker) d = snd (run_tx (create_worker worker) d)"
| "perform_registry (UpdateWorker w patch now) d = snd (run_tx (update_worker w patch now) d)"
| "perform_registry (AuthorizeIdentity w digest now) d = snd (run_tx (authorize_identity w digest now) d)"
| "perform_registry (RevokeIdentity w digest now) d = snd (run_tx (revoke_identity w digest now) d)"
| "perform_registry (EmergencyDisableWorker w now) d = snd (run_tx (emergency_disable_worker w now) d)"
| "perform_registry (EmergencyRevokeIdentity w digest now) d = snd (run_tx (emergency_revoke_identity w digest now) d)"
| "perform_registry (RegisterSession w digest req ttl now utc) d = snd (run_tx (register_session w digest req ttl now utc) d)"
| "perform_registry (DeregisterSession w s now) d = snd (run_tx (deregister_session w s now) d)"

text \<open>Offers, leases, cancellation and cleanup.\<close>

datatype attempt_op =
    PollOffer uuid uuid duration duration instant instant new_ids "uuid \<Rightarrow> bool"
  | AcceptOffer uuid attempt_identity duration instant
  | HeartbeatAttempt uuid attempt_identity duration "u32 option" instant
  | RequestCancel uuid instant
  | ExpireUnreportedSlackJobs duration string instant "uuid \<Rightarrow> bool"
  | FailQueuedSlackJobs string instant "uuid \<Rightarrow> bool"
  | ExpireStaleAttempts instant "uuid \<Rightarrow> bool"
  | CompleteCleanup uuid uuid int instant

primrec perform_attempt :: "attempt_op \<Rightarrow> db \<Rightarrow> db" where
  "perform_attempt (PollOffer w s ottl lttl now utc ids locked) d = snd (run_tx (poll_offer w s ottl lttl now utc ids locked) d)"
| "perform_attempt (AcceptOffer w identity ttl now) d = snd (run_tx (accept_offer w identity ttl now) d)"
| "perform_attempt (HeartbeatAttempt w identity ttl drain now) d = snd (run_tx (heartbeat_attempt w identity ttl drain now) d)"
| "perform_attempt (RequestCancel j now) d = snd (run_tx (request_cancel j now) d)"
| "perform_attempt (ExpireUnreportedSlackJobs timeout remark now locked) d =
     snd (run_tx (expire_unreported_slack_jobs timeout remark now locked) d)"
| "perform_attempt (FailQueuedSlackJobs remark now locked) d =
     snd (run_tx (fail_queued_slack_jobs_without_connector remark now locked) d)"
| "perform_attempt (ExpireStaleAttempts now locked) d = snd (run_tx (expire_stale_attempts now locked) d)"
| "perform_attempt (CompleteCleanup w s i now) d = snd (run_tx (complete_cleanup w s i now) d)"

text \<open>The audited operations of the administrator.\<close>

datatype policy_op =
    ChangeScheduler instant scheduler_change
  | ChangeProtocolPolicy instant protocol_policy_change
  | ChangeWorkerLifecycle instant worker_lifecycle_change
  | AbortFleet "instant \<times> instant" fleet_abort_request

primrec perform_policy :: "policy_op \<Rightarrow> db \<Rightarrow> db" where
  "perform_policy (ChangeScheduler clock change) d = snd (run_tx (change_scheduler clock change) d)"
| "perform_policy (ChangeProtocolPolicy clock change) d = snd (run_tx (change_protocol_policy clock change) d)"
| "perform_policy (ChangeWorkerLifecycle clock change) d = snd (run_tx (change_worker_lifecycle clock change) d)"
| "perform_policy (AbortFleet env req) d = snd (run_tx (abort_fleet env req) d)"

text \<open>Events, progress, artifacts and results.\<close>

datatype result_op =
    IngestReliableEvent uuid reliable_event_envelope instant
  | MarkEventProjected uuid u64 instant
  | IngestProgress uuid progress_request instant
  | MarkProgressProjected uuid u64 instant
  | RecordArtifactGrant artifact_grant_record instant
  | VerifyArtifact attempt_identity artifact_descriptor instant
  | MarkStagedArtifactReaped string
  | MarkArtifactsPromoted uuid "artifact_descriptor list" instant
  | AcceptTerminal external_codec uuid attempt_identity fleet_terminal_submission instant

primrec perform_result :: "result_op \<Rightarrow> db \<Rightarrow> db" where
  "perform_result (IngestReliableEvent w event now) d = snd (run_tx (ingest_reliable_event w event now) d)"
| "perform_result (MarkEventProjected i n now) d = snd (run_tx (mark_event_projected i n now) d)"
| "perform_result (IngestProgress w progress now) d = snd (run_tx (ingest_progress w progress now) d)"
| "perform_result (MarkProgressProjected i n now) d = snd (run_tx (mark_progress_projected i n now) d)"
| "perform_result (RecordArtifactGrant grant now) d = snd (run_tx (record_artifact_grant grant now) d)"
| "perform_result (VerifyArtifact identity artifact now) d = snd (run_tx (verify_artifact identity artifact now) d)"
| "perform_result (MarkStagedArtifactReaped key) d = snd (run_tx (mark_staged_artifact_reaped key) d)"
| "perform_result (MarkArtifactsPromoted i artifacts now) d = snd (run_tx (mark_artifacts_promoted i artifacts now) d)"
| "perform_result (AcceptTerminal ext w identity submission now) d =
     snd (run_tx (accept_terminal ext w identity submission now) d)"

text \<open>Submissions and their runs.\<close>

datatype submission_op =
    FreezeSubmissionSources uuid "resolved_spec_source list" int
  | PrepareExecution prepared_execution
  | Submit submission_codec external_codec submission_command submission_ids instant db db
  | AppendNextBenchmarkRun uuid uuid instant
  | RecordPlanMessageTs uuid string instant
  | RecoverSubmission uuid "uuid option" string submission_ids instant

primrec perform_submission :: "submission_op \<Rightarrow> db \<Rightarrow> db" where
  "perform_submission (FreezeSubmissionSources s sources generation) d =
     snd (run_tx (freeze_submission_sources s sources generation) d)"
| "perform_submission (PrepareExecution prepared) d = snd (run_tx (prepare_execution prepared) d)"
| "perform_submission (Submit codec ext command ids now before after) d =
     snd (run_tx (submit codec ext command ids now before after) d)"
| "perform_submission (AppendNextBenchmarkRun i j now) d = snd (run_tx (append_next_benchmark_run i j now) d)"
| "perform_submission (RecordPlanMessageTs i ts now) d = snd (run_tx (record_plan_message_ts i ts now) d)"
| "perform_submission (RecoverSubmission s target reason ids now) d =
     snd (run_tx (recover_submission s target reason ids now) d)"

datatype fleet_op =
    Registry registry_op
  | Attempt attempt_op
  | Policy policy_op
  | Result result_op
  | Submission submission_op

primrec perform :: "fleet_op \<Rightarrow> db \<Rightarrow> db" where
  "perform (Registry op) d = perform_registry op d"
| "perform (Attempt op) d = perform_attempt op d"
| "perform (Policy op) d = perform_policy op d"
| "perform (Result op) d = perform_result op d"
| "perform (Submission op) d = perform_submission op d"

text \<open>Every operation implements the abstract machine.\<close>

lemma run_refines:
  assumes "well_formed d" "ensures (refines d) (tx d)"
  shows "refines d (snd (run_tx tx d))"
  using ensures_run_tx [of "refines d" tx d] assms by (simp add: refines_refl wfD(1))

lemma perform_registry_refines: "well_formed d \<Longrightarrow> refines d (perform_registry op d)"
  by (cases op; simp only: perform_registry.simps)
    (rule run_refines, assumption, intro registry_refines emergency_refines register_session_refines; simp add: wfD)+

lemma perform_attempt_refines: "well_formed d \<Longrightarrow> refines d (perform_attempt op d)"
  by (cases op; simp only: perform_attempt.simps)
    (rule run_refines, assumption, intro poll_offer_refines accept_offer_refines heartbeat_attempt_refines request_cancel_refines slack_expiry_refines
      expire_stale_attempts_refines complete_cleanup_refines; simp add: wfD)+

lemma perform_policy_refines: "well_formed d \<Longrightarrow> refines d (perform_policy op d)"
  by (cases op; simp only: perform_policy.simps)
    (rule run_refines, assumption, intro change_scheduler_refines change_protocol_policy_refines change_worker_lifecycle_refines abort_fleet_refines; simp add: wfD)+

lemma perform_result_refines: "well_formed d \<Longrightarrow> refines d (perform_result op d)"
  by (cases op; simp only: perform_result.simps)
    (rule run_refines, assumption, intro ingest_reliable_event_refines mark_event_projected_refines ingest_progress_refines
      mark_progress_projected_refines artifact_refines mark_artifacts_promoted_refines accept_terminal_refines; simp add: wfD)+

lemma perform_submission_refines: "well_formed d \<Longrightarrow> refines d (perform_submission op d)"
  by (cases op; simp only: perform_submission.simps)
    (rule run_refines, assumption, intro freeze_submission_sources_refines prepare_execution_refines submit_refines append_next_benchmark_run_refines
      record_plan_message_ts_refines recover_submission_refines; simp add: wfD)+

lemma perform_refines: "well_formed d \<Longrightarrow> refines d (perform op d)"
  by (cases op) (simp_all add: perform_registry_refines perform_attempt_refines perform_policy_refines
      perform_result_refines perform_submission_refines)

interpretation coordinator: step_system perform well_formed refines
  by unfold_locales (auto intro: refines_refl wfD(1) refines_trans refines_wf perform_refines)

text \<open>The same operations keep the newest fence with the active attempt.\<close>

interpretation fenced: step_system perform "\<lambda>d. well_formed d \<and> newest_active (core_of d)" refines
proof unfold_locales
  show "well_formed t \<and> newest_active (core_of t)" if "well_formed s \<and> newest_active (core_of s)" "refines s t" for s t
    using that by (auto intro: refines_wf core_steps_newest wfD(2) simp: refines_def)
qed (auto intro: refines_refl wfD(1) refines_trans perform_refines)

text \<open>And they keep a job doomed once its cancellation was granted.\<close>

interpretation doomed_job: step_system perform "\<lambda>d. well_formed d \<and> doomed (core_of d) i" refines for i
proof unfold_locales
  show "well_formed t \<and> doomed (core_of t) i" if "well_formed s \<and> doomed (core_of s) i" "refines s t" for s t
    using that by (auto intro: refines_wf core_steps_doomed simp: refines_def)
qed (auto intro: refines_refl wfD(1) refines_trans perform_refines)

section \<open>The initial tables\<close>

text \<open>The tables as the migrations leave them on a fresh installation, with the repositories that the
  webhook handler has recorded.\<close>

definition initial_db :: "github_repo list \<Rightarrow> instant \<Rightarrow> db" where
  "initial_db repos now = \<lparr>db_registry = [], db_identities = [], db_sessions = [], db_submissions = [],
     db_specs = [], db_jobs = [], db_attempts = [], db_events = [], db_progress = [], db_staging = [],
     db_obligations = [], db_job_events = [], db_job_results = [], db_job_metrics = [], db_block_results = [],
     db_repos = repos, db_slack = [], db_steps = [], db_provenance = [], db_github = [], db_idempotency = [],
     db_scheduler = \<lparr>sc_paused = False, sc_generation = 0, sc_actor = ''migration'',
       sc_reason = ''Initial running scheduler policy'', sc_changed_at = now\<rparr>,
     db_scheduler_audit = [],
     db_protocol = \<lparr>pp_minimum_revision = 1, pp_generation = 0, pp_actor = ''migration'',
       pp_reason = ''Retain deployed revision-1 compatibility'',
       pp_rollback_evidence = ''Initial compatibility window'', pp_changed_at = now\<rparr>,
     db_protocol_audit = [], db_lifecycle_audit = [], db_abort_audit = [], db_obligation_sequence = 1\<rparr>"

inductive reachable :: "db \<Rightarrow> bool" where
  installed: "reachable (initial_db repos now)"
| performed: "reachable d \<Longrightarrow> reachable (perform op d)"

lemma initial_well_formed: "well_formed (initial_db repos now)"
  by (simp add: well_formed_def schema_ok_def initial_db_def session_table_ok_def attempt_table_ok_def
      submission_table_ok_def spec_table_ok_def job_table_ok_def event_table_ok_def staging_table_ok_def
      core_of_def view_def coherent_def core_inv_defs)

lemma reachable_inv: "reachable d \<Longrightarrow> well_formed d"
proof (induction rule: reachable.induct)
  case (performed d op)
  then show ?case using coordinator.run_inv [of d "[op]"] by simp
qed (rule initial_well_formed)

lemma reachable_fold: "reachable d \<Longrightarrow> reachable (fold perform ops d)"
  by (induction ops arbitrary: d) (simp_all add: reachable.performed)

section \<open>Every history\<close>

text \<open>C1: Whatever sequence of operations the coordinator commits on a fresh installation, the tables
  satisfy their constraints and their rows are coherent: attempts own the jobs they execute, fences are
  distinct and bounded by the submission's counter, and an obligation names an ended attempt.\<close>

theorem reachable_well_formed: "reachable d \<Longrightarrow> well_formed d"
  by (rule reachable_inv)

theorem reachable_well_formed_witness:
  "well_formed (perform (Registry (AuthorizeIdentity 1 ''00'' 5)) (initial_db [] 0))"
  by (rule reachable_well_formed) (intro reachable.intros)

text \<open>C2: Every history of the store implements the abstract fleet machine: the sequence of its commits
  is a sequence of abstract transitions on the jobs, attempts, obligations and fences.\<close>

theorem history_implements_fleet_core:
  assumes "well_formed d"
  shows "core_step\<^sup>*\<^sup>* (core_of d) (core_of (fold perform ops d))"
  using coordinator.run_moves [OF assms, of ops] by (simp add: refines_def)

theorem history_implements_fleet_core_witness:
  "core_step\<^sup>*\<^sup>* (core_of running_db) (core_of (fold perform [Attempt (RequestCancel 5 20)] running_db))"
  by (rule history_implements_fleet_core) simp

lemma wf_attempt_view:
  assumes "well_formed d" "a \<in> set (db_attempts d)"
  shows "c_attempts (core_of d) (wa_attempt_id a) = Some (abs_attempt a)"
  using row_of_in_set [OF schema_distinct(2) [OF wfD(1) [OF assms(1)]] assms(2)] by (simp add: view_def)

lemma wf_rows_equal:
  assumes "well_formed d" "a \<in> set (db_attempts d)" "b \<in> set (db_attempts d)" "wa_attempt_id a = wa_attempt_id b"
  shows "a = b"
  using row_of_in_set [OF schema_distinct(2) [OF wfD(1) [OF assms(1)]]] assms(2-4) by (metis option.inject)

lemma wf_active_owns:
  assumes "well_formed d" "a \<in> set (db_attempts d)" "active (wa_status a)"
  shows "owns (core_of d) (abs_attempt a)"
  using attempts_own_jobsD [OF coherentD(3) [OF wfD(2) [OF assms(1)]] wf_attempt_view [OF assms(1,2)]] assms(3)
  by (simp add: abs_attempt_def)



text \<open>C14: Every active attempt holds the claim of its job: the job is claimed by an offered attempt and
  running under an accepted one, with the attempt's claim token.\<close>

theorem active_attempt_owns_job:
  assumes "well_formed d" "a \<in> set (db_attempts (fold perform ops d))" "active (wa_status a)"
  shows "\<exists>j. row_of j_id (db_jobs (fold perform ops d)) (wa_job_id a) = Some j
    \<and> j_task_submission_id j = wa_task_submission_id a \<and> j_claim_token j = Some (wa_claim_token a)
    \<and> j_status j = (if wa_status a = AttemptOffered then JobClaimed else JobRunning)"
  using wf_active_owns [OF coordinator.run_inv [OF assms(1)] assms(2,3)]
  by (auto simp: owns_def view_Some abs_attempt_def abs_job_def)

theorem active_attempt_owns_job_witness:
  "\<exists>j. row_of j_id (db_jobs running_db) 5 = Some j \<and> j_task_submission_id j = 3
    \<and> j_claim_token j = Some 7 \<and> j_status j = JobRunning"
  using active_attempt_owns_job [OF sample_well_formed(3), of "sample_attempt AttemptRunning" "[]"]
  by (simp add: sample_states sample_attempt_def)



text \<open>C16: What has ended stays ended through every later history: an attempt that is no longer active keeps
  its status and fence, a job with a result keeps its status and claim, and the fence counter of a submission
  never decreases.\<close>

theorem ended_work_is_final:
  assumes "well_formed d" "d' = fold perform ops d"
  shows "(\<forall>i a. row_of wa_attempt_id (db_attempts d) i = Some a \<longrightarrow> \<not> active (wa_status a) \<longrightarrow>
      (\<exists>a'. row_of wa_attempt_id (db_attempts d') i = Some a' \<and> wa_status a' = wa_status a
        \<and> wa_fencing_generation a' = wa_fencing_generation a \<and> wa_job_id a' = wa_job_id a))
    \<and> (\<forall>i j. row_of j_id (db_jobs d) i = Some j \<longrightarrow> final_job (j_status j) \<longrightarrow>
      (\<exists>j'. row_of j_id (db_jobs d') i = Some j' \<and> j_status j' = j_status j \<and> j_claim_token j' = j_claim_token j))
    \<and> (\<forall>i s. row_of ts_id (db_submissions d) i = Some s \<longrightarrow>
      (\<exists>s'. row_of ts_id (db_submissions d') i = Some s' \<and> ts_fencing_generation s \<le> ts_fencing_generation s'))"
proof (intro conjI allI impI)
  have kept: "settled_within (core_of d) (core_of d')"
    using refines_settled [OF assms(1) coordinator.run_moves [OF assms(1)]] by (simp add: assms(2))
  show "\<exists>a'. row_of wa_attempt_id (db_attempts d') i = Some a' \<and> wa_status a' = wa_status a
      \<and> wa_fencing_generation a' = wa_fencing_generation a \<and> wa_job_id a' = wa_job_id a"
    if "row_of wa_attempt_id (db_attempts d) i = Some a" "\<not> active (wa_status a)" for i a
    using kept that by (fastforce simp: settled_within_def map_kept_def view_def abs_attempt_def attempt_kept_def)
  show "\<exists>j'. row_of j_id (db_jobs d') i = Some j' \<and> j_status j' = j_status j \<and> j_claim_token j' = j_claim_token j"
    if "row_of j_id (db_jobs d) i = Some j" "final_job (j_status j)" for i j
    using kept that by (fastforce simp: settled_within_def map_kept_def view_def abs_job_def job_kept_def)
  show "\<exists>s'. row_of ts_id (db_submissions d') i = Some s' \<and> ts_fencing_generation s \<le> ts_fencing_generation s'"
    if "row_of ts_id (db_submissions d) i = Some s" for i s
    using kept that by (fastforce simp: settled_within_def map_kept_def view_def)
qed

theorem ended_work_is_final_witness:
  "\<exists>a'. row_of wa_attempt_id (db_attempts (fold perform [Attempt (CompleteCleanup 1 2 1 30)] fenced_db)) 6 = Some a'
    \<and> wa_status a' = AttemptExpired \<and> wa_fencing_generation a' = 1 \<and> wa_job_id a' = 5"
  using ended_work_is_final [OF sample_well_formed(4) refl, of "[Attempt (CompleteCleanup 1 2 1 30)]", THEN conjunct1,
      rule_format, of 6 "sample_attempt AttemptExpired"]
  by (simp add: sample_states sample_attempt_def)

text \<open>C17: While a worker owes the cleanup of an attempt, the job of the attempt is neither queued nor executed:
  the job stays running without an active attempt.\<close>

theorem cleanup_blocks_reexecution:
  assumes "well_formed d" "ob \<in> set (db_obligations (fold perform ops d))" "co_status ob = CleanupPending"
  shows "(\<exists>j. row_of j_id (db_jobs (fold perform ops d)) (co_job_id ob) = Some j \<and> j_status j = JobRunning)
    \<and> \<not> list_ex (\<lambda>a. wa_job_id a = co_job_id ob \<and> active (wa_status a)) (db_attempts (fold perform ops d))"
proof -
  let ?d = "fold perform ops d"
  note wf = coordinator.run_inv [OF assms(1), of ops]
  have row: "row_of co_id (db_obligations ?d) (co_id ob) = Some ob"
    by (rule row_of_in_set [OF schema_distinct(5) [OF wfD(1) [OF wf]] assms(2)])
  then have ok: "obligation_ok (core_of ?d) (abs_obligation ob)"
    using coherentD(5) [OF wfD(2) [OF wf]] unfolding obligations_own_jobs_def by (force simp: view_def)
  have "\<not> (wa_job_id a = co_job_id ob \<and> active (wa_status a))" if "a \<in> set (db_attempts ?d)" for a
  proof -
    have "\<not> owner_attempt (core_of ?d) (co_job_id ob) (wa_attempt_id a)"
      using ok assms(3) by (simp add: obligation_ok_def abs_obligation_def)
    with wf_attempt_view [OF wf that] show ?thesis by (auto simp: owner_attempt_def abs_attempt_def)
  qed
  moreover have "\<exists>j. row_of j_id (db_jobs ?d) (co_job_id ob) = Some j \<and> j_status j = JobRunning"
    using wf_obligation [OF wf row] assms(3) by metis
  ultimately show ?thesis by (auto simp: list_ex_iff)
qed

theorem cleanup_blocks_reexecution_witness:
  "\<exists>j. row_of j_id (db_jobs fenced_db) 5 = Some j \<and> j_status j = JobRunning"
  using cleanup_blocks_reexecution [OF sample_well_formed(4), of sample_obligation "[]"]
  by (simp add: sample_states sample_obligation_def)

lemma doomed_history:
  assumes "well_formed d" "doomed (core_of d) i"
  shows "\<exists>j. row_of j_id (db_jobs (fold perform ops d)) i = Some j \<and> j_status j \<in> {JobRunning, JobCancelled}"
    "a \<in> set (db_attempts (fold perform ops d)) \<Longrightarrow> wa_job_id a = i \<Longrightarrow> active (wa_status a)
      \<Longrightarrow> wa_status a = AttemptCancelRequested"
proof -
  have inv: "well_formed (fold perform ops d)" "doomed (core_of (fold perform ops d)) i"
    using doomed_job.run_inv [of d i ops] assms by simp_all
  then show "\<exists>j. row_of j_id (db_jobs (fold perform ops d)) i = Some j \<and> j_status j \<in> {JobRunning, JobCancelled}"
    by (auto simp: doomed_def view_Some)
  show "wa_status a = AttemptCancelRequested"
    if "a \<in> set (db_attempts (fold perform ops d))" "wa_job_id a = i" "active (wa_status a)"
    using inv(2) [unfolded doomed_def, THEN conjunct2, THEN conjunct1, rule_format, OF wf_attempt_view [OF inv(1) that(1)]] that
    by simp
qed

text \<open>C4: A granted cancellation is final. After any later history the job is cancelled, or still running but only for an
  attempt that was asked to stop: it is never queued, claimed, completed or failed again.\<close>

theorem granted_cancellation_is_final:
  assumes "well_formed d" "request_cancel i now d = Commit True d'"
  shows "(\<exists>j. row_of j_id (db_jobs (fold perform ops d')) i = Some j \<and> j_status j \<in> {JobRunning, JobCancelled})
    \<and> (\<forall>a \<in> set (db_attempts (fold perform ops d')). wa_job_id a = i \<longrightarrow> active (wa_status a)
        \<longrightarrow> wa_status a = AttemptCancelRequested)"
  using doomed_history [OF request_cancel_dooms(2,1) [OF assms]] by blast

theorem granted_cancellation_is_final_witness:
  "\<exists>d' j. request_cancel 5 20 fenced_db = Commit True d'
     \<and> row_of j_id (db_jobs (fold perform [Attempt (CompleteCleanup 1 2 1 30)] d')) 5 = Some j
     \<and> j_status j \<in> {JobRunning, JobCancelled}"
proof -
  obtain d' where tx: "request_cancel 5 20 fenced_db = Commit True d'"
    by (simp add: request_cancel_def cancellation_request_def cancel_job_def sample_states sample_rows Let_def)
  from granted_cancellation_is_final [OF sample_well_formed(4) tx] tx show ?thesis by blast
qed

text \<open>C18: Every job that an abort of the fleet accepted stays cancelled through every later history, in the same sense.\<close>

theorem aborted_jobs_are_final:
  assumes "well_formed d" "abort_fleet env request d = Commit (AbortApplied receipt) d'" "i \<in> set (fr_accepted_job_ids receipt)"
  shows "(\<exists>j. row_of j_id (db_jobs (fold perform ops d')) i = Some j \<and> j_status j \<in> {JobRunning, JobCancelled})
    \<and> (\<forall>a \<in> set (db_attempts (fold perform ops d')). wa_job_id a = i \<longrightarrow> active (wa_status a)
        \<longrightarrow> wa_status a = AttemptCancelRequested)"
  using doomed_history [OF abort_fleet_commit [OF assms(2,1)], OF assms(3)] by blast

theorem aborted_jobs_are_final_witness:
  "\<exists>receipt d' j. abort_fleet (20, 20) \<lparr>fq_request_id = 9, fq_scope = AbortAllPending, fq_scheduler_generation = 0,
        fq_actor = ''op'', fq_reason = ''op''\<rparr> (queued_db\<lparr>db_scheduler := (db_scheduler queued_db)\<lparr>sc_paused := True\<rparr>\<rparr>)
      = Commit (AbortApplied receipt) d'
     \<and> fr_accepted_job_ids receipt = [5]
     \<and> row_of j_id (db_jobs (fold perform [Registry (DeregisterSession 1 2 30)] d')) 5 = Some j
     \<and> j_status j \<in> {JobRunning, JobCancelled}"
proof -
  let ?d = "queued_db\<lparr>db_scheduler := (db_scheduler queued_db)\<lparr>sc_paused := True\<rparr>\<rparr>"
  have wf: "well_formed ?d" using sample_well_formed(1) by (simp add: well_formed_def schema_intros)
  obtain receipt d' where tx: "abort_fleet (20, 20) \<lparr>fq_request_id = 9, fq_scope = AbortAllPending, fq_scheduler_generation = 0,
        fq_actor = ''op'', fq_reason = ''op''\<rparr> ?d = Commit (AbortApplied receipt) d'" "fr_accepted_job_ids receipt = [5]"
    by (simp add: abort_fleet_def cancellation_request_def cancel_job_def sample_states sample_rows Let_def unstarted_def
        cancel_unstarted_def statement_eval table_checks)
  then have "5 \<in> set (fr_accepted_job_ids receipt)" by simp
  from aborted_jobs_are_final [OF wf tx(1) this] tx show ?thesis by blast
qed

end
