(* ===== verification/Lease_Signer.thy ===== *)
theory Lease_Signer
  imports Fleet_Messages
begin

text \<open>
  Lease tokens (\<open>crates/sbgh-daemon/src/fleet/lease.rs\<close>): the HMAC of the coordinates of an attempt. The
  HMAC with its hexadecimal encoding is a parameter; what the code adds is the byte string it signs.
  \<open>Uuid::as_bytes\<close> and \<open>u64::to_be_bytes\<close> are the big-endian bytes of the value.
\<close>

section \<open>Big-endian bytes\<close>

definition be_bytes :: "nat \<Rightarrow> 'a::len word \<Rightarrow> u8 list" where
  "be_bytes n w = map (\<lambda>i. ucast (drop_bit (8 * (n - 1 - i)) w)) [0..<n]"

lemma length_be_bytes [simp]: "length (be_bytes n w) = n"
  by (simp add: be_bytes_def)

lemma bit_be_bytes:
  assumes "i < 8 * n"
  shows "bit (be_bytes n w ! (n - 1 - i div 8)) (i mod 8) = bit w i"
proof -
  have "n - 1 - i div 8 < n" "n - 1 - (n - 1 - i div 8) = i div 8" using assms by auto
  then have "be_bytes n w ! (n - 1 - i div 8) = ucast (drop_bit (8 * (i div 8)) w)" by (simp add: be_bytes_def)
  then show ?thesis by (simp add: bit_ucast_iff bit_drop_bit_eq)
qed

text \<open>All the bytes determine the word.\<close>

lemma be_bytes_inject:
  fixes w v :: "'a::len word"
  assumes "be_bytes n w = be_bytes n v" "LENGTH('a) \<le> 8 * n"
  shows "w = v"
proof (rule bit_word_eqI)
  fix i assume "i < LENGTH('a)"
  then have "i < 8 * n" using assms(2) by simp
  from bit_be_bytes [OF this, of w] bit_be_bytes [OF this, of v] show "bit w i = bit v i" by (simp add: assms(1))
qed

section \<open>Tokens\<close>

record lease_signer =
  sg_key :: "u8 list"
  sg_hmac_hex :: "u8 list \<Rightarrow> u8 list \<Rightarrow> string"

definition signing_bytes :: "uuid \<Rightarrow> uuid \<Rightarrow> uuid \<Rightarrow> u64 \<Rightarrow> u8 list" where
  "signing_bytes worker_id worker_session_id attempt_id fencing_generation =
     be_bytes 16 worker_id @ be_bytes 16 worker_session_id @ be_bytes 16 attempt_id @ be_bytes 8 fencing_generation"

definition issue :: "lease_signer \<Rightarrow> uuid \<Rightarrow> uuid \<Rightarrow> uuid \<Rightarrow> u64 \<Rightarrow> string" where
  "issue signer worker_id worker_session_id attempt_id fencing_generation =
     sg_hmac_hex signer (sg_key signer) (signing_bytes worker_id worker_session_id attempt_id fencing_generation)"

definition verify :: "lease_signer \<Rightarrow> uuid \<Rightarrow> attempt_identity \<Rightarrow> bool" where
  "verify signer worker_id identity \<longleftrightarrow>
     issue signer worker_id (ai_worker_session_id identity) (ai_attempt_id identity) (ai_fencing_generation identity)
       = ai_lease_token identity"

lemma signing_bytes_inject:
  "signing_bytes w s a f = signing_bytes w' s' a' f' \<longleftrightarrow> w = w' \<and> s = s' \<and> a = a' \<and> f = f'"
  by (auto simp: signing_bytes_def dest!: be_bytes_inject)

text \<open>While the HMAC does not collide on the messages in question, a token is bound to every coordinate.\<close>

definition collision_free :: "lease_signer \<Rightarrow> u8 list set \<Rightarrow> bool" where
  "collision_free signer messages \<longleftrightarrow> inj_on (sg_hmac_hex signer (sg_key signer)) messages"

lemma verify_issued:
  assumes "collision_free signer messages" "verify signer w identity" "ai_lease_token identity = issue signer w' s a f"
    "signing_bytes w (ai_worker_session_id identity) (ai_attempt_id identity) (ai_fencing_generation identity) \<in> messages"
    "signing_bytes w' s a f \<in> messages"
  shows "w = w' \<and> ai_worker_session_id identity = s \<and> ai_attempt_id identity = a \<and> ai_fencing_generation identity = f"
proof -
  have "signing_bytes w (ai_worker_session_id identity) (ai_attempt_id identity) (ai_fencing_generation identity) = signing_bytes w' s a f"
    by (rule inj_onD [OF assms(1) [unfolded collision_free_def] _ assms(4,5)])
      (use assms(2,3) in \<open>simp add: verify_def issue_def\<close>)
  then show ?thesis by (simp add: signing_bytes_inject)
qed

end
