(* ===== verification/Fleet_Service.thy ===== *)
theory Fleet_Service
  imports Fleet_Machine Lease_Signer "HOL-Library.AList"
begin

text \<open>
  The request handlers of the fleet service (\<open>crates/sbgh-daemon/src/fleet/service.rs\<close>): one definition per
  RPC of the workers, and the maintenance tick.

  A handler awaits store operations, the artifact store, the token cache and clocks. At each of these
  points other transactions may have been committed, so a handler is a function of a list of environments,
  one per point: what the others committed before it, the clocks, the fresh identities and the answers of
  the outside world. A handler whose environments are used up is still waiting (\<open>None\<close>). A connection to
  the database may be lost before an operation, or after it was committed and before its answer arrived.

  The first sections are the vocabulary of the handlers, the next ones follow the source.
\<close>

section \<open>Errors\<close>

datatype service_code =
  InvalidArgument | PermissionDenied | FailedPrecondition | ResourceExhausted | Unavailable | Internal

record service_error =
  se_code :: service_code
  se_stable_code :: string
  se_message :: string
  se_retryable :: bool
  se_retry_after_ms :: "u64 option"

definition service_error :: "service_code \<Rightarrow> string \<Rightarrow> string \<Rightarrow> bool \<Rightarrow> service_error" where
  "service_error status code message retryable =
     \<lparr>se_code = status, se_stable_code = code, se_message = message, se_retryable = retryable,
      se_retry_after_ms = None\<rparr>"

definition internal :: service_error where
  "internal = service_error Internal ''internal_error'' ''worker fleet operation failed'' True"

definition stale_attempt :: service_error where
  "stale_attempt = service_error FailedPrecondition ''stale_attempt''
     ''attempt is expired, fenced, or no longer current'' False"

definition bad_request :: "string \<Rightarrow> service_error" where
  "bad_request message = service_error InvalidArgument ''invalid_request'' message False"

definition wire_error :: "protocol_error \<Rightarrow> service_error" where
  "wire_error e = service_error InvalidArgument ''invalid_protocol_message'' (protocol_error_to_string e) False"

primrec registration_error_to_string :: "session_registration_error \<Rightarrow> string" where
  "registration_error_to_string Superseded = ''worker session has been superseded or deregistered''"
| "registration_error_to_string FactsChanged = ''worker session registration facts changed''"
| "registration_error_to_string RecoveryPending = ''worker session recovery is waiting for attempt expiry''"
| "registration_error_to_string ProtocolIncompatible =
     ''worker protocol is incompatible with the current compatibility floor''"

primrec registration_code :: "session_registration_error \<Rightarrow> string \<times> bool" where
  "registration_code Superseded = (''session_superseded'', False)"
| "registration_code FactsChanged = (''session_facts_changed'', False)"
| "registration_code RecoveryPending = (''session_recovery_pending'', True)"
| "registration_code ProtocolIncompatible = (''protocol_incompatible'', False)"

definition fleet_store_error :: "store_error \<Rightarrow> service_error" where
  "fleet_store_error error =
     (case error of
        FleetSessionInactive \<Rightarrow> service_error FailedPrecondition ''session_recovery_required''
          ''worker session is not active'' False
      | SessionRegistration reason \<Rightarrow>
          (case registration_code reason of (code, retryable) \<Rightarrow>
             service_error FailedPrecondition code (registration_error_to_string reason) retryable)
      | _ \<Rightarrow> internal)"

section \<open>The outside world\<close>

text \<open>The methods of the \<open>ArtifactStore\<close> trait that the service calls, as they answer at one point.\<close>

record header_value =
  hv_name :: string
  hv_value :: string

record artifact_grant_response =
  gp_method :: string
  gp_key :: string
  gp_url :: string
  gp_headers :: "header_value list"
  gp_expires_at_ms :: int

record artifact_store =
  as_put_grant :: "string \<Rightarrow> u64 \<Rightarrow> string \<Rightarrow> u64 \<Rightarrow> artifact_grant_response option"
  as_get_grant :: "string \<Rightarrow> u64 \<Rightarrow> artifact_grant_response option"
  as_verify_upload :: "artifact_descriptor \<Rightarrow> bool"
  as_promote_upload :: "artifact_descriptor \<Rightarrow> bool"
  as_delete_staging :: "string \<Rightarrow> bool"
  as_read :: "string \<Rightarrow> string option"

datatype connection = Connected | LostBefore | LostAfter

record env =
  e_others :: "fleet_op list"
  e_connection :: connection
  e_now :: instant
  e_utc :: instant
  e_monotonic :: instant
  e_ids :: new_ids
  e_locked :: "uuid \<Rightarrow> bool"
  e_quiescing :: bool
  e_polling :: "(uuid \<times> uuid) set"
  e_artifacts :: artifact_store
  e_mint_token :: "int \<Rightarrow> int \<Rightarrow> (string \<times> instant) option"

type_synonym ('e, 'a) program = "env list \<Rightarrow> db \<Rightarrow> (('e + 'a) \<times> db) option"
type_synonym 'a handler = "(service_error, 'a) program"

section \<open>Handlers\<close>

definition reply :: "'a \<Rightarrow> ('e, 'a) program" where
  "reply a es d = Some (Inr a, d)"

definition fail :: "'e \<Rightarrow> ('e, 'a) program" where
  "fail e es d = Some (Inl e, d)"

definition await :: "(env \<Rightarrow> db \<Rightarrow> 'x \<times> db) \<Rightarrow> ('x \<Rightarrow> ('e, 'a) program) \<Rightarrow> ('e, 'a) program" where
  "await act k es d =
     (case es of [] \<Rightarrow> None
      | e # es' \<Rightarrow> (case act e (fold perform (e_others e) d) of (x, d') \<Rightarrow> k x es' d'))"

text \<open>The operator \<open>?\<close> on a result at hand.\<close>

definition proceed :: "'e + 'x \<Rightarrow> ('x \<Rightarrow> ('e, 'a) program) \<Rightarrow> ('e, 'a) program" where
  "proceed r k = (case r of Inl e \<Rightarrow> fail e | Inr x \<Rightarrow> k x)"

text \<open>A store operation and a query, with the translation of their errors.\<close>

definition transact :: "env \<Rightarrow> (db \<Rightarrow> 'x outcome) \<Rightarrow> db \<Rightarrow> (store_error + 'x) \<times> db" where
  "transact e tx d =
     (case e_connection e of
        Connected \<Rightarrow> run_tx tx d
      | LostBefore \<Rightarrow> (Inl Database, d)
      | LostAfter \<Rightarrow> (Inl Database, snd (run_tx tx d)))"

definition store ::
  "(store_error \<Rightarrow> 'e) \<Rightarrow> (env \<Rightarrow> db \<Rightarrow> 'x outcome) \<Rightarrow> ('x \<Rightarrow> ('e, 'a) program) \<Rightarrow> ('e, 'a) program" where
  "store err tx k = await (\<lambda>e d. transact e (tx e) d)
     (\<lambda>r. case r of Inl e \<Rightarrow> fail (err e) | Inr x \<Rightarrow> k x)"

definition query ::
  "(store_error \<Rightarrow> 'e) \<Rightarrow> (env \<Rightarrow> db \<Rightarrow> store_error + 'x) \<Rightarrow> ('x \<Rightarrow> ('e, 'a) program) \<Rightarrow> ('e, 'a) program" where
  "query err q k = await (\<lambda>e d. (if e_connection e = Connected then q e d else Inl Database, d))
     (\<lambda>r. case r of Inl e \<Rightarrow> fail (err e) | Inr x \<Rightarrow> k x)"

definition observe :: "(env \<Rightarrow> 'x) \<Rightarrow> ('x \<Rightarrow> ('e, 'a) program) \<Rightarrow> ('e, 'a) program" where
  "observe f = await (\<lambda>e d. (f e, d))"

text \<open>An optional answer whose absence means that the attempt is stale.\<close>

definition or_stale :: "('x \<Rightarrow> 'a handler) \<Rightarrow> 'x option \<Rightarrow> 'a handler" where
  "or_stale k x = (case x of None \<Rightarrow> fail stale_attempt | Some y \<Rightarrow> k y)"

section \<open>The service\<close>

record fleet_config =
  fg_heartbeat_seconds :: u64
  fg_lease_seconds :: u64
  fg_offer_seconds :: u64
  fg_session_seconds :: u64
  fg_long_poll_seconds :: u64
  fg_upload_grant_seconds :: u64
  fg_staging_gc_grace_seconds :: u64
  fg_max_artifact_bytes :: u64
  fg_max_attempt_artifact_bytes :: u64

text \<open>\<open>RunSummary\<close>, \<open>RunData\<close> and \<open>RunResult\<close> of a \<open>run.json\<close>; an \<open>f64\<close> is its bit pattern.\<close>

type_synonym f64 = "64 word"

record run_summary =
  rm_total_duration_us :: "u64 option"
  rm_setup_duration_us :: "u64 option"
  rm_execution_duration_us :: "u64 option"
  rm_commit_duration_us :: "u64 option"
  rm_transactions :: "u64 option"
  rm_clarity_runtime :: "u64 option"
  rm_write_length :: "u64 option"
  rm_read_length :: "u64 option"

record run_data =
  rd_warmup_blocks :: "u64 option"
  rd_measured_blocks :: "u64 option"
  rd_duration_secs :: "f64 option"
  rd_summary :: "run_summary option"

record run_result =
  rn_schema_version :: "u32 option"
  rn_result_type :: "string option"
  rn_result_version :: "u32 option"
  rn_duration_secs :: "f64 option"
  rn_data :: "run_data option"
  rn_result :: "run_data option"

text \<open>What the service needs of serde and of floating point: the canonical values of digests, the values
  of a manifest and of a block validation result, parsers for a \<open>run.json\<close>, \<open>secs_to_us\<close>, and \<open>Number::as_i64\<close> on
  the decimal notation of a number.\<close>

record service_codec =
  cx_external :: external_codec
  cx_artifacts_value :: "artifact_descriptor list \<Rightarrow> json"
  cx_block_validation_value :: "block_validation_result option \<Rightarrow> json"
  cx_parse_json :: "string \<Rightarrow> json option"
  cx_parse_run :: "string \<Rightarrow> run_result option"
  cx_secs_to_us :: "f64 \<Rightarrow> int"
  cx_number_as_i64 :: "string \<Rightarrow> int option"

record fleet_service =
  fv_signer :: lease_signer
  fv_config :: fleet_config
  fv_codec :: service_codec

text \<open>\<open>Duration::from_std\<close> of whole seconds, as microseconds: it fails beyond \<open>i64::MAX\<close> milliseconds.
  \<open>Duration::as_millis\<close> cast to \<open>u64\<close>.\<close>

definition chrono_duration :: "u64 \<Rightarrow> service_error + duration" where
  "chrono_duration secs =
     (if unat secs \<le> (2 ^ 63 - 1) div 1000 then Inr (int (unat secs) * 1000000) else Inl internal)"

definition seconds_as_millis :: "u64 \<Rightarrow> u64" where
  "seconds_as_millis secs = of_nat (unat secs * 1000)"

definition validated :: "protocol_error + unit \<Rightarrow> 'a handler \<Rightarrow> 'a handler" where
  "validated r k = (case r of Inl e \<Rightarrow> fail (wire_error e) | Inr _ \<Rightarrow> k)"

definition authorize_peer :: "string \<Rightarrow> (worker_authorization \<Rightarrow> 'a handler) \<Rightarrow> 'a handler" where
  "authorize_peer identity_key_sha256 k =
     query (\<lambda>_. internal) (\<lambda>e. authorize_worker identity_key_sha256) (\<lambda>worker.
       case worker of
         None \<Rightarrow> fail (service_error PermissionDenied ''worker_not_registered''
                  ''worker identity or enabled state is invalid'' False)
       | Some w \<Rightarrow> k w)"

definition authorize_attempt :: "fleet_service \<Rightarrow> uuid \<Rightarrow> attempt_identity \<Rightarrow> 'a handler \<Rightarrow> 'a handler" where
  "authorize_attempt state worker_id identity k =
     (if verify (fv_signer state) worker_id identity then k
      else fail (service_error PermissionDenied ''invalid_lease_token'' ''attempt authorization is invalid'' False))"

text \<open>The opening that the handlers of an attempt share: the peer's worker, the request's validity and the
  token.\<close>

definition for_attempt ::
  "fleet_service \<Rightarrow> string \<Rightarrow> protocol_error + unit \<Rightarrow> attempt_identity \<Rightarrow> (uuid \<Rightarrow> 'a handler) \<Rightarrow> 'a handler" where
  "for_attempt state peer valid identity k =
     authorize_peer peer (\<lambda>worker. validated valid
       (authorize_attempt state (wz_worker_id worker) identity (k (wz_worker_id worker))))"

section \<open>Registration\<close>

record register_session_response =
  ro_protocol_version :: u16
  ro_protocol_contract :: "protocol_contract option"
  ro_heartbeat_interval_ms :: u64
  ro_lease_ttl_ms :: u64
  ro_server_time_ms :: int

record registration_check_response =
  rk_protocol_version :: u16
  rk_protocol_contract :: "protocol_contract option"
  rk_worker_id :: uuid
  rk_effective_capabilities :: "worker_capability set"
  rk_measurement_profile :: "string option"
  rk_draining :: bool
  rk_heartbeat_interval_ms :: u64
  rk_lease_ttl_ms :: u64
  rk_server_time_ms :: int

definition effective_capabilities ::
  "worker_authorization \<Rightarrow> worker_capability set \<Rightarrow> service_error + worker_capability set" where
  "effective_capabilities configured advertised =
     (let effective = advertised \<inter> set (wz_allowed_capabilities configured)
      in if effective = {} then Inl (service_error PermissionDenied ''capability_not_authorized''
              ''worker advertises no server-authorized capability'' False)
         else Inr effective)"

definition register ::
  "fleet_service \<Rightarrow> string \<Rightarrow> register_session_request \<Rightarrow> register_session_response handler" where
  "register state peer request =
     authorize_peer peer (\<lambda>configured.
     validated (validate_register_session request) (
     proceed (effective_capabilities configured (rr_advertised_capabilities request)) (\<lambda>_.
     proceed (chrono_duration (fg_session_seconds (fv_config state))) (\<lambda>session_ttl.
     store fleet_store_error (\<lambda>e. register_session (wz_worker_id configured) peer request session_ttl (e_now e) (e_utc e)) (\<lambda>session.
     observe e_utc (\<lambda>utc.
     reply \<lparr>ro_protocol_version = pc_revision (az_protocol_contract session),
            ro_protocol_contract = map_option (\<lambda>_. az_protocol_contract session) (rr_protocol_offer request),
            ro_heartbeat_interval_ms = seconds_as_millis (fg_heartbeat_seconds (fv_config state)),
            ro_lease_ttl_ms = seconds_as_millis (fg_lease_seconds (fv_config state)),
            ro_server_time_ms = millis utc\<rparr>))))))"

definition negotiate_contract :: "u16 \<Rightarrow> protocol_offer option \<Rightarrow> u16 \<Rightarrow> service_error + protocol_contract" where
  "negotiate_contract version offer minimum_revision =
     (case and_then (registration version offer) (\<lambda>o1. negotiate o1 minimum_revision) of
        Inl e \<Rightarrow> Inl (service_error FailedPrecondition ''protocol_incompatible'' (negotiation_error_to_string e) False)
      | Inr contract \<Rightarrow> Inr contract)"

definition registration_readiness ::
  "fleet_service \<Rightarrow> string \<Rightarrow> registration_check_request \<Rightarrow> u16 \<Rightarrow> registration_check_response handler" where
  "registration_readiness state peer request minimum_revision =
     authorize_peer peer (\<lambda>configured.
     validated (validate_registration_check request) (
     proceed (negotiate_contract (rc_protocol_version request) (rc_protocol_offer request) minimum_revision) (\<lambda>contract.
     proceed (effective_capabilities configured (rc_advertised_capabilities request)) (\<lambda>effective.
     observe e_utc (\<lambda>utc.
     reply \<lparr>rk_protocol_version = pc_revision contract,
            rk_protocol_contract = map_option (\<lambda>_. contract) (rc_protocol_offer request),
            rk_worker_id = wz_worker_id configured, rk_effective_capabilities = effective,
            rk_measurement_profile = wz_measurement_profile configured, rk_draining = wz_draining configured,
            rk_heartbeat_interval_ms = seconds_as_millis (fg_heartbeat_seconds (fv_config state)),
            rk_lease_ttl_ms = seconds_as_millis (fg_lease_seconds (fv_config state)),
            rk_server_time_ms = millis utc\<rparr>)))))"

definition check_registration ::
  "fleet_service \<Rightarrow> string \<Rightarrow> registration_check_request \<Rightarrow> registration_check_response handler" where
  "check_registration state peer request =
     query (\<lambda>_. internal) (\<lambda>e d. Inr (pp_minimum_revision (db_protocol d))) (registration_readiness state peer request)"

section \<open>Offers\<close>

datatype poll_response = NoWork u64 | PollDrain | PollShutdownAfterIdle | Offer work_offer

definition signed_offer :: "fleet_service \<Rightarrow> uuid \<Rightarrow> work_offer \<Rightarrow> work_offer" where
  "signed_offer state worker_id offer =
     (let identity = wo_identity offer
      in offer\<lparr>wo_identity := identity\<lparr>ai_lease_token := issue (fv_signer state) worker_id
           (ai_worker_session_id identity) (ai_attempt_id identity) (ai_fencing_generation identity)\<rparr>\<rparr>)"

text \<open>A continuation is only used with fewer environments; this is what ends the long poll below.\<close>

lemma await_cong [fundef_cong]:
  assumes "es = es'" "d = d'" "act = act'"
    "\<And>x e rest d1. es' = e # rest \<Longrightarrow> k x rest d1 = k' x rest d1"
  shows "await act k es d = await act' k' es' d'"
  using assms by (auto simp: await_def split: list.split prod.split)

lemma store_cong [fundef_cong]:
  assumes "es = es'" "d = d'" "err = err'" "tx = tx'"
    "\<And>x e rest d1. es' = e # rest \<Longrightarrow> k x rest d1 = k' x rest d1"
  shows "store err tx k es d = store err' tx' k' es' d'"
  unfolding store_def using assms by (intro await_cong) (auto split: sum.split)

lemma query_cong [fundef_cong]:
  assumes "es = es'" "d = d'" "err = err'" "q = q'"
    "\<And>x e rest d1. es' = e # rest \<Longrightarrow> k x rest d1 = k' x rest d1"
  shows "query err q k es d = query err' q' k' es' d'"
  unfolding query_def using assms by (intro await_cong) (auto split: sum.split)

lemma observe_cong [fundef_cong]:
  assumes "es = es'" "d = d'" "f = f'"
    "\<And>x e rest d1. es' = e # rest \<Longrightarrow> k x rest d1 = k' x rest d1"
  shows "observe f k es d = observe f' k' es' d'"
  unfolding observe_def using assms by (intro await_cong) auto

lemma proceed_cong [fundef_cong]:
  assumes "r = r'" "es = es'" "d = d'" "\<And>x. r' = Inr x \<Longrightarrow> k x es' d' = k' x es' d'"
  shows "proceed r k es d = proceed r' k' es' d'"
  using assms by (simp add: proceed_def split: sum.split)

text \<open>One round of the long poll, up to its continuation.\<close>

definition poll_round ::
  "fleet_service \<Rightarrow> uuid \<Rightarrow> uuid \<Rightarrow> instant \<Rightarrow> poll_response handler \<Rightarrow> poll_response handler" where
  "poll_round state worker_id session deadline again =
     observe e_quiescing (\<lambda>quiescing. if quiescing then reply (NoWork 1000) else
     proceed (chrono_duration (fg_offer_seconds (fv_config state))) (\<lambda>offer_ttl.
     proceed (chrono_duration (fg_lease_seconds (fv_config state))) (\<lambda>lease_ttl.
     store fleet_store_error (\<lambda>e. poll_offer worker_id session offer_ttl lease_ttl (e_now e) (e_utc e) (e_ids e) (e_locked e))
       (\<lambda>offered. case offered of
          Some offered \<Rightarrow> reply (Offer (signed_offer state worker_id (oa_offer offered)))
        | None \<Rightarrow>
     query fleet_store_error (\<lambda>e. idle_worker_control worker_id session (e_now e)) (\<lambda>control.
       case control of
         LegacyDrain \<Rightarrow> reply PollDrain
       | ControlShutdownAfterIdle \<Rightarrow> reply PollShutdownAfterIdle
       | ControlPoll \<Rightarrow>
     query (\<lambda>_. internal) (\<lambda>e d. Inr (session_is_active worker_id session (e_now e) d)) (\<lambda>live.
       if \<not> live then fail (fleet_store_error FleetSessionInactive) else
     observe e_monotonic (\<lambda>now. if now \<ge> deadline then reply (NoWork 1000) else
     observe e_quiescing (\<lambda>quiescing. if quiescing then reply (NoWork 1000) else again))))))))"

lemma poll_round_cong [fundef_cong]:
  assumes "state = state'" "w = w'" "s = s'" "deadline = deadline'" "es = es'" "d = d'"
    "\<And>rest d1. length rest < length es' \<Longrightarrow> again rest d1 = again' rest d1"
  shows "poll_round state w s deadline again es d = poll_round state' w' s' deadline' again' es' d'"
  unfolding poll_round_def assms(1-6)
  by (auto intro!: observe_cong proceed_cong store_cong query_cong assms(7) split: option.split idle_worker_control_t.split)

function poll_loop :: "fleet_service \<Rightarrow> uuid \<Rightarrow> uuid \<Rightarrow> instant \<Rightarrow> poll_response handler" where
  "poll_loop state worker_id session deadline es d =
     poll_round state worker_id session deadline (poll_loop state worker_id session deadline) es d"
  by pat_completeness auto
termination by (relation "measure (\<lambda>(state, w, s, deadline, es, d). length es)") auto

declare poll_loop.simps [simp del]

text \<open>A loop that has used up its environments is waiting, so enough rounds are the loop.\<close>

primrec poll_rounds :: "fleet_service \<Rightarrow> uuid \<Rightarrow> uuid \<Rightarrow> instant \<Rightarrow> nat \<Rightarrow> poll_response handler" where
  "poll_rounds state worker_id session deadline 0 = (\<lambda>es d. None)"
| "poll_rounds state worker_id session deadline (Suc n) =
     poll_round state worker_id session deadline (poll_rounds state worker_id session deadline n)"

lemma poll_loop_rounds: "length es < n \<Longrightarrow> poll_loop state w s deadline es d = poll_rounds state w s deadline n es d"
proof (induction n arbitrary: es d)
  case (Suc n)
  show ?case
    unfolding poll_loop.simps [of state w s deadline es] poll_rounds.simps
    by (rule poll_round_cong) (auto intro!: Suc.IH dest: less_le_trans [OF _ Suc.prems [unfolded less_Suc_eq_le]])
qed simp

text \<open>\<open>ActivePolls::enter\<close>: the guard of a session that no other request is polling.\<close>

definition enter :: "(uuid \<times> uuid) set \<Rightarrow> uuid \<Rightarrow> uuid \<Rightarrow> (uuid \<times> uuid) option" where
  "enter sessions worker_id session =
     (if (worker_id, session) \<in> sessions then None else Some (worker_id, session))"

definition poll_work :: "fleet_service \<Rightarrow> string \<Rightarrow> uuid \<Rightarrow> poll_response handler" where
  "poll_work state peer session =
     authorize_peer peer (\<lambda>worker.
     validated (session_id session) (
     let worker_id = wz_worker_id worker in
     query (\<lambda>_. internal) (\<lambda>e d. Inr (session_is_active worker_id session (e_now e) d)) (\<lambda>live.
     if \<not> live then fail (fleet_store_error FleetSessionInactive) else
     observe (\<lambda>e. enter (e_polling e) worker_id session) (\<lambda>guard.
     case guard of
       None \<Rightarrow> fail (service_error FailedPrecondition ''poll_already_active''
                ''this worker session already has an active long poll'' True)
     | Some _ \<Rightarrow>
     observe e_monotonic (\<lambda>now.
     poll_loop state worker_id session
       (now + int (unat (fg_long_poll_seconds (fv_config state))) * 1000000))))))"

definition accept :: "fleet_service \<Rightarrow> string \<Rightarrow> attempt_identity \<Rightarrow> assignment handler" where
  "accept state peer identity =
     for_attempt state peer (validate_identity identity) identity (\<lambda>worker_id.
     query (\<lambda>_. internal) (\<lambda>e. offered_assignment worker_id identity (e_now e)) (or_stale (\<lambda>offered.
     proceed (chrono_duration (fg_lease_seconds (fv_config state))) (\<lambda>lease_ttl.
     store fleet_store_error (\<lambda>e. accept_offer worker_id identity lease_ttl (e_now e)) (\<lambda>accepted.
     if \<not> accepted then fail stale_attempt else
     let assignment = \<lparr>as_identity = identity, as_trace_id = wo_trace_id (oa_offer offered),
           as_context = \<lparr>ac_job_id = wo_job_id (oa_offer offered), ac_repository = oa_context_repository offered,
             ac_commit = oa_context_commit offered\<rparr>,
           as_payload = oa_payload offered, as_payload_hash = wo_payload_hash (oa_offer offered),
           as_vcpu_cpuset = oa_vcpu_cpuset offered\<rparr>
     in validated (validate_assignment (cx_external (fv_codec state)) assignment) (reply assignment))))))"

section \<open>Attempts\<close>

text \<open>The lease renewal that several handlers end or begin with.\<close>

definition renew_lease ::
  "fleet_service \<Rightarrow> uuid \<Rightarrow> attempt_identity \<Rightarrow> u32 option \<Rightarrow> (attempt_heartbeat \<Rightarrow> 'a handler) \<Rightarrow> 'a handler" where
  "renew_lease state worker_id identity reliable_buffer_len k =
     proceed (chrono_duration (fg_lease_seconds (fv_config state))) (\<lambda>lease_ttl.
     store (\<lambda>_. internal) (\<lambda>e. heartbeat_attempt worker_id identity lease_ttl reliable_buffer_len (e_now e)) (or_stale k))"

definition repository_credential ::
  "fleet_service \<Rightarrow> string \<Rightarrow> attempt_identity \<Rightarrow> (string \<times> int) handler" where
  "repository_credential state peer identity =
     for_attempt state peer (validate_identity identity) identity (\<lambda>worker_id.
     renew_lease state worker_id identity None (\<lambda>heartbeat.
     if ah_desired_state heartbeat = Cancel
     then fail (service_error FailedPrecondition ''attempt_cancelled''
            ''repository credentials are unavailable after cancellation is committed'' False)
     else
     query (\<lambda>_. internal) (\<lambda>e. offered_assignment worker_id identity (e_now e)) (or_stale (\<lambda>offered.
     observe (\<lambda>e. e_mint_token e (oa_installation_id offered) (oa_github_repo_id offered)) (\<lambda>token.
     case token of
       None \<Rightarrow> fail (service_error Unavailable ''repository_token_unavailable''
                ''repository credential is temporarily unavailable'' True)
     | Some (secret, expires_at) \<Rightarrow> reply (secret, millis expires_at))))))"

definition heartbeat :: "fleet_service \<Rightarrow> string \<Rightarrow> heartbeat_request \<Rightarrow> heartbeat_response handler" where
  "heartbeat state peer request =
     for_attempt state peer (validate_heartbeat request) (hb_identity request) (\<lambda>worker_id.
     renew_lease state worker_id (hb_identity request) (Some (hb_reliable_buffer_len request)) (\<lambda>beat.
     reply \<lparr>hr_desired_state = ah_desired_state beat, hr_lease_expires_at_ms = millis (ah_lease_expires_at beat),
            hr_highest_contiguous_reliable_seq = ah_highest_contiguous_reliable_seq beat\<rparr>))"

definition accept_event_ingest :: "event_ingest \<Rightarrow> service_error + unit" where
  "accept_event_ingest ingest =
     (case ingest of
        EventInserted \<Rightarrow> Inr ()
      | EventDuplicate \<Rightarrow> Inr ()
      | EventStale \<Rightarrow> Inl stale_attempt
      | EventConflict \<Rightarrow> Inl (service_error FailedPrecondition ''event_sequence_conflict''
          ''reliable event sequence was reused with different content'' False))"

definition event :: "fleet_service \<Rightarrow> string \<Rightarrow> reliable_event_envelope \<Rightarrow> u64 handler" where
  "event state peer request =
     for_attempt state peer (validate_reliable_event (cx_external (fv_codec state)) request) (re_identity request) (\<lambda>worker_id.
     store (\<lambda>_. internal) (\<lambda>e. ingest_reliable_event worker_id request (e_now e)) (\<lambda>ingest.
     proceed (accept_event_ingest ingest) (\<lambda>_.
     renew_lease state worker_id (re_identity request) None (\<lambda>beat.
     reply (ah_highest_contiguous_reliable_seq beat)))))"

definition progress :: "fleet_service \<Rightarrow> string \<Rightarrow> progress_request \<Rightarrow> bool handler" where
  "progress state peer request =
     for_attempt state peer (validate_progress request) (pg_identity request) (\<lambda>worker_id.
     query (\<lambda>_. internal) (\<lambda>e. offered_assignment worker_id (pg_identity request) (e_now e)) (or_stale (\<lambda>offered.
     if wo_trace_id (oa_offer offered) \<noteq> pg_trace_id request
     then fail (service_error FailedPrecondition ''trace_mismatch''
            ''progress trace does not match the active attempt'' False)
     else
     store (\<lambda>_. internal) (\<lambda>e. ingest_progress worker_id request (e_now e)) (\<lambda>accepted.
     if \<not> accepted then fail stale_attempt else reply True))))"

section \<open>Artifacts\<close>

definition artifact_staging_key ::
  "external_codec \<Rightarrow> uuid \<Rightarrow> string \<Rightarrow> u64 \<Rightarrow> string \<Rightarrow> protocol_error + string" where
  "artifact_staging_key ext attempt_id logical_key bytes digest =
     and_then (payload_digest ext Inr (JObject
         [(''attempt_id'', JString (uuid_to_string attempt_id)), (''logical_key'', JString logical_key),
          (''size'', JNumber (show_nat (unat bytes))), (''sha256'', JString digest)])) (\<lambda>identity.
       Inr (''staging/'' @ uuid_to_string attempt_id @ ''/'' @ identity @ ''/'' @ logical_key))"

definition store_unavailable :: service_error where
  "store_unavailable = service_error Unavailable ''artifact_store_unavailable''
     ''fleet mode requires a reachable S3-compatible artifact store'' True"

primrec is_seed :: "task_payload \<Rightarrow> string \<Rightarrow> bool" where
  "is_seed (TaskBenchmark payload) key \<longleftrightarrow> bp_sqlite_seed_key payload = Some key"
| "is_seed TaskBuildOnly key \<longleftrightarrow> False"
| "is_seed (TaskBlockValidation payload) key \<longleftrightarrow> False"

definition read_grant ::
  "fleet_service \<Rightarrow> uuid \<Rightarrow> artifact_grant_request \<Rightarrow> artifact_grant_response handler" where
  "read_grant state worker_id request =
     query (\<lambda>_. internal) (\<lambda>e. offered_assignment worker_id (ag_identity request) (e_now e)) (or_stale (\<lambda>offered.
     if \<not> is_seed (oa_payload offered) (ag_key request)
     then fail (service_error PermissionDenied ''artifact_read_forbidden''
            ''artifact is not an input of this assignment'' False)
     else observe (\<lambda>e. as_get_grant (e_artifacts e) (ag_key request) (fg_upload_grant_seconds (fv_config state))) (\<lambda>grant.
     case grant of None \<Rightarrow> fail store_unavailable | Some g \<Rightarrow> reply g)))"

definition write_grant ::
  "fleet_service \<Rightarrow> uuid \<Rightarrow> artifact_grant_request \<Rightarrow> artifact_grant_response handler" where
  "write_grant state worker_id request =
     query (\<lambda>_. internal) (\<lambda>e. offered_assignment worker_id (ag_identity request) (e_now e)) (or_stale (\<lambda>offered.
     if \<not> starts_with (ag_key request) (uuid_to_string (wo_job_id (oa_offer offered)) @ ''/'')
     then fail (service_error PermissionDenied ''artifact_key_forbidden''
            ''output artifacts must stay inside the assigned job namespace'' False)
     else case ag_size request of None \<Rightarrow> fail (bad_request ''artifact size is required'') | Some bytes \<Rightarrow>
     case ag_sha256 request of None \<Rightarrow> fail (bad_request ''artifact SHA-256 is required'') | Some digest \<Rightarrow>
     if bytes > fg_max_artifact_bytes (fv_config state)
     then fail (service_error ResourceExhausted ''artifact_too_large''
            ''artifact exceeds the configured object limit'' False)
     else case artifact_staging_key (cx_external (fv_codec state)) (ai_attempt_id (ag_identity request))
            (ag_key request) bytes digest of Inl e \<Rightarrow> fail (wire_error e) | Inr key \<Rightarrow>
     observe (\<lambda>e. as_put_grant (e_artifacts e) key bytes digest (fg_upload_grant_seconds (fv_config state))) (\<lambda>grant.
     case grant of None \<Rightarrow> fail store_unavailable | Some g \<Rightarrow>
     observe e_utc (\<lambda>utc.
     proceed (chrono_duration (fg_upload_grant_seconds (fv_config state))) (\<lambda>ttl.
     store (\<lambda>_. internal) (\<lambda>e. record_artifact_grant \<lparr>gt_attempt_id = ai_attempt_id (ag_identity request),
         gt_object_key = key, gt_logical_key = ag_key request, gt_size = Some bytes, gt_sha256 = Some digest,
         gt_expires_at = utc + ttl\<rparr> (e_now e)) (\<lambda>recorded.
     if \<not> recorded then fail stale_attempt else reply g))))))"

definition artifact_grant ::
  "fleet_service \<Rightarrow> string \<Rightarrow> artifact_grant_request \<Rightarrow> artifact_grant_response handler" where
  "artifact_grant state peer request =
     for_attempt state peer (validate_artifact_grant request) (ag_identity request) (\<lambda>worker_id.
     if ag_operation request = Get then read_grant state worker_id request else write_grant state worker_id request)"

section \<open>Terminal results\<close>

definition validate_terminal_for_assignment :: "task_payload \<Rightarrow> terminal_outcome \<Rightarrow> service_error + unit" where
  "validate_terminal_for_assignment payload outcome =
     (let mismatch = service_error FailedPrecondition ''block_validation_result_mismatch''
            ''completed block-validation result does not match its pinned assignment'' False
      in case outcome of
        Completed _ block_validation \<Rightarrow>
          (case (payload, block_validation) of
             (TaskBlockValidation p, Some result) \<Rightarrow>
               (case validate_block_validation_result p result of Inl _ \<Rightarrow> Inl mismatch | Inr _ \<Rightarrow> Inr ())
           | (TaskBlockValidation _, None) \<Rightarrow> Inl mismatch
           | (_, None) \<Rightarrow> Inr ()
           | (_, Some _) \<Rightarrow> Inl (service_error FailedPrecondition ''unexpected_block_validation_result''
               ''a non-block-validation assignment cannot submit a block-validation result'' False))
      | _ \<Rightarrow> Inr ())"

definition logical_artifacts :: "artifact_descriptor list \<Rightarrow> artifact_descriptor list" where
  "logical_artifacts artifacts = map (\<lambda>a. a\<lparr>ad_key := ad_logical_key a\<rparr>) artifacts"

text \<open>\<open>Value::get\<close> with \<open>as_str\<close> and with \<open>as_i64\<close>.\<close>

definition json_get :: "string \<Rightarrow> json \<Rightarrow> json option" where
  "json_get key v = (case v of JObject entries \<Rightarrow> map_of entries key | _ \<Rightarrow> None)"

definition json_str :: "json option \<Rightarrow> string option" where
  "json_str v = (case v of Some (JString s) \<Rightarrow> Some s | _ \<Rightarrow> None)"

definition RUN_JSON :: string where
  "RUN_JSON = ''run_json_archived_path''"

definition staging_summary :: "json \<Rightarrow> artifact_descriptor list \<Rightarrow> json" where
  "staging_summary summary artifacts =
     (case json_str (json_get RUN_JSON summary) of
        None \<Rightarrow> summary
      | Some logical_key \<Rightarrow>
     case find (\<lambda>a. ad_logical_key a = logical_key) artifacts of
        None \<Rightarrow> summary
      | Some artifact \<Rightarrow>
     case summary of
        JObject entries \<Rightarrow> JObject (AList.update RUN_JSON (JString (ad_key artifact)) entries)
      | _ \<Rightarrow> summary)"

definition run_payload :: "run_result \<Rightarrow> run_data option" where
  "run_payload run =
     (if rn_schema_version run \<noteq> None
      then if rn_result_type run = Some ''run'' \<and> rn_result_version run = Some 1 then rn_result run else None
      else rn_data run)"

definition metric_from_run :: "(f64 \<Rightarrow> int) \<Rightarrow> uuid \<Rightarrow> run_result \<Rightarrow> job_metric option" where
  "metric_from_run secs_to_us job_id run =
     (case run_payload run of None \<Rightarrow> None | Some data \<Rightarrow>
      case rd_summary data of None \<Rightarrow> None | Some summary \<Rightarrow>
      map_option (\<lambda>columns. \<lparr>jm_job_id = job_id, jm_columns = columns\<rparr>) (those
        [map_option secs_to_us (rn_duration_secs run), map_option secs_to_us (rd_duration_secs data),
         map_option as_i64 (rm_total_duration_us summary), map_option as_i64 (rm_setup_duration_us summary),
         map_option as_i64 (rm_execution_duration_us summary), map_option as_i64 (rm_commit_duration_us summary),
         map_option as_i64 (rm_clarity_runtime summary), map_option as_i64 (rm_transactions summary),
         map_option as_i64 (rm_read_length summary), map_option as_i64 (rm_write_length summary),
         map_option as_i64 (rd_measured_blocks data), map_option as_i64 (rd_warmup_blocks data)]))"

definition extract_outcome ::
  "service_codec \<Rightarrow> uuid \<Rightarrow> json \<Rightarrow> (job_result \<times> job_metric option \<Rightarrow> 'a handler) \<Rightarrow> 'a handler" where
  "extract_outcome codec job_id summary k =
     (let archived = json_str (json_get RUN_JSON summary);
          dir = (case json_str (json_get ''archive_dir'' summary) of None \<Rightarrow> [] | Some path \<Rightarrow> path)
      in observe (\<lambda>e. Option.bind archived (as_read (e_artifacts e))) (\<lambda>bytes.
         k (\<lparr>jr_job_id = job_id, jr_run_json = Option.bind bytes (cx_parse_json codec), jr_archive_dir = dir\<rparr>,
            Option.bind (Option.bind bytes (cx_parse_run codec)) (metric_from_run (cx_secs_to_us codec) job_id))))"

definition baseline_calibration_id :: "service_codec \<Rightarrow> json \<Rightarrow> int option" where
  "baseline_calibration_id codec summary =
     (case json_get ''baseline_calibration_id'' summary of Some (JNumber n) \<Rightarrow> cx_number_as_i64 codec n | _ \<Rightarrow> None)"

definition terminal_write ::
  "service_codec \<Rightarrow> uuid \<Rightarrow> uuid \<Rightarrow> terminal_outcome \<Rightarrow> artifact_descriptor list
     \<Rightarrow> (fleet_terminal_write \<Rightarrow> 'a handler) \<Rightarrow> 'a handler" where
  "terminal_write codec job_id attempt_id outcome artifacts k =
     (let manifest = logical_artifacts artifacts;
          detail = (\<lambda>extra. Some (JObject ([(''attempt_id'', JString (uuid_to_string attempt_id)),
            (''artifacts'', cx_artifacts_value codec manifest)] @ extra)))
      in case outcome of
        Completed summary block_validation \<Rightarrow>
          (let completed = (\<lambda>(result, metric). k (WriteCompleted \<lparr>fc_result = result, fc_metric = metric,
                 fc_baseline_calibration_id = baseline_calibration_id codec summary,
                 fc_event_detail = detail [(''block_validation'', cx_block_validation_value codec block_validation),
                   (''summary'', summary)],
                 fc_block_validation = block_validation, fc_artifact_manifest = manifest\<rparr>))
           in if block_validation \<noteq> None
              then completed (\<lparr>jr_job_id = job_id, jr_run_json = Some summary,
                     jr_archive_dir = ''fleet:'' @ uuid_to_string attempt_id\<rparr>, None)
              else extract_outcome codec job_id (staging_summary summary artifacts) completed)
      | Failed error summary retryable \<Rightarrow>
          (let failed = (\<lambda>result. k (WriteFailed \<lparr>ff_result = result, ff_remark = error,
                 ff_event_detail = detail [(''summary'', case summary of None \<Rightarrow> JNull | Some s \<Rightarrow> s)]\<rparr>))
           in case summary of
                None \<Rightarrow> failed None
              | Some s \<Rightarrow> extract_outcome codec job_id (staging_summary s artifacts) (\<lambda>(result, _). failed (Some result)))
      | Cancelled reason \<Rightarrow> k (WriteCancelled reason))"

primrec total_size :: "u64 \<Rightarrow> artifact_descriptor list \<Rightarrow> u64 option" where
  "total_size acc [] = Some acc"
| "total_size acc (a # artifacts) =
     (case checked_add acc (ad_size a) of None \<Rightarrow> None | Some n \<Rightarrow> total_size n artifacts)"

primrec verify_each ::
  "attempt_identity \<Rightarrow> artifact_descriptor list \<Rightarrow> 'a handler \<Rightarrow> 'a handler" where
  "verify_each identity [] k = k"
| "verify_each identity (artifact # artifacts) k =
     (let refused = fail (service_error FailedPrecondition ''artifact_verification_failed''
            ''an artifact is absent or does not match its signed upload metadata'' True)
      in if \<not> starts_with (ad_key artifact) (''staging/'' @ uuid_to_string (ai_attempt_id identity) @ ''/'') then refused
         else observe (\<lambda>e. as_verify_upload (e_artifacts e) artifact) (\<lambda>uploaded. if \<not> uploaded then refused
         else store (\<lambda>_. internal) (\<lambda>e. verify_artifact identity artifact (e_now e)) (\<lambda>verified. if \<not> verified then refused
         else verify_each identity artifacts k)))"

primrec promote_uploads :: "artifact_descriptor list \<Rightarrow> (bool \<Rightarrow> ('e, 'a) program) \<Rightarrow> ('e, 'a) program" where
  "promote_uploads [] k = k True"
| "promote_uploads (artifact # artifacts) k =
     observe (\<lambda>e. as_promote_upload (e_artifacts e) artifact) (\<lambda>promoted.
       if promoted then promote_uploads artifacts k else k False)"

definition promote_artifacts ::
  "uuid \<Rightarrow> artifact_descriptor list \<Rightarrow> (bool \<Rightarrow> ('e, 'a) program) \<Rightarrow> ('e, 'a) program" where
  "promote_artifacts attempt_id manifest k =
     promote_uploads manifest (\<lambda>uploaded. if \<not> uploaded then k False
       else await (\<lambda>e d. transact e (mark_artifacts_promoted attempt_id manifest (e_now e)) d)
              (\<lambda>r. case r of Inl _ \<Rightarrow> k False | Inr promoted \<Rightarrow> k promoted))"

text \<open>The last part of \<open>complete\<close>, once the artifacts of a new result are verified.\<close>

definition submit_terminal ::
  "fleet_service \<Rightarrow> uuid \<Rightarrow> uuid \<Rightarrow> complete_attempt_request \<Rightarrow> bool handler" where
  "submit_terminal state worker_id job_id request =
     (let attempt_id = ai_attempt_id (ca_identity request) in
      terminal_write (fv_codec state) job_id attempt_id (ca_outcome request) (ca_artifacts request) (\<lambda>write.
      store (\<lambda>_. internal) (\<lambda>e. accept_terminal (cx_external (fv_codec state)) worker_id (ca_identity request)
          \<lparr>tm_reliable_seq = ca_terminal_reliable_seq request, tm_payload_digest = ca_terminal_payload_digest request,
           tm_outcome = ca_outcome request, tm_artifacts = ca_artifacts request, tm_write = write\<rparr> (e_now e)) (\<lambda>acceptance.
      if acceptance = Stale then fail stale_attempt
      else promote_artifacts attempt_id (ca_artifacts request) (\<lambda>promoted.
        if promoted then reply True
        else fail (service_error Unavailable ''artifact_promotion_failed''
               ''terminal is accepted but artifact promotion is incomplete; retry'' True)))))"

definition complete ::
  "fleet_service \<Rightarrow> string \<Rightarrow> complete_attempt_request \<Rightarrow> bool handler" where
  "complete state peer request =
     for_attempt state peer (validate_complete_attempt (cx_external (fv_codec state)) request) (ca_identity request) (\<lambda>worker_id.
     query (\<lambda>_. internal) (\<lambda>e. completion_assignment worker_id (ca_identity request)) (or_stale (\<lambda>offered.
     if wo_trace_id (oa_offer offered) \<noteq> ca_trace_id request
     then fail (service_error FailedPrecondition ''trace_mismatch''
            ''terminal trace does not match the active attempt'' False)
     else
     proceed (validate_terminal_for_assignment (oa_payload offered) (ca_outcome request)) (\<lambda>_.
     case total_size 0 (ca_artifacts request) of None \<Rightarrow> fail (bad_request ''artifact size sum overflow'') | Some bytes \<Rightarrow>
     if bytes > fg_max_attempt_artifact_bytes (fv_config state)
     then fail (service_error ResourceExhausted ''attempt_artifacts_too_large''
            ''attempt artifacts exceed the configured aggregate limit'' False)
     else
     query (\<lambda>_. internal) (\<lambda>e d. Inr (accepted_terminal_manifest (ai_attempt_id (ca_identity request)) d)) (\<lambda>accepted.
     case accepted of
       Some manifest \<Rightarrow>
         if manifest \<noteq> ca_artifacts request then fail stale_attempt
         else submit_terminal state worker_id (wo_job_id (oa_offer offered)) request
     | None \<Rightarrow> verify_each (ca_identity request) (ca_artifacts request)
         (submit_terminal state worker_id (wo_job_id (oa_offer offered)) request))))))"

section \<open>Cleanup and maintenance\<close>

definition cleanup :: "string \<Rightarrow> uuid \<Rightarrow> cleanup_item list handler" where
  "cleanup peer session =
     authorize_peer peer (\<lambda>worker. validated (session_id session) (
     query (\<lambda>_. internal) (\<lambda>e d. Inr (cleanup_obligations (wz_worker_id worker) session (e_now e) d)) (\<lambda>obligations.
     reply (map (\<lambda>ob. \<lparr>ci_id = co_id ob, ci_attempt_id = co_attempt_id ob, ci_job_id = co_job_id ob,
       ci_reason = co_reason ob\<rparr>) obligations))))"

definition cleanup_complete :: "string \<Rightarrow> cleanup_complete_request \<Rightarrow> bool handler" where
  "cleanup_complete peer request =
     authorize_peer peer (\<lambda>worker. validated (validate_cleanup_complete request) (
     store fleet_store_error (\<lambda>e. complete_cleanup (wz_worker_id worker) (cr_worker_session_id request)
         (cr_obligation_id request) (e_now e)) (\<lambda>completed.
     if \<not> completed then fail stale_attempt else reply True)))"

definition deregister :: "string \<Rightarrow> uuid \<Rightarrow> bool handler" where
  "deregister peer session =
     authorize_peer peer (\<lambda>worker. validated (session_id session) (
     store (\<lambda>_. internal) (\<lambda>e. deregister_session (wz_worker_id worker) session (e_now e)) reply))"

primrec promote_pending :: "(uuid \<times> artifact_descriptor list) list \<Rightarrow> ('e, 'a) program \<Rightarrow> ('e, 'a) program" where
  "promote_pending [] k = k"
| "promote_pending (p # pending) k = promote_artifacts (fst p) (snd p) (\<lambda>_. promote_pending pending k)"

primrec reap_each :: "string list \<Rightarrow> (store_error, 'a) program \<Rightarrow> (store_error, 'a) program" where
  "reap_each [] k = k"
| "reap_each (key # keys) k =
     observe (\<lambda>e. as_delete_staging (e_artifacts e) key) (\<lambda>deleted.
       if deleted then store id (\<lambda>e. mark_staged_artifact_reaped key) (\<lambda>_. reap_each keys k)
       else reap_each keys k)"

definition maintenance_tick :: "fleet_service \<Rightarrow> (store_error, unit) program" where
  "maintenance_tick state =
     query id (\<lambda>e d. Inr (pending_artifact_promotions 32 d)) (\<lambda>pending.
     promote_pending pending (
     observe e_utc (\<lambda>utc.
     case chrono_duration (fg_staging_gc_grace_seconds (fv_config state)) of Inl _ \<Rightarrow> fail Other | Inr grace \<Rightarrow>
     query id (\<lambda>e d. Inr (staged_artifacts_due_for_reap (utc - grace) d)) (\<lambda>keys.
     reap_each keys (reply ())))))"

end
