(* ===== verification/Fleet_Ledger.thy ===== *)
theory Fleet_Ledger
  imports Fleet_Machine
begin

text \<open>
  What no operation of the store takes back: the events of an attempt with their content, and the
  terminal result of an attempt. All operations but two keep both; the exceptions
  are \<open>ingest_reliable_event\<close> and \<open>accept_terminal\<close>, which add an event and a result. The invariant
  \<open>journalled\<close> says that every event up to the acknowledged one is stored.
\<close>

section \<open>The ledger\<close>

definition event_content :: "worker_attempt_event \<Rightarrow> uuid \<times> int \<times> uuid \<times> reliable_event_payload \<times> string" where
  "event_content e = (we_attempt_id e, we_reliable_seq e, we_trace_id e, we_payload e, we_payload_digest e)"

definition terminal_content ::
  "worker_attempt \<Rightarrow> int option \<times> string option \<times> terminal_outcome option \<times> artifact_descriptor list option" where
  "terminal_content a = (wa_terminal_reliable_seq a, wa_terminal_payload_digest a, wa_terminal_outcome a, wa_terminal_artifacts a)"

definition attempt_content :: "worker_attempt \<Rightarrow>
    (uuid \<times> uuid \<times> uuid \<times> int) \<times> int \<times> int option \<times> string option \<times> terminal_outcome option \<times> artifact_descriptor list option" where
  "attempt_content a = ((wa_attempt_id a, wa_worker_id a, wa_worker_session_id a, wa_fencing_generation a),
     wa_highest_contiguous_reliable_seq a, terminal_content a)"

definition fresh_attempt :: "worker_attempt \<Rightarrow> bool" where
  "fresh_attempt a \<longleftrightarrow> wa_highest_contiguous_reliable_seq a = 0 \<and> terminal_content a = (None, None, None, None)"

definition ledger_kept :: "db \<Rightarrow> db \<Rightarrow> bool" where
  "ledger_kept d d' \<longleftrightarrow> map event_content (db_events d') = map event_content (db_events d)
     \<and> (\<exists>new. map attempt_content (db_attempts d') = map attempt_content (db_attempts d) @ map attempt_content new
          \<and> list_all fresh_attempt new)"

lemma ledger_kept_refl [simp]: "ledger_kept d d"
  by (auto simp: ledger_kept_def intro: exI [of _ "[]"])

lemma kept_trans: "ledger_kept d d1 \<Longrightarrow> ledger_kept d1 d2 \<Longrightarrow> ledger_kept d d2"
proof -
  assume "ledger_kept d d1" "ledger_kept d1 d2"
  then obtain n1 n2 where
    "map attempt_content (db_attempts d2) = map attempt_content (db_attempts d) @ map attempt_content (n1 @ n2)"
    "list_all fresh_attempt (n1 @ n2)" "map event_content (db_events d2) = map event_content (db_events d)"
    by (auto simp: ledger_kept_def)
  then show ?thesis unfolding ledger_kept_def by blast
qed

lemma kept_same:
  assumes "ledger_kept d d1" "map event_content (db_events d2) = map event_content (db_events d1)"
    "map attempt_content (db_attempts d2) = map attempt_content (db_attempts d1)"
  shows "ledger_kept d d2"
  by (rule kept_trans [OF assms(1)]) (simp add: ledger_kept_def assms(2,3) exI [of _ "[]"])

lemma kept_append:
  assumes "ledger_kept d d1" "db_events d2 = db_events d1" "db_attempts d2 = db_attempts d1 @ [a]" "fresh_attempt a"
  shows "ledger_kept d d2"
  by (rule kept_trans [OF assms(1)]) (auto simp: ledger_kept_def assms intro: exI [of _ "[a]"])

lemmas content_defs = event_content_def attempt_content_def terminal_content_def

text \<open>Updates of other columns keep the content of the rows.\<close>

lemma content_update:
  "(\<And>r. P r \<Longrightarrow> attempt_content (f r) = attempt_content r)
     \<Longrightarrow> map attempt_content (update_where P f t) = map attempt_content t"
  "(\<And>r. P2 r \<Longrightarrow> event_content (f2 r) = event_content r)
     \<Longrightarrow> map event_content (update_where P2 f2 t2) = map event_content t2"
  by (simp_all add: map_update_where)

lemma kept_insert_job_event [simp]:
  "db_events (insert_job_event e d) = db_events d" "db_attempts (insert_job_event e d) = db_attempts d"
  by (simp_all add: insert_job_event_def)

lemma kept_insert_obligation [simp]:
  "db_events (insert_obligation w s a j r why now d) = db_events d"
  "db_attempts (insert_obligation w s a j r why now d) = db_attempts d"
  "db_events (update_obligations P f d) = db_events d" "db_attempts (update_obligations P f d) = db_attempts d"
  by (simp_all add: insert_obligation_def update_obligations_def)

section \<open>Operations that keep the ledger\<close>

lemma tx_for_kept:
  assumes "\<And>x d1 k. ledger_kept d d1 \<Longrightarrow> (\<And>d2. ledger_kept d d2 \<Longrightarrow> ensures (ledger_kept d) (k d2)) \<Longrightarrow> ensures (ledger_kept d) (body x d1 k)"
    "ledger_kept d d0" "\<And>d2. ledger_kept d d2 \<Longrightarrow> ensures (ledger_kept d) (k d2)"
  shows "ensures (ledger_kept d) (tx_for body xs d0 k)"
  using assms(2)
proof (induction xs arbitrary: d0)
  case Nil
  then show ?case by (simp add: assms(3))
next
  case (Cons x xs)
  then show ?case by (auto intro!: assms(1))
qed

lemma discard_kept:
  assumes "ledger_kept d d0" "\<And>d2. ledger_kept d d2 \<Longrightarrow> ensures (ledger_kept d) (k d2)"
  shows "ensures (ledger_kept d) (discard_attempt_projection i reason now d0 k)"
  unfolding discard_attempt_projection_def Let_def
  by (intro tx_intro assms(2)) (auto intro!: kept_same [OF assms(1)] content_update simp: content_defs discard_event_def)

lemma release_job_kept:
  assumes "ledger_kept d d0" "\<And>d2. ledger_kept d d2 \<Longrightarrow> ensures (ledger_kept d) (k d2)"
  shows "ensures (ledger_kept d) (release_job reason now row d0 k)"
  unfolding release_job_def by (intro tx_intro assms(2)) (auto intro!: kept_same [OF assms(1)])

lemma expire_attempt_kept:
  assumes "ledger_kept d d0" "\<And>d2. ledger_kept d d2 \<Longrightarrow> ensures (ledger_kept d) (k d2)"
  shows "ensures (ledger_kept d) (expire_attempt now row d0 k)"
  unfolding expire_attempt_def
  by (intro discard_kept [OF assms(1)] tx_intro release_job_kept assms(2);
      erule kept_same; simp add: content_update content_defs)

lemma expire_stale_kept: "ensures (ledger_kept d) (expire_stale_attempts now locked d)"
  unfolding expire_stale_attempts_def Let_def
  by (intro tx_for_kept expire_attempt_kept tx_intro ledger_kept_refl)

lemma registry_kept:
  "ensures (ledger_kept d) (create_worker worker d)" "ensures (ledger_kept d) (update_worker w patch now d)"
  "ensures (ledger_kept d) (authorize_identity w digest now d)" "ensures (ledger_kept d) (revoke_identity w digest now d)"
  "ensures (ledger_kept d) (deregister_session w s now d)"
  unfolding create_worker_def update_worker_def authorize_identity_def revoke_identity_def deregister_session_def
    Let_def end_idle_sessions_def
  by (intro tx_intro; rule kept_same [OF ledger_kept_refl]; simp)+

lemma emergency_kept:
  "ensures (ledger_kept d) (emergency_disable_worker w now d)" "ensures (ledger_kept d) (emergency_revoke_identity w digest now d)"
  unfolding emergency_disable_worker_def emergency_revoke_identity_def expire_worker_leases_def Let_def
  by (intro tx_intro; rule kept_same [OF ledger_kept_refl]; simp add: content_update content_defs cut_lease_def)+

lemma fence_predecessor_kept:
  assumes "ledger_kept d d0" "\<And>d2. ledger_kept d d2 \<Longrightarrow> ensures (ledger_kept d) (k d2)"
  shows "ensures (ledger_kept d) (fence_predecessor now row d0 k)"
  unfolding fence_predecessor_def
  by (intro discard_kept [OF assms(1)] tx_intro release_job_kept assms(2);
      (erule kept_same)?; simp add: content_update content_defs)

lemma register_session_kept: "ensures (ledger_kept d) (register_session w digest request ttl now utc d)"
proof -
  have "ensures (ledger_kept d) (start_session w digest request contract policy effective expires now d)"
    for contract policy effective expires
    unfolding start_session_def Let_def
    by (intro tx_intro tx_for_kept fence_predecessor_kept; (erule kept_same | rule kept_same [OF ledger_kept_refl])?; simp)
  moreover have "ensures (ledger_kept d) (recover_session w digest request offer floor1 policy effective existing expires now d)"
    for offer floor1 policy effective existing expires
    unfolding recover_session_def Let_def by (intro tx_intro; rule kept_same [OF ledger_kept_refl]; simp)
  ultimately show ?thesis unfolding register_session_def Let_def by (intro tx_intro)
qed

lemma fresh_offer: "fresh_attempt (offered_attempt w s ids j sub hash oexp lexp now generation)"
  by (simp add: fresh_attempt_def terminal_content_def offered_attempt_def)

lemma offers_kept:
  "ensures (ledger_kept d) (poll_offer w s ottl lttl now utc ids locked d)"
  "ensures (ledger_kept d) (accept_offer w identity ttl now d)"
  "ensures (ledger_kept d) (heartbeat_attempt w identity ttl drain now d)"
proof -
  have offer: "ensures (ledger_kept d) (make_offer w s ottl lttl now utc ids profile generation contract c (d\<lparr>db_sessions := t\<rparr>))"
    for profile generation contract c t
    unfolding make_offer_def Let_def
    by (intro tx_intro; rule kept_append [OF ledger_kept_refl, OF _ _ fresh_offer]; simp)
  show "ensures (ledger_kept d) (poll_offer w s ottl lttl now utc ids locked d)"
    unfolding poll_offer_def Let_def by (intro tx_intro offer; rule kept_same [OF ledger_kept_refl]; simp)
  show "ensures (ledger_kept d) (accept_offer w identity ttl now d)"
    unfolding accept_offer_def Let_def
    by (intro tx_intro; rule kept_same [OF ledger_kept_refl]; simp add: content_update content_defs begin_running_def)
  show "ensures (ledger_kept d) (heartbeat_attempt w identity ttl drain now d)"
    unfolding heartbeat_attempt_def Let_def
    by (intro tx_intro; rule kept_same [OF ledger_kept_refl]; simp add: content_update content_defs)
qed

lemma cancel_job_kept:
  assumes "ledger_kept d d0" "\<And>b d2. ledger_kept d d2 \<Longrightarrow> ensures (ledger_kept d) (k b d2)"
  shows "ensures (ledger_kept d) (cancel_job now i status ids d0 k)"
  unfolding cancel_job_def by (intro tx_intro assms(2); rule kept_same [OF assms(1)]; simp)

lemma cancellation_kept:
  assumes "ledger_kept d d0" "\<And>b d2. ledger_kept d d2 \<Longrightarrow> ensures (ledger_kept d) (k b d2)"
  shows "ensures (ledger_kept d) (cancellation_request i now d0 k)"
  unfolding cancellation_request_def Let_def
  by (intro tx_intro assms(2) cancel_job_kept discard_kept [OF assms(1)];
      (erule kept_same | rule kept_same [OF assms(1)]); simp add: content_update content_defs fence_offer_def)

lemma request_cancel_kept: "ensures (ledger_kept d) (request_cancel i now d)"
  unfolding request_cancel_def by (intro cancellation_kept tx_intro ledger_kept_refl)

lemma fail_locked_kept:
  assumes "ledger_kept d d0" "\<And>failed d2. ledger_kept d d2 \<Longrightarrow> ensures (ledger_kept d) (k failed d2)"
  shows "ensures (ledger_kept d) (fail_locked_queued_jobs now remark ids failed d0 k)"
  using assms(1)
proof (induction ids arbitrary: d0 failed)
  case Nil
  then show ?case by (simp add: assms(2))
next
  case (Cons i ids)
  show ?case
    unfolding fail_locked_queued_jobs.simps fail_locked_queued_job_def Let_def
    by (intro tx_intro Cons.IH; rule kept_same [OF Cons.prems]; simp)
qed

lemma slack_kept:
  "ensures (ledger_kept d) (expire_unreported_slack_jobs timeout remark now locked d)"
  "ensures (ledger_kept d) (fail_queued_slack_jobs_without_connector remark now locked d)"
  unfolding expire_unreported_slack_jobs_def fail_queued_slack_jobs_without_connector_def Let_def
  by (intro fail_locked_kept tx_intro ledger_kept_refl; assumption)+

lemma complete_cleanup_kept: "ensures (ledger_kept d) (complete_cleanup w s i now d)"
  unfolding complete_cleanup_def Let_def by (intro tx_intro; rule kept_same [OF ledger_kept_refl]; simp)

lemma withdraw_kept:
  assumes "ledger_kept d d0" "\<And>d2. ledger_kept d d2 \<Longrightarrow> ensures (ledger_kept d) (k d2)"
  shows "ensures (ledger_kept d) (withdraw_offers P d0 k)"
  unfolding withdraw_offers_def Let_def
  by (intro tx_intro assms(2); rule kept_same [OF assms(1)]; simp add: content_update content_defs)

lemma cancel_each_kept:
  assumes "ledger_kept d d0" "\<And>accepted d2. ledger_kept d d2 \<Longrightarrow> ensures (ledger_kept d) (k accepted d2)"
  shows "ensures (ledger_kept d) (cancel_each now ids accepted d0 k)"
  using assms(1)
proof (induction ids arbitrary: d0 accepted)
  case Nil
  then show ?case by (simp add: assms(2))
next
  case (Cons i ids)
  then show ?case unfolding cancel_each.simps by (intro cancellation_kept)
qed

lemma policy_kept:
  "ensures (ledger_kept d) (change_scheduler clock change d)"
  "ensures (ledger_kept d) (change_protocol_policy clock pchange d)"
  "ensures (ledger_kept d) (change_worker_lifecycle clock lchange d)"
  "ensures (ledger_kept d) (abort_fleet env req d)"
proof -
  show "ensures (ledger_kept d) (change_scheduler clock change d)"
    unfolding change_scheduler_def Let_def
    by (intro tx_intro withdraw_kept; (erule kept_same | rule kept_same [OF ledger_kept_refl]); simp)
  show "ensures (ledger_kept d) (change_protocol_policy clock pchange d)"
    unfolding change_protocol_policy_def Let_def by (intro tx_intro; rule kept_same [OF ledger_kept_refl]; simp)
  have "ensures (ledger_kept d) (apply_lifecycle clock lchange worker target d)" for worker target
    unfolding apply_lifecycle_def Let_def
    by (intro tx_intro; subst if_distribR; intro tx_intro withdraw_kept;
        (erule kept_same | rule kept_same [OF ledger_kept_refl]); simp)
  then show "ensures (ledger_kept d) (change_worker_lifecycle clock lchange d)"
    unfolding change_worker_lifecycle_def by (intro tx_intro)
  show "ensures (ledger_kept d) (abort_fleet env req d)"
    unfolding abort_fleet_def Let_def by (intro tx_intro cancel_each_kept; (erule kept_same | rule ledger_kept_refl); simp)
qed

lemma projection_kept:
  "ensures (ledger_kept d) (mark_event_projected i n now d)" "ensures (ledger_kept d) (ingest_progress w p now d)"
  "ensures (ledger_kept d) (mark_progress_projected i n now d)" "ensures (ledger_kept d) (record_artifact_grant grant now d)"
  "ensures (ledger_kept d) (verify_artifact identity artifact now d)" "ensures (ledger_kept d) (mark_staged_artifact_reaped key d)"
  unfolding mark_event_projected_def ingest_progress_def mark_progress_projected_def record_artifact_grant_def
    verify_artifact_def mark_staged_artifact_reaped_def Let_def
  by (intro tx_intro; rule kept_same [OF ledger_kept_refl]; simp add: content_update content_defs)+

lemma promote_kept: "ensures (ledger_kept d) (mark_artifacts_promoted i artifacts now d)"
proof -
  have "ledger_kept d d0 \<Longrightarrow> ensures (ledger_kept d) (promote_each i artifacts now d0)" for d0
  proof (induction artifacts arbitrary: d0)
    case (Cons a artifacts)
    show ?case
      unfolding promote_each.simps Let_def by (intro tx_intro Cons.IH; rule kept_same [OF Cons.prems]; simp)
  qed (simp add: tx_intro)
  then show ?thesis unfolding mark_artifacts_promoted_def by (intro tx_intro) simp
qed

lemma freeze_kept: "ensures (ledger_kept d) (freeze_submission_sources s sources generation d)"
proof -
  have "ledger_kept d d0 \<Longrightarrow> ensures (ledger_kept d) (freeze_each resolved rows d0)" for resolved rows d0
  proof (induction rows arbitrary: d0)
    case (Cons row rows)
    show ?case
      unfolding freeze_each.simps Let_def by (intro tx_intro Cons.IH; rule kept_same [OF Cons.prems]; simp)
  qed (simp add: tx_intro)
  then show ?thesis unfolding freeze_submission_sources_def Let_def by (intro tx_intro) simp
qed

lemma prepare_kept: "ensures (ledger_kept d) (prepare_execution prepared d)"
  unfolding prepare_execution_def Let_def by (intro tx_intro; rule kept_same [OF ledger_kept_refl]; simp)

text \<open>Submissions write other tables.\<close>

lemma insert_steps_kept:
  assumes "ledger_kept d d0" "\<And>d2. ledger_kept d d2 \<Longrightarrow> ensures (ledger_kept d) (k d2)"
  shows "ensures (ledger_kept d) (insert_steps i s n kinds d0 k)"
  using assms(1)
proof (induction kinds arbitrary: n d0)
  case (Cons kind kinds)
  show ?case unfolding insert_steps.simps insert_step_def
    by (intro tx_intro Cons.IH kept_same [OF Cons.prems]) simp_all
qed (simp add: assms(2))

lemma insert_specs_kept:
  assumes "ledger_kept d d0" "\<And>d2. ledger_kept d d2 \<Longrightarrow> ensures (ledger_kept d) (k d2)"
  shows "ensures (ledger_kept d) (insert_specs i runs vs n step d0 k)"
  using assms(1)
proof (induction vs arbitrary: n step d0)
  case (Cons v vs)
  obtain spec_id variant where v: "v = (spec_id, variant)" by (cases v)
  show ?case unfolding v insert_specs.simps
    by (intro tx_intro insert_steps_kept Cons.IH; (assumption | rule kept_same [OF Cons.prems]; simp))
qed (simp add: assms(2))

lemma insert_provenance_kept:
  assumes "ledger_kept d d0" "\<And>d2. ledger_kept d d2 \<Longrightarrow> ensures (ledger_kept d) (k d2)"
  shows "ensures (ledger_kept d) (insert_github_provenance s g d0 k)"
    "ensures (ledger_kept d) (insert_slack_provenance s j p now d0 k)"
proof -
  show "ensures (ledger_kept d) (insert_github_provenance s g d0 k)"
    unfolding insert_github_provenance_def
    by (cases g) (auto intro!: tx_intro assms(2) assms(1) kept_same [OF assms(1)])
  show "ensures (ledger_kept d) (insert_slack_provenance s j p now d0 k)"
  proof (cases p)
    case (Some slack)
    then show ?thesis unfolding insert_slack_provenance_def
      by (cases "sn_report_message_ts slack") (auto intro!: tx_intro assms(2) assms(1) kept_same [OF assms(1)])
  qed (simp add: insert_slack_provenance_def assms)
qed

lemma submit_kept: "ensures (ledger_kept d) (submit codec ext command ids now before after d)"
proof -
  have "ensures (ledger_kept d) (persist_tx ext prepared source ids now after d)" for prepared source
    unfolding persist_tx_def Let_def
    by (intro tx_intro insert_specs_kept insert_provenance_kept; (erule kept_same | rule kept_same [OF ledger_kept_refl])?; simp)
  then show ?thesis unfolding submit_def persist_submission_def by (intro tx_intro)
qed

lemma copied_events_kept [simp]:
  "db_events (copy_run_provenance_events_in_tx j p now d) = db_events d"
  "db_attempts (copy_run_provenance_events_in_tx j p now d) = db_attempts d"
  by (simp_all add: copy_run_provenance_events_in_tx_def copy_event_def split: option.split)

lemma runs_kept:
  "ensures (ledger_kept d) (append_next_benchmark_run i j now d)" "ensures (ledger_kept d) (record_plan_message_ts j ts now d)"
  unfolding append_next_benchmark_run_def record_plan_message_ts_def insert_next_run_in_tx_def
    insert_initial_run_for_spec_in_tx_def Let_def
  by (intro tx_intro; rule kept_same [OF ledger_kept_refl]; simp)+

lemma recover_kept: "ensures (ledger_kept d) (recover_submission s target reason ids now d)"
proof -
  have "ensures (ledger_kept d) (recover_job s ids reason now generation d0)" if "ledger_kept d d0" for generation d0
    unfolding recover_job_def Let_def by (intro tx_intro; rule kept_same [OF that]; simp)
  note job = this
  have cancel: "ensures (ledger_kept d) (cancel_abandoned s reason now i d0 k)"
    if "ledger_kept d d0" "\<And>d2. ledger_kept d d2 \<Longrightarrow> ensures (ledger_kept d) (k d2)" for i d0 k
    unfolding cancel_abandoned_def Let_def
    by (intro tx_intro that(2)) (auto intro: kept_same [OF that(1)])
  show ?thesis unfolding recover_submission_def Let_def
    by (intro tx_intro tx_for_kept cancel job; (assumption | erule kept_same | rule kept_same [OF ledger_kept_refl])?; simp)
qed

section \<open>What the ledger promises\<close>

definition journalled :: "db \<Rightarrow> bool" where
  "journalled d \<longleftrightarrow> (\<forall>a \<in> set (db_attempts d).
     {1..wa_highest_contiguous_reliable_seq a} \<subseteq> set (event_seqs (wa_attempt_id a) (db_events d)))"

definition row_grows :: "worker_attempt \<Rightarrow> worker_attempt \<Rightarrow> bool" where
  "row_grows a a' \<longleftrightarrow> fst (attempt_content a') = fst (attempt_content a)
     \<and> wa_highest_contiguous_reliable_seq a \<le> wa_highest_contiguous_reliable_seq a'
     \<and> (wa_terminal_outcome a \<noteq> None \<longrightarrow> terminal_content a' = terminal_content a)"

definition ledger_grows :: "db \<Rightarrow> db \<Rightarrow> bool" where
  "ledger_grows d d' \<longleftrightarrow> (\<exists>new. map event_content (db_events d') = map event_content (db_events d) @ new)
     \<and> (\<forall>a \<in> set (db_attempts d). \<exists>a' \<in> set (db_attempts d'). row_grows a a')"

lemma row_grows_refl [simp]: "row_grows a a"
  by (simp add: row_grows_def)

lemma row_grows_trans: "row_grows a b \<Longrightarrow> row_grows b c \<Longrightarrow> row_grows a c"
  by (auto simp: row_grows_def terminal_content_def)

lemma ledger_grows_refl [simp]: "ledger_grows d d"
  unfolding ledger_grows_def by (metis append_Nil2 row_grows_refl)

lemma ledger_grows_trans:
  assumes "ledger_grows d d1" "ledger_grows d1 d2"
  shows "ledger_grows d d2"
  unfolding ledger_grows_def
proof (intro conjI ballI)
  from assms(1) obtain n1 where n1: "map event_content (db_events d1) = map event_content (db_events d) @ n1"
    unfolding ledger_grows_def by (elim conjE exE)
  from assms(2) obtain n2 where n2: "map event_content (db_events d2) = map event_content (db_events d1) @ n2"
    unfolding ledger_grows_def by (elim conjE exE)
  show "\<exists>new. map event_content (db_events d2) = map event_content (db_events d) @ new"
    by (rule exI [of _ "n1 @ n2"]) (simp only: n1 n2 append.assoc)
next
  fix a assume "a \<in> set (db_attempts d)"
  with assms(1) obtain b where b: "b \<in> set (db_attempts d1)" "row_grows a b"
    unfolding ledger_grows_def by (elim conjE) (drule bspec, assumption, erule bexE)
  from assms(2) b(1) obtain c where "c \<in> set (db_attempts d2)" "row_grows b c"
    unfolding ledger_grows_def by (elim conjE) (drule bspec, assumption, erule bexE)
  then show "\<exists>c \<in> set (db_attempts d2). row_grows a c"
    by (intro bexI [of _ c] row_grows_trans [OF b(2)])
qed

lemma event_seqs_content:
  "set (event_seqs i t) = {n. \<exists>e \<in> set (map event_content t). fst e = i \<and> fst (snd e) = n}"
  by (auto simp: event_seqs_def event_content_def image_iff)

lemma kept_row:
  assumes "ledger_kept d d'" "a' \<in> set (db_attempts d')"
  obtains a where "a \<in> set (db_attempts d)" "attempt_content a' = attempt_content a" | "fresh_attempt a'"
proof -
  from assms obtain new where new: "map attempt_content (db_attempts d') = map attempt_content (db_attempts d) @ map attempt_content new"
    "list_all fresh_attempt new" by (auto simp: ledger_kept_def)
  then have "attempt_content a' \<in> attempt_content ` set (db_attempts d) \<union> attempt_content ` set new"
    using assms(2) by (metis Un_iff image_eqI list.set_map set_append)
  then consider a where "a \<in> set (db_attempts d)" "attempt_content a' = attempt_content a"
    | a where "a \<in> set new" "attempt_content a' = attempt_content a" by blast
  then show ?thesis
  proof cases
    case 2
    then show ?thesis using that(2) new(2) by (simp add: fresh_attempt_def attempt_content_def list_all_iff)
  qed (rule that(1))
qed

lemma kept_journalled: "ledger_kept d d' \<Longrightarrow> journalled d \<Longrightarrow> journalled d'"
  unfolding journalled_def event_seqs_content
proof
  fix a' assume kept: "ledger_kept d d'" and a': "a' \<in> set (db_attempts d')"
    and old: "\<forall>a \<in> set (db_attempts d). {1..wa_highest_contiguous_reliable_seq a} \<subseteq>
      {n. \<exists>e \<in> set (map event_content (db_events d)). fst e = wa_attempt_id a \<and> fst (snd e) = n}"
  have events: "map event_content (db_events d') = map event_content (db_events d)"
    using kept by (simp add: ledger_kept_def)
  show "{1..wa_highest_contiguous_reliable_seq a'} \<subseteq>
      {n. \<exists>e \<in> set (map event_content (db_events d')). fst e = wa_attempt_id a' \<and> fst (snd e) = n}"
    unfolding events
  proof (rule kept_row [OF kept a'])
    fix a assume "a \<in> set (db_attempts d)" "attempt_content a' = attempt_content a"
    then show "{1..wa_highest_contiguous_reliable_seq a'} \<subseteq>
        {n. \<exists>e \<in> set (map event_content (db_events d)). fst e = wa_attempt_id a' \<and> fst (snd e) = n}"
      using old by (auto simp: attempt_content_def)
  qed (simp add: fresh_attempt_def)
qed

lemma kept_grows:
  assumes "ledger_kept d d'"
  shows "ledger_grows d d'"
  unfolding ledger_grows_def
proof (intro conjI ballI)
  show "\<exists>new. map event_content (db_events d') = map event_content (db_events d) @ new"
    using assms by (intro exI [of _ "[]"]) (simp add: ledger_kept_def)
next
  fix a assume a: "a \<in> set (db_attempts d)"
  from assms obtain new where "map attempt_content (db_attempts d') = map attempt_content (db_attempts d) @ map attempt_content new"
    unfolding ledger_kept_def by (elim conjE exE)
  then have "attempt_content ` set (db_attempts d') = attempt_content ` set (db_attempts d) \<union> attempt_content ` set new"
    by (metis list.set_map set_append)
  with a have "attempt_content a \<in> attempt_content ` set (db_attempts d')" by simp
  then obtain a' where "a' \<in> set (db_attempts d')" "attempt_content a = attempt_content a'" by (rule imageE)
  then show "\<exists>a' \<in> set (db_attempts d'). row_grows a a'"
    by (intro bexI [of _ a']) (simp_all add: row_grows_def attempt_content_def)
qed

definition ledger_step :: "db \<Rightarrow> db \<Rightarrow> bool" where
  "ledger_step d d' \<longleftrightarrow> ledger_grows d d' \<and> (journalled d \<longrightarrow> journalled d')"

lemma kept_step: "ledger_kept d d' \<Longrightarrow> ledger_step d d'"
  by (simp add: ledger_step_def kept_grows kept_journalled)

text \<open>The two operations that write the ledger.\<close>

lemma ingest_no_commit_error: "ingest_reliable_event w event now d \<noteq> CommitError e d'"
  by (simp add: ingest_reliable_event_def Let_def update_attempts_def set_attempts_def set_events_def split: option.split)

lemma acknowledge_journalled:
  assumes "journalled d" "a \<in> set (db_attempts d)" "evs = db_events d @ new"
  shows "journalled (acknowledge a evs d)"
proof -
  let ?hc = "wa_highest_contiguous_reliable_seq a"
  let ?top = "contiguous_prefix (event_seqs (wa_attempt_id a) evs) ?hc"
  have sub: "set (event_seqs i (db_events d)) \<subseteq> set (event_seqs i evs)" for i
    by (auto simp: event_seqs_def assms(3))
  have "{1..?top} \<subseteq> {1..?hc} \<union> {?hc<..?top}" by auto
  also have "\<dots> \<subseteq> set (event_seqs (wa_attempt_id a) evs)"
    using assms(1,2) sub [of "wa_attempt_id a"] contiguous_prefix_maximal [of ?hc "event_seqs (wa_attempt_id a) evs"]
    unfolding journalled_def by (metis (no_types, lifting) Un_least order_trans)
  finally have top: "{1..?top} \<subseteq> set (event_seqs (wa_attempt_id a) evs)" .
  show ?thesis
    unfolding journalled_def
  proof
    fix b assume "b \<in> set (db_attempts (acknowledge a evs d))"
    then obtain r where r: "r \<in> set (db_attempts d)"
      "b = (if wa_attempt_id r = wa_attempt_id a then r\<lparr>wa_highest_contiguous_reliable_seq := ?top\<rparr> else r)"
      unfolding acknowledge_def by (auto simp: in_update_where)
    have "{1..wa_highest_contiguous_reliable_seq r} \<subseteq> set (event_seqs (wa_attempt_id r) evs)"
      using assms(1) r(1) sub unfolding journalled_def by blast
    with top show "{1..wa_highest_contiguous_reliable_seq b}
        \<subseteq> set (event_seqs (wa_attempt_id b) (db_events (acknowledge a evs d)))"
      by (cases "wa_attempt_id r = wa_attempt_id a") (simp_all add: r(2) acknowledge_def)
  qed
qed

lemma acknowledge_grows:
  assumes "schema_ok d" "a \<in> set (db_attempts d)" "evs = db_events d @ new"
  shows "ledger_grows d (acknowledge a evs d)"
proof -
  have "\<exists>b' \<in> set (db_attempts (acknowledge a evs d)). row_grows b b'" if "b \<in> set (db_attempts d)" for b
  proof (rule bexI)
    let ?b = "if wa_attempt_id b = wa_attempt_id a
      then b\<lparr>wa_highest_contiguous_reliable_seq := contiguous_prefix (event_seqs (wa_attempt_id a) evs)
        (wa_highest_contiguous_reliable_seq a)\<rparr> else b"
    have "b = a" if "wa_attempt_id b = wa_attempt_id a"
      using row_of_in_set [OF schema_distinct(2) [OF assms(1)]] assms(2) \<open>b \<in> set (db_attempts d)\<close> that
      by (metis option.inject)
    then show "row_grows b ?b"
      using contiguous_prefix_maximal [of "wa_highest_contiguous_reliable_seq a" "event_seqs (wa_attempt_id a) evs"]
      by (auto simp: row_grows_def content_defs)
    show "?b \<in> set (db_attempts (acknowledge a evs d))"
      unfolding acknowledge_def using that by (simp add: in_update_where) blast
  qed
  then show ?thesis by (simp add: ledger_grows_def acknowledge_def assms(3))
qed

lemma ingest_step:
  assumes "schema_ok d"
  shows "ensures (ledger_step d) (ingest_reliable_event w event now d)"
proof (cases "ingest_reliable_event w event now d")
  case (Commit r d')
  then obtain a evs where a: "find (lease_current w (re_identity event) (re_trace_id event) now d) (db_attempts d) = Some a"
    and d': "d' = acknowledge a evs d" and "\<exists>new. evs = db_events d @ new"
    by (rule ingest_commit) auto
  then obtain new where evs: "evs = db_events d @ new" by blast
  have "a \<in> set (db_attempts d)" using a by (auto simp: find_Some_iff)
  then have "ledger_step d d'"
    by (simp add: ledger_step_def d' acknowledge_grows [OF assms _ evs] acknowledge_journalled [OF _ _ evs])
  with Commit show ?thesis by (simp add: ensures_def)
qed (simp_all add: ensures_def ingest_no_commit_error)

lemma settle_grows:
  assumes "attempt_check b" "wa_attempt_id b = wa_attempt_id a \<Longrightarrow> executing (wa_status b)"
  shows "row_grows b (if wa_attempt_id b = wa_attempt_id a then settle_attempt now submission b else b)"
  using assms by (auto simp: row_grows_def content_defs settle_attempt_def attempt_check_def executing_def terminal_def)

lemma settled_step:
  assumes "schema_ok d" "a \<in> set (db_attempts d)" "executing (wa_status a)"
    "db_events d' = db_events d"
    "db_attempts d' = update_where (\<lambda>b. wa_attempt_id b = wa_attempt_id a) (settle_attempt now submission) (db_attempts d)"
  shows "ledger_step d d'"
proof -
  let ?f = "\<lambda>b. if wa_attempt_id b = wa_attempt_id a then settle_attempt now submission b else b"
  have attempts: "set (db_attempts d') = ?f ` set (db_attempts d)"
    using assms(5) by (simp add: update_where_def)
  have "\<exists>b' \<in> set (db_attempts d'). row_grows b b'" if b: "b \<in> set (db_attempts d)" for b
  proof
    have "b = a" if "wa_attempt_id b = wa_attempt_id a"
      using row_of_in_set [OF schema_distinct(2) [OF assms(1)]] assms(2) b that by (metis option.inject)
    moreover have "attempt_check b"
      using assms(1) b by (simp add: schema_ok_def attempt_table_ok_def list_all_iff)
    ultimately show "row_grows b (?f b)" using assms(3) by (intro settle_grows) auto
    show "?f b \<in> set (db_attempts d')" unfolding attempts using b by (rule imageI)
  qed
  then have "ledger_grows d d'" unfolding ledger_grows_def by (auto simp: assms(4) intro: exI [of _ "[]"])
  moreover have "wa_highest_contiguous_reliable_seq (?f b) = wa_highest_contiguous_reliable_seq b"
    "wa_attempt_id (?f b) = wa_attempt_id b" for b
    by (simp_all add: settle_attempt_def)
  then have "journalled d'" if "journalled d"
    using that by (simp add: journalled_def assms(4) attempts del: if_image_distrib)
  ultimately show ?thesis by (simp add: ledger_step_def)
qed

lemma terminal_step:
  assumes "schema_ok d"
  shows "ensures (ledger_step d) (accept_terminal ext w identity submission now d)"
proof -
  have "ensures (ledger_step d) (commit_terminal w identity submission a now d)"
    if a: "find (names_attempt w identity) (db_attempts d) = Some a" "executing (wa_status a)" for a
  proof -
    have named: "a \<in> set (db_attempts d)" "ai_attempt_id identity = wa_attempt_id a"
      using a(1) by (auto simp: find_Some_iff names_attempt_def)
    show ?thesis unfolding commit_terminal_def Let_def named(2)
      by (intro tx_intro ensures_persist_write settled_step [OF assms named(1) a(2)]) (simp_all add: same_fleet_def)
  qed
  then show ?thesis unfolding accept_terminal_def by (intro tx_intro) auto
qed

lemma run_kept:
  assumes "ensures (ledger_kept d) (tx d)"
  shows "ledger_step d (snd (run_tx tx d))"
  using ensures_run_tx [of "ledger_kept d" tx d] assms by (simp add: kept_step)

lemma run_step:
  assumes "ensures (ledger_step d) (tx d)"
  shows "ledger_step d (snd (run_tx tx d))"
  using ensures_run_tx [of "ledger_step d" tx d] assms by (simp add: kept_step)

lemmas store_kept = registry_kept emergency_kept register_session_kept offers_kept cancellation_kept request_cancel_kept
  slack_kept expire_stale_kept complete_cleanup_kept policy_kept freeze_kept prepare_kept submit_kept runs_kept recover_kept

lemma perform_ledger:
  "ledger_step d (perform_registry op1 d)" "ledger_step d (perform_attempt op2 d)"
  "ledger_step d (perform_policy op3 d)" "ledger_step d (perform_submission op5 d)"
proof -
  show "ledger_step d (perform_registry op1 d)"
    by (cases op1; simp only: perform_registry.simps) (rule run_kept, rule store_kept)+
  show "ledger_step d (perform_attempt op2 d)"
    by (cases op2; simp only: perform_attempt.simps) (rule run_kept, rule store_kept)+
  show "ledger_step d (perform_policy op3 d)"
    by (cases op3; simp only: perform_policy.simps) (rule run_kept, rule store_kept)+
  show "ledger_step d (perform_submission op5 d)"
    by (cases op5; simp only: perform_submission.simps) (rule run_kept, rule store_kept)+
qed

lemma perform_result_ledger:
  assumes "schema_ok d"
  shows "ledger_step d (perform_result op d)"
  by (cases op; simp only: perform_result.simps)
    ((rule run_kept, rule projection_kept promote_kept) | (rule run_step, rule ingest_step [OF assms] terminal_step [OF assms]))+

interpretation ledger: step_system perform well_formed "\<lambda>d d'. refines d d' \<and> ledger_step d d'"
proof unfold_locales
  show "refines s (perform op s) \<and> ledger_step s (perform op s)" if "well_formed s" for op s
  proof
    show "refines s (perform op s)" using that by (rule perform_refines)
    show "ledger_step s (perform op s)"
      using that by (cases op) (simp_all add: perform_ledger perform_result_ledger wfD(1))
  qed
  show "refines s u \<and> ledger_step s u" if "refines s t \<and> ledger_step s t" "refines t u \<and> ledger_step t u" for s t u
    using that unfolding ledger_step_def by (auto intro: refines_trans ledger_grows_trans)
qed (auto intro: refines_refl refines_wf wfD(1) simp: ledger_step_def)

text \<open>A row of an attempt after any history.\<close>

lemma attempt_after_history:
  assumes "well_formed d" "row_of wa_attempt_id (db_attempts d) i = Some a"
  obtains a' where "row_of wa_attempt_id (db_attempts (fold perform ops d)) i = Some a'" "row_grows a a'"
    "terminal (wa_status a) \<Longrightarrow> terminal_content a' = terminal_content a"
proof -
  let ?d = "fold perform ops d"
  have grows: "ledger_grows d ?d" and wf: "well_formed ?d"
    using ledger.run_moves [OF assms(1), of ops] ledger.run_inv [OF assms(1), of ops] by (simp_all add: ledger_step_def)
  have a: "a \<in> set (db_attempts d)" "wa_attempt_id a = i"
    using assms(2) by (auto simp: row_of_def find_Some_iff)
  then obtain a' where a': "a' \<in> set (db_attempts ?d)" "row_grows a a'"
    using grows unfolding ledger_grows_def by (elim conjE) (drule bspec, assumption, erule bexE)
  then have "row_of wa_attempt_id (db_attempts ?d) i = Some a'"
    using row_of_in_set [OF schema_distinct(2) [OF wfD(1) [OF wf]]] a(2) by (force simp: row_grows_def attempt_content_def)
  moreover have "wa_terminal_outcome a \<noteq> None" if "terminal (wa_status a)"
    using that assms(1) a(1) by (simp add: well_formed_def schema_ok_def attempt_table_ok_def list_all_iff attempt_check_def)
  then have "terminal_content a' = terminal_content a" if "terminal (wa_status a)"
    using that a'(2) by (simp add: row_grows_def)
  ultimately show ?thesis using that a'(2) by blast
qed

text \<open>C12: Whatever the coordinator commits, the ledger of an attempt only grows. From a fresh installation on,
  all events up to the acknowledged one are stored; the acknowledged number never decreases, no stored event is lost
  or changed, and the accepted result of an attempt stays as it was accepted.\<close>

theorem ledger_is_durable:
  assumes "well_formed d" "journalled d" "row_of wa_attempt_id (db_attempts d) i = Some a" "d' = fold perform ops d"
  shows "journalled (initial_db repos installed) \<and> journalled d'
    \<and> set (map event_content (db_events d)) \<subseteq> set (map event_content (db_events d'))
    \<and> (\<exists>a'. row_of wa_attempt_id (db_attempts d') i = Some a'
      \<and> wa_highest_contiguous_reliable_seq a \<le> wa_highest_contiguous_reliable_seq a'
      \<and> (terminal (wa_status a) \<longrightarrow> terminal_content a' = terminal_content a))"
proof -
  note moved = ledger.run_moves [OF assms(1), of ops, unfolded ledger_step_def]
  have "journalled d'" using moved assms(2) by (simp add: assms(4))
  moreover have "set (map event_content (db_events d)) \<subseteq> set (map event_content (db_events d'))"
    using moved unfolding ledger_grows_def assms(4) by (elim conjE exE) simp
  moreover obtain a' where "row_of wa_attempt_id (db_attempts d') i = Some a'" "row_grows a a'"
    "terminal (wa_status a) \<Longrightarrow> terminal_content a' = terminal_content a"
    using attempt_after_history [OF assms(1,3), of ops] assms(4) by blast
  moreover have "journalled (initial_db repos installed)" by (simp add: journalled_def initial_db_def)
  ultimately show ?thesis by (auto simp: row_grows_def)
qed

theorem ledger_is_durable_witness:
  "journalled (fold perform [Result (IngestReliableEvent 1 sample_event 50)] running_db)
   \<and> (\<exists>a'. row_of wa_attempt_id (db_attempts (fold perform [Result (IngestReliableEvent 1 sample_event 50)] running_db)) 6 = Some a'
      \<and> 0 \<le> wa_highest_contiguous_reliable_seq a')"
proof -
  have "journalled running_db" "row_of wa_attempt_id (db_attempts running_db) 6 = Some (sample_attempt AttemptRunning)"
    "wa_highest_contiguous_reliable_seq (sample_attempt AttemptRunning) = 0"
    by (simp_all add: journalled_def sample_states sample_attempt_def)
  with ledger_is_durable [OF sample_well_formed(3) this(1,2) refl] show ?thesis by metis
qed

end
