(* ===== verification/Fleet_Grpc.thy ===== *)
theory Fleet_Grpc
  imports Fleet_Service Fleet_Ledger
begin

text \<open>
  The worker-facing RPCs (\<open>crates/sbgh-daemon/src/fleet/grpc.rs\<close>) over the handlers of \<open>Fleet_Service\<close>, and what
  holds of every request. The decoding of a message (\<open>wire\<close>) has happened: a request arrives as its domain value
  or as the error of its decoding.

  The locale \<open>kept_by_history\<close> is what a proof about a handler needs of a property of the tables: that the
  operations of the store keep it. Inside it every handler is shown to keep the property; the interpretations
  instantiate it with the histories that start at given tables and with \<open>well_formed\<close> tables.
\<close>

section \<open>The service trait\<close>

datatype rpc_code =
  CodeInvalidArgument | CodePermissionDenied | CodeFailedPrecondition | CodeResourceExhausted
  | CodeUnavailable | CodeInternal | CodeUnauthenticated

record fleet_rpc_error =
  fr_status :: rpc_code
  fr_code :: string
  fr_message :: string
  fr_retryable :: bool
  fr_retry_after_ms :: "u64 option"

definition rpc_error :: "rpc_code \<Rightarrow> string \<Rightarrow> string \<Rightarrow> bool \<Rightarrow> fleet_rpc_error" where
  "rpc_error status code message retryable =
     \<lparr>fr_status = status, fr_code = code, fr_message = message, fr_retryable = retryable, fr_retry_after_ms = None\<rparr>"

primrec status_code :: "service_code \<Rightarrow> rpc_code" where
  "status_code InvalidArgument = CodeInvalidArgument"
| "status_code PermissionDenied = CodePermissionDenied"
| "status_code FailedPrecondition = CodeFailedPrecondition"
| "status_code ResourceExhausted = CodeResourceExhausted"
| "status_code Unavailable = CodeUnavailable"
| "status_code Internal = CodeInternal"

definition rpc_service_error :: "service_error \<Rightarrow> fleet_rpc_error" where
  "rpc_service_error error =
     \<lparr>fr_status = status_code (se_code error), fr_code = se_stable_code error, fr_message = se_message error,
      fr_retryable = se_retryable error, fr_retry_after_ms = se_retry_after_ms error\<rparr>"

definition rpc_peer :: "string option \<Rightarrow> fleet_rpc_error + string" where
  "rpc_peer extension =
     (case extension of
        None \<Rightarrow> Inl (rpc_error CodeUnauthenticated ''missing_peer_identity''
                  ''authenticated worker connection identity is unavailable'' False)
      | Some peer \<Rightarrow> Inr peer)"

definition rpc_wire :: "string + 'a \<Rightarrow> fleet_rpc_error + 'a" where
  "rpc_wire decoded =
     (case decoded of
        Inl message \<Rightarrow> Inl (rpc_error CodeInvalidArgument ''invalid_protocol_message'' message False)
      | Inr value \<Rightarrow> Inr value)"

datatype rpc_request =
    CheckRegistration registration_check_request
  | Register register_session_request
  | Poll uuid
  | Accept attempt_identity
  | FetchRepositoryCredential attempt_identity
  | Heartbeat heartbeat_request
  | PublishReliableEvent reliable_event_envelope
  | PublishProgress progress_request
  | GrantArtifact artifact_grant_request
  | CompleteAttempt complete_attempt_request
  | ListCleanup uuid
  | CompleteCleanupRpc cleanup_complete_request
  | Deregister uuid

datatype rpc_response =
    RegistrationChecked registration_check_response
  | Registered register_session_response
  | Polled poll_response
  | Assigned assignment
  | Credential "string \<times> int"
  | Beat heartbeat_response
  | EventAcknowledged u64
  | ProgressAccepted bool
  | ArtifactGranted artifact_grant_response
  | Completion bool
  | CleanupItems "cleanup_item list"
  | CleanupCompleted bool
  | Deregistered bool

text \<open>\<open>map\<close> of the answer of a handler and \<open>map_err\<close> of its error.\<close>

definition answered :: "('a \<Rightarrow> 'b) \<Rightarrow> ('e \<Rightarrow> 'f) \<Rightarrow> ('e, 'a) program \<Rightarrow> ('f, 'b) program" where
  "answered f g h es d = map_option (map_prod (map_sum g f) id) (h es d)"

primrec handle :: "fleet_service \<Rightarrow> string \<Rightarrow> rpc_request \<Rightarrow> (fleet_rpc_error, rpc_response) program" where
  "handle state peer (CheckRegistration request) =
     answered RegistrationChecked rpc_service_error (check_registration state peer request)"
| "handle state peer (Register request) = answered Registered rpc_service_error (register state peer request)"
| "handle state peer (Poll session) = answered Polled rpc_service_error (poll_work state peer session)"
| "handle state peer (Accept identity) = answered Assigned rpc_service_error (accept state peer identity)"
| "handle state peer (FetchRepositoryCredential identity) =
     answered Credential rpc_service_error (repository_credential state peer identity)"
| "handle state peer (Heartbeat request) = answered Beat rpc_service_error (heartbeat state peer request)"
| "handle state peer (PublishReliableEvent request) =
     answered EventAcknowledged rpc_service_error (event state peer request)"
| "handle state peer (PublishProgress request) =
     answered ProgressAccepted rpc_service_error (progress state peer request)"
| "handle state peer (GrantArtifact request) =
     answered ArtifactGranted rpc_service_error (artifact_grant state peer request)"
| "handle state peer (CompleteAttempt request) = answered Completion rpc_service_error (complete state peer request)"
| "handle state peer (ListCleanup session) = answered CleanupItems rpc_service_error (cleanup peer session)"
| "handle state peer (CompleteCleanupRpc request) =
     answered CleanupCompleted rpc_service_error (cleanup_complete peer request)"
| "handle state peer (Deregister session) = answered Deregistered rpc_service_error (deregister peer session)"

definition worker_rpc ::
  "fleet_service \<Rightarrow> string option \<Rightarrow> string + rpc_request \<Rightarrow> (fleet_rpc_error, rpc_response) program" where
  "worker_rpc state extension decoded =
     proceed (rpc_peer extension) (\<lambda>peer. proceed (rpc_wire decoded) (handle state peer))"

section \<open>What every request keeps\<close>

text \<open>\<open>keeps I h\<close>: whenever the program ends, it leaves tables that satisfy \<open>I\<close>.\<close>

definition keeps :: "(db \<Rightarrow> bool) \<Rightarrow> ('e, 'a) program \<Rightarrow> bool" where
  "keeps I h \<longleftrightarrow> (\<forall>es d r d'. I d \<longrightarrow> h es d = Some (r, d') \<longrightarrow> I d')"

lemma keepsD: "keeps I h \<Longrightarrow> I d \<Longrightarrow> h es d = Some (r, d') \<Longrightarrow> I d'"
  by (simp add: keeps_def)

named_theorems keeps_intro

lemma keeps_ends [keeps_intro]: "keeps I (reply a)" "keeps I (fail e)"
  by (simp_all add: keeps_def reply_def fail_def)

lemma keeps_branch [keeps_intro]:
  "(\<And>x. keeps I (k x)) \<Longrightarrow> keeps I (proceed r k)"
  "keeps I h \<Longrightarrow> keeps I (validated v h)"
  "keeps I h \<Longrightarrow> keeps I (authorize_attempt state w identity h)"
  "keeps I h \<Longrightarrow> keeps I (answered f g h)"
  "keeps I h \<Longrightarrow> keeps I h2 \<Longrightarrow> keeps I (if b then h else h2)"
  by (auto simp: proceed_def validated_def authorize_attempt_def keeps_ends split: sum.split)
    (force simp: keeps_def answered_def)

lemma keeps_option [keeps_intro]:
  "keeps I h \<Longrightarrow> (\<And>x. keeps I (k x)) \<Longrightarrow> keeps I (case v of None \<Rightarrow> h | Some x \<Rightarrow> k x)"
  "(\<And>x. keeps I (k2 x)) \<Longrightarrow> keeps I (or_stale k2 v2)"
  "(\<And>x y. keeps I (k3 x y)) \<Longrightarrow> keeps I (case p of (x, y) \<Rightarrow> k3 x y)"
  "(\<And>x. keeps I (k4 x)) \<Longrightarrow> (\<And>x. keeps I (k5 x)) \<Longrightarrow> keeps I (case s of Inl x \<Rightarrow> k4 x | Inr x \<Rightarrow> k5 x)"
  by (auto simp: or_stale_def keeps_ends split: option.split prod.split sum.split)

locale kept_by_history =
  fixes I :: "db \<Rightarrow> bool"
  assumes kept_by: "I d \<Longrightarrow> I (perform op d)"
begin

lemma kept_by_others: "I d \<Longrightarrow> I (fold perform ops d)"
  by (induction ops arbitrary: d) (simp_all add: kept_by)

lemma keeps_await:
  assumes "\<And>e d. I d \<Longrightarrow> I (snd (act e d))" "\<And>x. keeps I (k x)"
  shows "keeps I (await act k)"
  unfolding keeps_def
proof (intro allI impI)
  fix es d r d' assume I: "I d" and run: "await act k es d = Some (r, d')"
  then obtain e rest where es: "es = e # rest" by (cases es) (simp_all add: await_def)
  obtain x d1 where act: "act e (fold perform (e_others e) d) = (x, d1)" by (rule prod.exhaust)
  then have "I d1" using assms(1) [OF kept_by_others [OF I], of e "e_others e"] by simp
  moreover have "k x rest d1 = Some (r, d')" using run act by (simp add: await_def es)
  ultimately show "I d'" using assms(2) by (blast dest: keepsD)
qed

text \<open>The constructs of the handlers. A store operation is one of the operations of a history.\<close>

lemma keeps_constructs:
  "(\<And>x. keeps I (k1 x)) \<Longrightarrow> keeps I (query err q k1)"
  "(\<And>x. keeps I (k2 x)) \<Longrightarrow> keeps I (observe f k2)"
  "(\<And>x. keeps I (k3 x)) \<Longrightarrow> keeps I (authorize_peer peer k3)"
  by (auto simp: query_def observe_def authorize_peer_def intro!: keeps_await keeps_intro split: sum.split)

lemma keeps_transact:
  assumes "\<And>e d. snd (run_tx (tx e) d) = perform (op e) d"
  shows "(\<And>x. keeps I (k x)) \<Longrightarrow> keeps I (store err tx k)"
    "(\<And>x. keeps I (k2 x)) \<Longrightarrow> keeps I (await (\<lambda>e. transact e (tx e)) k2)"
  using assms kept_by
  by (auto simp: store_def transact_def intro!: keeps_await keeps_intro split: sum.split connection.split)

end

context kept_by_history
begin

lemmas performed_simps = perform.simps perform_registry.simps perform_attempt.simps perform_result.simps

lemma keeps_store:
  "(\<And>x. keeps I (k1 x)) \<Longrightarrow> keeps I (store err (\<lambda>e. register_session w peer request ttl (e_now e) (e_utc e)) k1)"
  "(\<And>x. keeps I (k2 x)) \<Longrightarrow> keeps I (store err (\<lambda>e. deregister_session w s (e_now e)) k2)"
  "(\<And>x. keeps I (k3 x)) \<Longrightarrow> keeps I (store err (\<lambda>e. poll_offer w s ottl lttl (e_now e) (e_utc e) (e_ids e) (e_locked e)) k3)"
  "(\<And>x. keeps I (k4 x)) \<Longrightarrow> keeps I (store err (\<lambda>e. accept_offer w identity ttl (e_now e)) k4)"
  "(\<And>x. keeps I (k5 x)) \<Longrightarrow> keeps I (store err (\<lambda>e. heartbeat_attempt w identity ttl drain (e_now e)) k5)"
  "(\<And>x. keeps I (k6 x)) \<Longrightarrow> keeps I (store err (\<lambda>e. complete_cleanup w s i (e_now e)) k6)"
  "(\<And>x. keeps I (k7 x)) \<Longrightarrow> keeps I (store err (\<lambda>e. ingest_reliable_event w report (e_now e)) k7)"
  "(\<And>x. keeps I (k8 x)) \<Longrightarrow> keeps I (store err (\<lambda>e. ingest_progress w report2 (e_now e)) k8)"
  "(\<And>x. keeps I (k9 x)) \<Longrightarrow> keeps I (store err (\<lambda>e. record_artifact_grant grant (e_now e)) k9)"
  "(\<And>x. keeps I (k10 x)) \<Longrightarrow> keeps I (store err (\<lambda>e. verify_artifact identity artifact (e_now e)) k10)"
  "(\<And>x. keeps I (k11 x)) \<Longrightarrow> keeps I (store err (\<lambda>e. mark_staged_artifact_reaped key) k11)"
  "(\<And>x. keeps I (k12 x)) \<Longrightarrow> keeps I (store err (\<lambda>e. accept_terminal ext w identity submission (e_now e)) k12)"
  by ((erule keeps_transact(1) [rotated]; simp only: performed_simps [symmetric]; rule refl)+)


lemmas keeps_rules = keeps_intro keeps_constructs keeps_store

lemma keeps_for_attempt: "(\<And>w. keeps I (k w)) \<Longrightarrow> keeps I (for_attempt state peer v identity k)"
  unfolding for_attempt_def by (intro keeps_rules)

lemma keeps_renew_lease: "(\<And>b. keeps I (k b)) \<Longrightarrow> keeps I (renew_lease state w identity n k)"
  unfolding renew_lease_def by (intro keeps_rules)

lemma keeps_poll_rounds: "keeps I (poll_rounds state w s deadline n)"
proof (induction n)
  case 0
  show ?case by (simp add: keeps_def)
next
  case (Suc n)
  then show ?case unfolding poll_rounds.simps poll_round_def
    by (auto intro!: keeps_rules split: idle_worker_control_t.split)
qed

lemma keeps_poll_loop: "keeps I (poll_loop state w s deadline)"
  unfolding keeps_def
  using keepsD [OF keeps_poll_rounds] poll_loop_rounds [OF lessI] by metis

lemma keeps_extract: "(\<And>r. keeps I (k r)) \<Longrightarrow> keeps I (extract_outcome codec j summary k)"
  unfolding extract_outcome_def Let_def by (intro keeps_rules)

lemma keeps_terminal_write: "(\<And>r. keeps I (k r)) \<Longrightarrow> keeps I (terminal_write codec j i outcome artifacts k)"
  unfolding terminal_write_def Let_def
  by (auto intro!: keeps_rules keeps_extract split: terminal_outcome.split)

lemma keeps_verify_each: "keeps I k \<Longrightarrow> keeps I (verify_each identity artifacts k)"
  by (induction artifacts) (auto simp: Let_def intro!: keeps_rules)

lemma keeps_promote: "(\<And>b. keeps I (k b)) \<Longrightarrow> keeps I (promote_artifacts i artifacts k)"
proof -
  assume k: "\<And>b. keeps I (k b)"
  have uploads: "keeps I (promote_uploads uploads c)" if "\<And>b. keeps I (c b)" for uploads c
    using that by (induction uploads) (auto intro!: keeps_rules)
  have mark: "keeps I (await (\<lambda>e. transact e (mark_artifacts_promoted i artifacts (e_now e))) (\<lambda>r. case r of Inl _ \<Rightarrow> k False | Inr p \<Rightarrow> k p))"
    by (rule keeps_transact(2) [where op = "\<lambda>e. Result (MarkArtifactsPromoted i artifacts (e_now e))"])
      (auto intro!: keeps_intro k)
  show ?thesis unfolding promote_artifacts_def
    by (rule uploads) (use mark in \<open>simp add: k\<close>)
qed

lemma keeps_complete: "keeps I (complete state peer request)"
  unfolding complete_def submit_terminal_def Let_def
  by (intro keeps_for_attempt keeps_verify_each keeps_terminal_write keeps_promote keeps_rules)

lemma keeps_requests:
  "keeps I (check_registration state peer check)" "keeps I (register state peer facts)"
  "keeps I (poll_work state peer session)" "keeps I (accept state peer identity)"
  "keeps I (repository_credential state peer identity)" "keeps I (heartbeat state peer beat)"
  "keeps I (event state peer report)" "keeps I (progress state peer update)"
  "keeps I (cleanup peer session)" "keeps I (cleanup_complete peer completion)" "keeps I (deregister peer session)"
  unfolding check_registration_def registration_readiness_def register_def poll_work_def accept_def
    repository_credential_def heartbeat_def event_def progress_def cleanup_def cleanup_complete_def deregister_def Let_def
  by (intro keeps_rules keeps_for_attempt keeps_renew_lease keeps_poll_loop)+

lemma keeps_grant: "keeps I (artifact_grant state peer grant)"
proof -
  have "keeps I (read_grant state w grant)" "keeps I (write_grant state w grant)" for w
    unfolding read_grant_def write_grant_def by (intro keeps_rules)+
  then show ?thesis unfolding artifact_grant_def by (intro keeps_for_attempt keeps_branch(5))
qed

lemma keeps_handle: "keeps I (handle state peer request)"
  by (cases request) (simp_all add: keeps_branch(4) keeps_requests keeps_grant keeps_complete)

lemma keeps_worker_rpc: "keeps I (worker_rpc state extension decoded)"
  unfolding worker_rpc_def by (intro keeps_rules keeps_handle)

lemma keeps_maintenance: "keeps I (maintenance_tick state)"
proof -
  have pending: "keeps I (promote_pending ps k)" if "keeps I k" for ps k
    using that by (induction ps) (auto intro!: keeps_promote)
  have reap: "keeps I (reap_each keys k)" if "keeps I k" for keys k
    using that by (induction keys) (auto intro!: keeps_rules)
  show ?thesis unfolding maintenance_tick_def by (intro keeps_rules pending reap)
qed

end

end
