(* ===== verification/Service_Promises.thy ===== *)
theory Service_Promises
  imports Fleet_Grpc
begin

text \<open>
  What the fleet service promises to its workers, whatever else happens while a request is served: its writes are
  operations of the store, an attempt is only touched with the token it was issued, every request is answered,
  and a completed attempt is durably settled.
\<close>

section \<open>Requests are histories of the store\<close>

interpretation history: kept_by_history "\<lambda>d'. \<exists>ops. d' = fold perform ops d" for d
proof
  fix d' op assume "\<exists>ops. d' = fold perform ops d"
  then obtain ops where "d' = fold perform ops d" ..
  then have "perform op d' = fold perform (ops @ [op]) d" by simp
  then show "\<exists>ops. perform op d' = fold perform ops d" ..
qed

interpretation sound: kept_by_history well_formed
  by unfold_locales (use coordinator.run_inv [of _ "[_]"] in simp)


section \<open>Authorization\<close>

primrec rpc_identity :: "rpc_request \<Rightarrow> attempt_identity option" where
  "rpc_identity (CheckRegistration _) = None"
| "rpc_identity (Register _) = None"
| "rpc_identity (Poll _) = None"
| "rpc_identity (Accept identity) = Some identity"
| "rpc_identity (FetchRepositoryCredential identity) = Some identity"
| "rpc_identity (Heartbeat request) = Some (hb_identity request)"
| "rpc_identity (PublishReliableEvent request) = Some (re_identity request)"
| "rpc_identity (PublishProgress request) = Some (pg_identity request)"
| "rpc_identity (GrantArtifact request) = Some (ag_identity request)"
| "rpc_identity (CompleteAttempt request) = Some (ca_identity request)"
| "rpc_identity (ListCleanup _) = None"
| "rpc_identity (CompleteCleanupRpc _) = None"
| "rpc_identity (Deregister _) = None"

text \<open>\<open>admitted state peer identity h\<close>: the program fails before it writes anything, or the peer's worker is
  authorized and the token of the identity verifies for it.\<close>

definition admitted :: "fleet_service \<Rightarrow> string \<Rightarrow> attempt_identity \<Rightarrow> ('e, 'a) program \<Rightarrow> bool" where
  "admitted state peer identity h \<longleftrightarrow> (\<forall>es d r d'. h es d = Some (r, d') \<longrightarrow>
     (\<exists>e rest. es = e # rest \<and>
       ((\<exists>err. r = Inl err) \<and> d' = fold perform (e_others e) d
        \<or> (\<exists>worker. authorize_worker peer (fold perform (e_others e) d) = Inr (Some worker)
            \<and> verify (fv_signer state) (wz_worker_id worker) identity))))"

lemma admitted_for_attempt: "admitted state peer identity (for_attempt state peer v identity k)"
  unfolding admitted_def
proof (intro allI impI)
  fix es d r d' assume run: "for_attempt state peer v identity k es d = Some (r, d')"
  then obtain e rest where es: "es = e # rest"
    by (cases es) (simp_all add: for_attempt_def authorize_peer_def query_def await_def)
  from run show "\<exists>e rest. es = e # rest \<and>
       ((\<exists>err. r = Inl err) \<and> d' = fold perform (e_others e) d
        \<or> (\<exists>worker. authorize_worker peer (fold perform (e_others e) d) = Inr (Some worker)
            \<and> verify (fv_signer state) (wz_worker_id worker) identity))"
    by (auto simp: es for_attempt_def authorize_peer_def query_def await_def validated_def authorize_attempt_def fail_def
        split: if_splits sum.splits option.splits)
qed

lemma admitted_answered: "admitted state peer identity h \<Longrightarrow> admitted state peer identity (answered f g h)"
  unfolding admitted_def answered_def by fastforce

lemma admitted_handle: "rpc_identity request = Some identity \<Longrightarrow> admitted state peer identity (handle state peer request)"
  by (cases request) (auto intro!: admitted_answered admitted_for_attempt simp: accept_def repository_credential_def
      heartbeat_def event_def progress_def artifact_grant_def complete_def)

text \<open>C11: A request about an attempt either fails before it writes anything, or it carries the token that was
  issued for this very attempt, session and fence, to the worker the connection is authenticated as. So a token lets
  nobody act on another attempt, for another worker or under another fence, as long as the HMAC does not collide on the
  messages in question.\<close>

theorem attempt_requests_are_authorized:
  assumes "rpc_identity request = Some identity" "ai_lease_token identity = issue (fv_signer state) w s a f"
    "collision_free (fv_signer state) (insert (signing_bytes w s a f) (range (\<lambda>worker. signing_bytes worker
       (ai_worker_session_id identity) (ai_attempt_id identity) (ai_fencing_generation identity))))"
    "worker_rpc state (Some peer) (Inr request) es d = Some (r, d')"
  shows "\<exists>e rest. es = e # rest \<and>
    ((\<exists>err. r = Inl err) \<and> d' = fold perform (e_others e) d
     \<or> (\<exists>worker. authorize_worker peer (fold perform (e_others e) d) = Inr (Some worker) \<and> wz_worker_id worker = w
         \<and> ai_worker_session_id identity = s \<and> ai_attempt_id identity = a \<and> ai_fencing_generation identity = f))"
proof -
  have "handle state peer request es d = Some (r, d')"
    using assms(4) by (simp add: worker_rpc_def rpc_peer_def rpc_wire_def proceed_def)
  with admitted_handle [OF assms(1)] obtain e rest where es: "es = e # rest"
    and cases: "(\<exists>err. r = Inl err) \<and> d' = fold perform (e_others e) d
        \<or> (\<exists>worker. authorize_worker peer (fold perform (e_others e) d) = Inr (Some worker)
            \<and> verify (fv_signer state) (wz_worker_id worker) identity)"
    unfolding admitted_def by blast
  have "wz_worker_id worker = w \<and> ai_worker_session_id identity = s \<and> ai_attempt_id identity = a \<and> ai_fencing_generation identity = f"
    if "verify (fv_signer state) (wz_worker_id worker) identity" for worker :: worker_authorization
    by (rule verify_issued [OF assms(3) that assms(2)]) simp_all
  with es cases show ?thesis by blast
qed

section \<open>Every request is answered\<close>

text \<open>\<open>answers n h\<close>: the program ends once it has been through at most \<open>n\<close> points where it waits.\<close>

definition answers :: "nat \<Rightarrow> ('e, 'a) program \<Rightarrow> bool" where
  "answers n h \<longleftrightarrow> (\<forall>es d. n \<le> length es \<longrightarrow> h es d \<noteq> None)"

named_theorems answers_intro

lemma answers_ends [answers_intro]: "answers n (reply a)" "answers n (fail e)"
  by (simp_all add: answers_def reply_def fail_def)

lemma answers_branch [answers_intro]:
  "(\<And>x. answers n (k x)) \<Longrightarrow> answers n (proceed r k)"
  "answers n h \<Longrightarrow> answers n (validated v h)"
  "answers n h \<Longrightarrow> answers n (authorize_attempt state w identity h)"
  "answers n h \<Longrightarrow> answers n (answered f g h)"
  "answers n h \<Longrightarrow> answers n h2 \<Longrightarrow> answers n (if b then h else h2)"
  "answers n h \<Longrightarrow> (\<And>x. answers n (k3 x)) \<Longrightarrow> answers n (case v3 of None \<Rightarrow> h | Some x \<Rightarrow> k3 x)"
  "(\<And>x. answers n (k4 x)) \<Longrightarrow> answers n (or_stale k4 v4)"
  "(\<And>x y. answers n (k5 x y)) \<Longrightarrow> answers n (case p of (x, y) \<Rightarrow> k5 x y)"
  "(\<And>x. answers n (k6 x)) \<Longrightarrow> (\<And>x. answers n (k7 x)) \<Longrightarrow> answers n (case s of Inl x \<Rightarrow> k6 x | Inr x \<Rightarrow> k7 x)"
  by (auto simp: proceed_def validated_def authorize_attempt_def or_stale_def answers_ends split: sum.split option.split prod.split)
    (simp add: answers_def answered_def)

lemma answers_await:
  assumes "\<And>x. answers n (k x)"
  shows "answers (Suc n) (await act k)"
  using assms by (auto simp: answers_def await_def Suc_le_length_iff split: prod.split)

lemma answers_constructs [answers_intro]:
  "(\<And>x. answers n (k1 x)) \<Longrightarrow> answers (Suc n) (query err q k1)"
  "(\<And>x. answers n (k2 x)) \<Longrightarrow> answers (Suc n) (observe f k2)"
  "(\<And>x. answers n (k3 x)) \<Longrightarrow> answers (Suc n) (store err3 tx k3)"
  "(\<And>x. answers n (k4 x)) \<Longrightarrow> answers (Suc n) (authorize_peer peer k4)"
  by (auto simp: query_def observe_def store_def authorize_peer_def intro!: answers_await answers_intro split: sum.split)

lemma answers_mono: "answers n h \<Longrightarrow> n \<le> m \<Longrightarrow> answers m h"
  by (auto simp: answers_def)

lemma answers_for_attempt [answers_intro]:
  "(\<And>w. answers n (k w)) \<Longrightarrow> answers (Suc n) (for_attempt state peer v identity k)"
  unfolding for_attempt_def by (intro answers_intro)

lemma answers_renew_lease [answers_intro]:
  "(\<And>b. answers n (k b)) \<Longrightarrow> answers (Suc n) (renew_lease state w identity m k)"
  unfolding renew_lease_def by (intro answers_intro)

lemma answers_promote:
  assumes "\<And>b. answers n (k b)"
  shows "answers (length artifacts + Suc n) (promote_artifacts i artifacts k)"
proof -
  have uploads: "answers (length uploads + m) (promote_uploads uploads c)" if "\<And>b. answers m (c b)" for uploads c m
  proof (induction uploads)
    case (Cons u uploads)
    have "answers (length uploads + m) (c False)" by (rule answers_mono [OF that]) simp
    with Cons show ?case by (auto intro!: answers_intro)
  qed (simp add: that)
  have later: "answers (Suc n) (k b)" for b by (rule answers_mono [OF assms]) simp
  have mark: "answers (Suc n) (await (\<lambda>e. transact e (mark_artifacts_promoted i artifacts (e_now e)))
      (case_sum (\<lambda>_. k False) k))"
    by (rule answers_await) (simp add: assms split: sum.split)
  show ?thesis
    unfolding promote_artifacts_def by (rule uploads) (use mark in \<open>simp add: later\<close>)
qed

lemma answers_verify_each:
  assumes "answers n k"
  shows "answers (2 * length artifacts + n) (verify_each identity artifacts k)"
proof (induction artifacts)
  case (Cons a artifacts)
  then show ?case by (auto simp: Let_def intro!: answers_intro)
qed (simp add: assms)

lemma answers_terminal_write:
  assumes "\<And>x. answers n (k x)"
  shows "answers (Suc n) (terminal_write codec j i outcome artifacts k)"
proof -
  have one: "answers (Suc n) (k x)" for x by (rule answers_mono [OF assms]) simp
  show ?thesis unfolding terminal_write_def extract_outcome_def Let_def
    by (auto intro!: answers_constructs assms one split: terminal_outcome.split option.split)
qed

lemma five_waits: "(5 :: nat) = Suc (Suc (Suc (Suc (Suc 0))))"
  by simp

lemma answers_requests:
  "answers 5 (check_registration state peer check)" "answers 5 (register state peer facts)"
  "answers 5 (accept state peer identity)" "answers 5 (repository_credential state peer identity)"
  "answers 5 (heartbeat state peer beat)" "answers 5 (event state peer report)" "answers 5 (progress state peer update)"
  "answers 5 (artifact_grant state peer grant)" "answers 5 (cleanup peer session)"
  "answers 5 (cleanup_complete peer completion)" "answers 5 (deregister peer session)"
  unfolding check_registration_def registration_readiness_def register_def accept_def
    repository_credential_def heartbeat_def event_def progress_def cleanup_def cleanup_complete_def deregister_def
    artifact_grant_def read_grant_def write_grant_def Let_def five_waits
  by (intro answers_intro)+

lemma answers_complete: "answers (3 * length (ca_artifacts request) + 6) (complete state peer request)"
proof -
  let ?n = "length (ca_artifacts request)"
  have submit: "answers (Suc (Suc (?n + Suc 0))) (submit_terminal state w j request)" for w j
    unfolding submit_terminal_def Let_def
    by (intro answers_intro answers_terminal_write answers_promote)
  have "answers (Suc (Suc (Suc (2 * ?n + Suc (Suc (?n + Suc 0)))))) (complete state peer request)"
    unfolding complete_def
    by (intro answers_intro answers_verify_each submit) (rule answers_mono [OF submit], simp)
  then show ?thesis by (rule answers_mono) simp
qed

text \<open>A round of the long poll waits at most six times, and it is the last one when its deadline has passed.\<close>

definition ends :: "env list \<Rightarrow> ('e, 'a) program \<Rightarrow> bool" where
  "ends es h \<longleftrightarrow> (\<forall>d. h es d \<noteq> None)"

lemma ends_rules:
  "ends es (reply a)" "ends es (fail e)"
  "(\<And>x. ends es (k1 x)) \<Longrightarrow> ends es (proceed r k1)"
  "(b \<Longrightarrow> ends es h) \<Longrightarrow> (\<not> b \<Longrightarrow> ends es h2) \<Longrightarrow> ends es (if b then h else h2)"
  "ends es h \<Longrightarrow> (\<And>x. ends es (k3 x)) \<Longrightarrow> ends es (case v3 of None \<Rightarrow> h | Some x \<Rightarrow> k3 x)"
  "ends es h \<Longrightarrow> ends es h2 \<Longrightarrow> ends es h3 \<Longrightarrow>
     ends es (case c of LegacyDrain \<Rightarrow> h | ControlShutdownAfterIdle \<Rightarrow> h2 | ControlPoll \<Rightarrow> h3)"
  "(\<And>x. ends es (k4 x)) \<Longrightarrow> ends (env # es) (query err q k4)"
  "(\<And>x. ends es (k5 x)) \<Longrightarrow> ends (env # es) (store err5 tx k5)"
  "ends es (k6 (f env)) \<Longrightarrow> ends (env # es) (observe f k6)"
  by (simp_all add: ends_def reply_def fail_def proceed_def query_def store_def observe_def await_def
      split: sum.split option.split prod.split idle_worker_control_t.split)

lemma poll_round_answers:
  assumes "6 \<le> length es" "deadline \<le> e_monotonic (es ! 4) \<or> ends (drop 6 es) again"
  shows "ends es (poll_round state w s deadline again)"
proof -
  obtain e0 e1 e2 e3 e4 e5 rest where es: "es = e0 # e1 # e2 # e3 # e4 # e5 # rest"
    using assms(1) by (auto simp: eval_nat_numeral Suc_le_length_iff)
  then have again: "ends rest again" if "\<not> deadline \<le> e_monotonic e4" using assms(2) that by simp
  show ?thesis
    unfolding poll_round_def es by (intro ends_rules again)
qed

lemma poll_loop_answers:
  assumes "6 * n + 6 \<le> length es" "\<forall>j < length es. 6 * n \<le> j \<longrightarrow> deadline \<le> e_monotonic (es ! j)"
  shows "ends es (poll_loop state w s deadline)"
proof -
  have round: "ends es (poll_loop state w s deadline)"
    if "6 \<le> length es" "deadline \<le> e_monotonic (es ! 4) \<or> ends (drop 6 es) (poll_loop state w s deadline)" for es
    using poll_round_answers [OF that, of state w s] by (simp add: ends_def poll_loop.simps [of _ _ _ _ es])
  show ?thesis
    using assms
  proof (induction n arbitrary: es)
    case (Suc n)
    have "ends (drop 6 es) (poll_loop state w s deadline)"
      by (rule Suc.IH) (use Suc.prems in auto)
    then show ?case using Suc.prems(1) by (intro round) auto
  qed (intro round, auto)
qed

text \<open>How often a request waits; a poll is given the rounds that start before its deadline passes.\<close>

definition waits :: "rpc_request \<Rightarrow> nat \<Rightarrow> nat" where
  "waits request n = (case request of CompleteAttempt r \<Rightarrow> 3 * length (ca_artifacts r) + 6 | Poll _ \<Rightarrow> 6 * n + 10 | _ \<Rightarrow> 5)"

definition deadline_passes :: "fleet_service \<Rightarrow> rpc_request \<Rightarrow> nat \<Rightarrow> env list \<Rightarrow> bool" where
  "deadline_passes state request n es = (case request of
     Poll _ \<Rightarrow> list_all (\<lambda>e. e_monotonic (es ! 3) + int (unat (fg_long_poll_seconds (fv_config state))) * 1000000
       \<le> e_monotonic e) (drop (6 * n + 4) es)
   | _ \<Rightarrow> True)"

lemma poll_work_answers:
  assumes "6 * n + 10 \<le> length es" "list_all (\<lambda>e. e_monotonic (es ! 3) + int (unat (fg_long_poll_seconds (fv_config state))) * 1000000
       \<le> e_monotonic e) (drop (6 * n + 4) es)"
  shows "ends es (poll_work state peer session)"
proof -
  obtain e0 e1 e2 e3 rest where es: "es = e0 # e1 # e2 # e3 # rest"
    using le_trans [OF _ assms(1), of 4] by (auto simp: eval_nat_numeral Suc_le_length_iff)
  have loop: "ends rest (poll_loop state w session
      (e_monotonic e3 + int (unat (fg_long_poll_seconds (fv_config state))) * 1000000))" for w
  proof (rule poll_loop_answers [of n]; (intro allI impI)?)
    show "6 * n + 6 \<le> length rest" using assms(1) by (simp add: es)
    fix j assume j: "j < length rest" "6 * n \<le> j"
    then have "rest ! j \<in> set (drop (6 * n) rest)"
      using nth_mem [of "j - 6 * n" "drop (6 * n) rest"] by simp
    then show "e_monotonic e3 + int (unat (fg_long_poll_seconds (fv_config state))) * 1000000 \<le> e_monotonic (rest ! j)"
      using assms(2) by (simp add: es list_all_iff eval_nat_numeral)
  qed
  have peer: "ends (e # es) (authorize_peer peer k)" if "\<And>x. ends es (k x)" for e es and k :: "worker_authorization \<Rightarrow> 'a handler"
    unfolding authorize_peer_def by (intro ends_rules that)
  have valid: "ends es (validated v h)" if "ends es h" for es v and h :: "'a handler"
    using that by (simp add: validated_def ends_rules split: sum.split)
  show ?thesis unfolding poll_work_def es Let_def by (intro peer valid ends_rules loop)
qed

text \<open>C13: Every request is answered after a bounded number of steps: a completion after a number that is linear in
  its artifacts, the other requests after five, and a long poll in the round in which its deadline passes.\<close>

theorem requests_are_answered:
  assumes "waits request n \<le> length es" "deadline_passes state request n es"
  shows "worker_rpc state peer (Inr request) es d \<noteq> None"
proof -
  have "handle state p request es d \<noteq> None" for p
  proof (cases request)
    case (Poll session)
    then have "ends es (poll_work state p session)"
      using assms by (intro poll_work_answers [of n]) (simp_all add: waits_def deadline_passes_def)
    then show ?thesis by (simp add: Poll answered_def ends_def)
  next
    case (CompleteAttempt r)
    then show ?thesis
      using answers_complete [of r state p] assms(1) by (simp add: answered_def answers_def waits_def)
  qed (use assms(1) answers_requests in \<open>simp_all add: answered_def answers_def waits_def\<close>)
  then show ?thesis
    by (simp add: worker_rpc_def proceed_def rpc_peer_def rpc_wire_def fail_def split: option.split)
qed

section \<open>A completed attempt is settled\<close>

text \<open>\<open>replies P h Q\<close>: started where \<open>P\<close> holds, the program only replies with an answer and tables that satisfy
  \<open>Q\<close>. Between the steps \<open>P\<close> has to survive the histories of the others.\<close>

definition replies :: "(db \<Rightarrow> bool) \<Rightarrow> ('e, 'a) program \<Rightarrow> ('a \<Rightarrow> db \<Rightarrow> bool) \<Rightarrow> bool" where
  "replies P h Q \<longleftrightarrow> (\<forall>es d a d'. P d \<longrightarrow> h es d = Some (Inr a, d') \<longrightarrow> Q a d')"

definition stable :: "(db \<Rightarrow> bool) \<Rightarrow> bool" where
  "stable P \<longleftrightarrow> (\<forall>ops d. P d \<longrightarrow> P (fold perform ops d))"

named_theorems replies_intro

lemma replies_ends [replies_intro]: "(\<And>d. P d \<Longrightarrow> Q a d) \<Longrightarrow> replies P (reply a) Q" "replies P (fail e) Q"
  by (simp_all add: replies_def reply_def fail_def)

lemma replies_branch [replies_intro]:
  "(\<And>x. r = Inr x \<Longrightarrow> replies P (k x) Q) \<Longrightarrow> replies P (proceed r k) Q"
  "replies P h Q \<Longrightarrow> replies P (validated v h) Q"
  "replies P h Q \<Longrightarrow> replies P (authorize_attempt state w identity h) Q"
  "(b \<Longrightarrow> replies P h Q) \<Longrightarrow> (\<not> b \<Longrightarrow> replies P h2 Q) \<Longrightarrow> replies P (if b then h else h2) Q"
  "replies P h Q \<Longrightarrow> (\<And>x. replies P (k3 x) Q) \<Longrightarrow> replies P (case v3 of None \<Rightarrow> h | Some x \<Rightarrow> k3 x) Q"
  "(\<And>x. replies P (k4 x) Q) \<Longrightarrow> replies P (or_stale k4 v4) Q"
  "(\<And>x y. replies P (k5 x y) Q) \<Longrightarrow> replies P (case p of (x, y) \<Rightarrow> k5 x y) Q"
  by (auto simp: proceed_def validated_def authorize_attempt_def or_stale_def replies_ends
      split: sum.split option.split prod.split)

lemma replies_await:
  assumes "stable P" "\<And>e d x d'. P d \<Longrightarrow> act e d = (x, d') \<Longrightarrow> P' x d'" "\<And>x. replies (P' x) (k x) Q"
  shows "replies P (await act k) Q"
  unfolding replies_def
proof (intro allI impI)
  fix es d a d' assume P: "P d" and run: "await act k es d = Some (Inr a, d')"
  then obtain e rest where es: "es = e # rest" by (cases es) (simp_all add: await_def)
  obtain x d1 where act: "act e (fold perform (e_others e) d) = (x, d1)" by (rule prod.exhaust)
  have "P (fold perform (e_others e) d)" using P assms(1) by (simp add: stable_def)
  then have "P' x d1" using act by (rule assms(2))
  moreover have "k x rest d1 = Some (Inr a, d')" using run act by (simp add: await_def es)
  ultimately show "Q a d'" using assms(3) by (simp add: replies_def)
qed

lemma replies_query [replies_intro]: "stable P \<Longrightarrow> (\<And>x. replies P (k x) Q) \<Longrightarrow> replies P (query err q k) Q"
  unfolding query_def by (rule replies_await [where P' = "\<lambda>_. P"]) (auto simp: replies_ends split: sum.split)

lemma replies_observe [replies_intro]: "stable P \<Longrightarrow> (\<And>x. replies P (k x) Q) \<Longrightarrow> replies P (observe f k) Q"
  unfolding observe_def by (rule replies_await [where P' = "\<lambda>_. P"]) auto

lemma replies_store:
  assumes "stable P" "\<And>e d x d'. P d \<Longrightarrow> run_tx (tx e) d = (Inr x, d') \<Longrightarrow> P' x d'" "\<And>x. replies (P' x) (k x) Q"
  shows "replies P (store err tx k) Q"
  unfolding store_def
proof (rule replies_await [OF assms(1)])
  let ?P = "\<lambda>r d. case r of Inl _ \<Rightarrow> True | Inr x \<Rightarrow> P' x d"
  show "?P r d'" if "P d" "transact e (tx e) d = (r, d')" for e d r d'
    using that assms(2) by (auto simp: transact_def split: connection.splits sum.splits)
  show "replies (?P r) (case r of Inl e \<Rightarrow> fail (err e) | Inr x \<Rightarrow> k x) Q" for r
    using assms(3) by (cases r) (simp_all add: replies_ends)
qed

lemma replies_for_attempt [replies_intro]:
  "stable P \<Longrightarrow> (\<And>w. replies P (k w) Q) \<Longrightarrow> replies P (for_attempt state peer v identity k) Q"
  unfolding for_attempt_def authorize_peer_def by (intro replies_intro)

lemma replies_mono: "replies P h Q \<Longrightarrow> (\<And>d. P' d \<Longrightarrow> P d) \<Longrightarrow> replies P' h Q"
  by (auto simp: replies_def)

text \<open>An attempt with a given result, after its artifacts were promoted as well.\<close>

definition settled :: "complete_attempt_request \<Rightarrow> db \<Rightarrow> bool" where
  "settled request d \<longleftrightarrow> (\<exists>a. row_of wa_attempt_id (db_attempts d) (ai_attempt_id (ca_identity request)) = Some a
     \<and> terminal (wa_status a)
     \<and> terminal_content a = (Some (as_i64 (ca_terminal_reliable_seq request)), Some (ca_terminal_payload_digest request),
         Some (ca_outcome request), Some (ca_artifacts request)))"

definition promoted :: "complete_attempt_request \<Rightarrow> db \<Rightarrow> bool" where
  "promoted request d \<longleftrightarrow> list_all (\<lambda>artifact. list_ex (is_staged {Promoted} (ai_attempt_id (ca_identity request)) artifact)
     (db_staging d)) (ca_artifacts request)"

lemma stable_well_formed: "stable well_formed"
  by (simp add: stable_def coordinator.run_inv)

lemma stable_settled: "stable (\<lambda>d. well_formed d \<and> settled request d)"
  unfolding stable_def
proof (intro allI impI conjI)
  fix ops d assume d: "well_formed d \<and> settled request d"
  let ?i = "ai_attempt_id (ca_identity request)" and ?d = "fold perform ops d"
  show wf: "well_formed ?d" using d by (simp add: coordinator.run_inv)
  from d obtain a where a: "row_of wa_attempt_id (db_attempts d) ?i = Some a" "terminal (wa_status a)"
    "terminal_content a = (Some (as_i64 (ca_terminal_reliable_seq request)), Some (ca_terminal_payload_digest request),
         Some (ca_outcome request), Some (ca_artifacts request))"
    by (auto simp: settled_def)
  obtain a' where a': "row_of wa_attempt_id (db_attempts ?d) ?i = Some a'" "terminal_content a' = terminal_content a"
    using attempt_after_history [OF _ a(1), of ops] a(2) d by metis
  then have "a' \<in> set (db_attempts ?d)" by (auto simp: row_of_def find_Some_iff)
  then have "attempt_check a'"
    using wf by (simp add: well_formed_def schema_ok_def attempt_table_ok_def list_all_iff)
  moreover have "wa_terminal_outcome a' \<noteq> None" using a'(2) a(3) by (simp add: terminal_content_def)
  ultimately have "terminal (wa_status a')" by (auto simp: attempt_check_def split: if_splits)
  with a' a(3) show "settled request ?d" by (auto simp: settled_def)
qed

text \<open>An acceptance is always committed.\<close>

lemma persist_write_rollback:
  assumes "\<And>d'. k d' \<noteq> Rollback x"
  shows "persist_write now i a result d k \<noteq> Rollback x"
  using assms
  by (cases result) (simp_all add: persist_write_def persist_completion_def persist_failure_def insert_job_result_def
      insert_job_metric_def persist_block_result_def durable_i64_def durable_i32_def Let_def
      split: option.split sum.split)

lemma commit_terminal_rollback:
  assumes "x \<noteq> Stale"
  shows "commit_terminal w identity submission attempt now d \<noteq> Rollback x"
proof -
  have settle: "update_attempts P f d2 (\<lambda>d3. update_sessions P2 (f2 d3) d3 (Commit Accepted)) \<noteq> Rollback x" for P f d2 P2 f2
    by (simp add: update_attempts_def set_attempts_def update_sessions_def set_sessions_def)
  show ?thesis
    unfolding commit_terminal_def Let_def update_jobs_def set_jobs_def
    using assms persist_write_rollback [OF settle] by simp
qed

lemma acceptance_committed: "accept_terminal ext w identity submission now d \<noteq> Rollback Accepted"
  by (simp add: accept_terminal_def commit_terminal_rollback split: option.split sum.split)

lemma accept_terminal_settles:
  assumes "run_tx (accept_terminal ext w (ca_identity request) submission now) d = (Inr acceptance, d')"
    "submission = \<lparr>tm_reliable_seq = ca_terminal_reliable_seq request,
      tm_payload_digest = ca_terminal_payload_digest request, tm_outcome = ca_outcome request,
      tm_artifacts = ca_artifacts request, tm_write = result\<rparr>"
    "well_formed d" "acceptance \<noteq> Stale"
  shows "settled request d'"
proof -
  let ?i = "ai_attempt_id (ca_identity request)"
  note sch = schema_distinct(2) [OF wfD(1) [OF assms(3)]]
  have "(\<exists>r. accept_terminal ext w (ca_identity request) submission now d = Commit r d')
    \<or> d' = d \<and> accept_terminal ext w (ca_identity request) submission now d = Rollback Duplicate"
    using assms(1,4) acceptance_committed
    by (cases acceptance) (auto simp: run_tx_def split: outcome.splits)
  then show ?thesis
  proof (elim disjE exE conjE)
    fix r assume "accept_terminal ext w (ca_identity request) submission now d = Commit r d'"
    then obtain a where found: "find (names_attempt w (ca_identity request)) (db_attempts d) = Some a"
      and atts: "db_attempts d' = update_where (\<lambda>a. wa_attempt_id a = ?i) (settle_attempt now submission) (db_attempts d)"
      by (rule accept_terminal_commit)
    from find_named [OF sch found] have "row_of wa_attempt_id (db_attempts d) ?i = Some a" "wa_attempt_id a = ?i"
      using find_conv [OF found] by (simp_all add: names_attempt_def)
    then have "row_of wa_attempt_id (db_attempts d') ?i = Some (settle_attempt now submission a)"
      by (simp add: atts row_of_update_where)
    then show ?thesis
      using settled_terminal [of now submission a]
      by (simp add: settled_def terminal_content_def) (simp add: settle_attempt_def assms(2))
  next
    assume dup: "accept_terminal ext w (ca_identity request) submission now d = Rollback Duplicate" and "d' = d"
    then obtain a where found: "find (names_attempt w (ca_identity request)) (db_attempts d) = Some a"
      and a: "terminal (wa_status a)" "same_terminal submission a"
      using commit_terminal_rollback [of Duplicate]
      by (auto simp: accept_terminal_def split: option.splits if_splits sum.splits)
    from find_named [OF sch found] have "row_of wa_attempt_id (db_attempts d) ?i = Some a"
      using find_conv [OF found] by (simp add: names_attempt_def)
    with a \<open>d' = d\<close> show ?thesis by (simp add: settled_def terminal_content_def same_terminal_def assms(2))
  qed
qed

lemma promotion_kept:
  assumes "list_ex (is_staged {Promoted} i b) t"
  shows "list_ex (is_staged {Promoted} i b) (update_where P (promote now) t)"
proof -
  obtain s where "s \<in> set t" "is_staged {Promoted} i b s" using assms by (auto simp: list_ex_iff)
  then have "(if P s then promote now s else s) \<in> set (update_where P (promote now) t)"
    "is_staged {Promoted} i b (if P s then promote now s else s)"
    by (auto simp: in_update_where is_staged_def promote_def)
  then show ?thesis unfolding list_ex_iff by blast
qed

lemma promote_each_keeps:
  "promote_each i artifacts now d = Commit True d' \<Longrightarrow> list_ex (is_staged {Promoted} i b) (db_staging d)
     \<Longrightarrow> list_ex (is_staged {Promoted} i b) (db_staging d')"
  by (induction i artifacts now d rule: promote_each.induct)
    (auto simp: Let_def set_staging_def promotion_kept split: if_splits)

lemma promote_each_promotes:
  "promote_each i artifacts now d = Commit True d'
     \<Longrightarrow> list_all (\<lambda>a. list_ex (is_staged {Promoted} i a) (db_staging d')) artifacts"
proof (induction artifacts arbitrary: d)
  case (Cons a artifacts)
  let ?staged = "is_staged {Verified, Promoted} i a"
  let ?d = "d\<lparr>db_staging := update_where ?staged (promote now) (db_staging d)\<rparr>"
  have one: "affected ?staged (db_staging d) = 1" and rest: "promote_each i artifacts now ?d = Commit True d'"
    using Cons.prems by (auto simp: Let_def set_staging_def split: if_splits)
  have "affected ?staged (db_staging d) \<noteq> 0" using one by simp
  then obtain s where "s \<in> set (db_staging d)" "?staged s" unfolding affected_zero by blast
  then have "promote now s \<in> set (db_staging ?d)" "is_staged {Promoted} i a (promote now s)"
    by (auto simp: in_update_where is_staged_def promote_def)
  then have "list_ex (is_staged {Promoted} i a) (db_staging ?d)" unfolding list_ex_iff by blast
  with promote_each_keeps [OF rest] Cons.IH [OF rest] show ?case by simp
qed simp

lemma promote_each_committed: "promote_each i artifacts now d \<noteq> Rollback True"
  by (induction i artifacts now d rule: promote_each.induct) (simp_all add: Let_def set_staging_def)

lemma replies_promote:
  assumes "stable P"
    "\<And>now d d'. P d \<Longrightarrow> promote_each i artifacts now d = Commit True d' \<Longrightarrow> P' d'" "replies P' (k True) Q" "replies (\<lambda>_. True) (k False) Q"
  shows "replies P (promote_artifacts i artifacts k) Q"
proof -
  have uploads: "replies P (promote_uploads uploads c) Q" if "replies P (c True) Q" "replies P (c False) Q" for uploads c
    using that by (induction uploads) (auto intro!: replies_intro assms(1))
  have failed: "replies R (k False) Q" for R by (rule replies_mono [OF assms(4)]) simp
  have "replies P (await (\<lambda>e. transact e (mark_artifacts_promoted i artifacts (e_now e))) (case_sum (\<lambda>_. k False) k)) Q"
  proof (rule replies_await [OF assms(1)])
    let ?P = "\<lambda>r d. r = Inr True \<longrightarrow> P' d"
    show "?P r d'" if "P d" "transact e (mark_artifacts_promoted i artifacts (e_now e)) d = (r, d')" for e d r d'
      using that assms(2) [OF that(1)] promote_each_committed
      by (auto simp: transact_def run_tx_def mark_artifacts_promoted_def split: connection.splits outcome.splits if_splits)
    show "replies (?P r) (case_sum (\<lambda>_. k False) k r) Q" for r
    proof (cases "r = Inr True")
      case True
      then show ?thesis using assms(3) by simp
    next
      case False
      then have "case_sum (\<lambda>_. k False) k r = k False" by (auto split: sum.split)
      then show ?thesis using failed by simp
    qed
  qed
  then show ?thesis unfolding promote_artifacts_def by (intro uploads) (simp_all add: failed)
qed

lemma promote_each_attempts: "promote_each i artifacts now d = Commit True d' \<Longrightarrow> db_attempts d' = db_attempts d"
  by (induction i artifacts now d rule: promote_each.induct) (auto simp: Let_def set_staging_def split: if_splits)

lemma replies_extract:
  "stable P \<Longrightarrow> (\<And>r. replies P (k r) Q) \<Longrightarrow> replies P (extract_outcome codec j summary k) Q"
  unfolding extract_outcome_def Let_def by (intro replies_intro)

lemma replies_terminal_write:
  assumes "stable P" "\<And>x. replies P (k x) Q"
  shows "replies P (terminal_write codec j i outcome artifacts k) Q"
  unfolding terminal_write_def Let_def
  by (cases outcome) (auto intro!: replies_extract assms split: option.split)

lemma submit_terminal_settles:
  "replies well_formed (submit_terminal state w j request) (\<lambda>answer d. answer \<and> settled request d \<and> promoted request d)"
proof -
  let ?settled = "\<lambda>d. well_formed d \<and> settled request d"
  have kept: "well_formed d'" if "run_tx (accept_terminal ext w identity submission now) d = (r, d')" "well_formed d"
    for ext identity submission now d r d'
    using coordinator.run_inv [of d "[Result (AcceptTerminal ext w identity submission now)]"] that by simp
  have promote: "settled request d' \<and> promoted request d'"
    if "?settled d" "promote_each (ai_attempt_id (ca_identity request)) (ca_artifacts request) now d = Commit True d'" for now d d'
    using that promote_each_promotes [OF that(2)] promote_each_attempts [OF that(2)] by (simp add: settled_def promoted_def)
  have rest: "replies (\<lambda>d. acceptance = Stale \<or> ?settled d)
      (if acceptance = Stale then fail stale_attempt
       else promote_artifacts (ai_attempt_id (ca_identity request)) (ca_artifacts request) (\<lambda>promoted.
         if promoted then reply True
         else fail (service_error Unavailable ''artifact_promotion_failed''
                ''terminal is accepted but artifact promotion is incomplete; retry'' True)))
      (\<lambda>answer d. answer \<and> settled request d \<and> promoted request d)" for acceptance
    by (cases "acceptance = Stale") (auto intro!: replies_promote [OF stable_settled promote] replies_ends)
  show ?thesis
    unfolding submit_terminal_def Let_def
    by (intro replies_terminal_write [OF stable_well_formed] replies_store [OF stable_well_formed _ rest])
      (auto intro: kept accept_terminal_settles)
qed

text \<open>C9: When the service answers a completion, the result is durable: the attempt is terminal and holds the
  sequence number, digest, outcome and manifest of the request, every artifact of the manifest is promoted, and after
  any later history the attempt still holds that result.\<close>

theorem completed_attempt_is_settled:
  assumes "well_formed d" "complete state peer request es d = Some (Inr answer, d')"
  shows "answer \<and> settled request d' \<and> promoted request d' \<and> settled request (fold perform later d')"
proof -
  have verify: "replies well_formed (verify_each identity artifacts k) Q" if "replies well_formed k Q"
    for identity artifacts and k :: "bool handler" and Q
  proof (induction artifacts)
    case (Cons a artifacts)
    have "well_formed d'" if "run_tx (verify_artifact identity a now) d = (r, d')" "well_formed d" for now d r d'
      using coordinator.run_inv [of d "[Result (VerifyArtifact identity a now)]"] that by simp
    then show ?case unfolding verify_each.simps Let_def
      by (intro replies_intro stable_well_formed replies_store [where P' = "\<lambda>_. well_formed"] Cons.IH)
  qed (simp add: that)
  have "replies well_formed (complete state peer request) (\<lambda>answer d. answer \<and> settled request d \<and> promoted request d)"
    unfolding complete_def
    by (intro replies_intro stable_well_formed verify submit_terminal_settles)
  with assms have done1: "answer \<and> settled request d' \<and> promoted request d'" unfolding replies_def by blast
  moreover have "well_formed d'" using keepsD [OF sound.keeps_complete assms] .
  ultimately show ?thesis using stable_settled [of request] by (simp add: stable_def)
qed

section \<open>A sample service\<close>

text \<open>A token that spells out the signed bytes stands for an HMAC without collisions.\<close>

definition sample_signer :: lease_signer where
  "sample_signer = \<lparr>sg_key = replicate 32 7, sg_hmac_hex = (\<lambda>_. map (\<lambda>b. char_of (unat b)))\<rparr>"

definition sample_service :: fleet_service where
  "sample_service = \<lparr>fv_signer = sample_signer,
     fv_config = \<lparr>fg_heartbeat_seconds = 5, fg_lease_seconds = 30, fg_offer_seconds = 10, fg_session_seconds = 60,
       fg_long_poll_seconds = 20, fg_upload_grant_seconds = 600, fg_staging_gc_grace_seconds = 3600,
       fg_max_artifact_bytes = 1000000, fg_max_attempt_artifact_bytes = 1000000\<rparr>,
     fv_codec = \<lparr>cx_external = sample_codec, cx_artifacts_value = (\<lambda>_. JArray []), cx_block_validation_value = (\<lambda>_. JNull),
       cx_parse_json = (\<lambda>_. None), cx_parse_run = (\<lambda>_. None), cx_secs_to_us = (\<lambda>_. 0), cx_number_as_i64 = (\<lambda>_. None)\<rparr>\<rparr>"

definition sample_env :: "instant \<Rightarrow> env" where
  "sample_env now = \<lparr>e_others = [], e_connection = Connected, e_now = now, e_utc = now, e_monotonic = now,
     e_ids = \<lparr>id_claim_token = 20, id_attempt = 21, id_trace = 22\<rparr>, e_locked = (\<lambda>_. False), e_quiescing = False,
     e_polling = {}, e_artifacts = \<lparr>as_put_grant = (\<lambda>_ _ _ _. None), as_get_grant = (\<lambda>_ _. None),
       as_verify_upload = (\<lambda>_. True), as_promote_upload = (\<lambda>_. True), as_delete_staging = (\<lambda>_. True),
       as_read = (\<lambda>_. None)\<rparr>, e_mint_token = (\<lambda>_ _. None)\<rparr>"

definition signed_identity :: attempt_identity where
  "signed_identity = sample_identity\<lparr>ai_lease_token := issue sample_signer 1 2 6 1\<rparr>"

lemma sample_env_sel [simp]:
  "e_others (sample_env now) = []" "e_connection (sample_env now) = Connected" "e_now (sample_env now) = now"
  "e_monotonic (sample_env now) = now"
  by (simp_all add: sample_env_def)

lemma sample_service_sel [simp]:
  "fv_signer sample_service = sample_signer" "fg_lease_seconds (fv_config sample_service) = 30"
  "fg_long_poll_seconds (fv_config sample_service) = 20"
  "fg_max_attempt_artifact_bytes (fv_config sample_service) = 1000000" "cx_external (fv_codec sample_service) = sample_codec"
  by (simp_all add: sample_service_def)

lemmas program_eval = worker_rpc_def rpc_peer_def rpc_wire_def proceed_def answered_def for_attempt_def authorize_peer_def
  query_def await_def validated_def authorize_attempt_def store_def transact_def run_tx_def or_stale_def reply_def fail_def

lemma sample_collision_free: "collision_free sample_signer messages"
proof -
  have "inj (\<lambda>b :: u8. char_of (unat b))"
  proof (rule injI)
    fix a b :: u8 assume "char_of (unat a) = (char_of (unat b) :: char)"
    then have "of_char (char_of (unat a) :: char) = (of_char (char_of (unat b) :: char) :: nat)" by simp
    moreover have "unat a < 256" "unat b < 256" using unsigned_less [of a, where ?'a = nat] unsigned_less [of b, where ?'a = nat] by simp_all
    ultimately have "unat a = unat b" by simp
    then show "a = b" by (rule unsigned_word_eqI)
  qed
  then show ?thesis unfolding collision_free_def sample_signer_def by (simp add: inj_on_subset [OF inj_mapI])
qed

lemma signed_identity_ok [simp]: "validate_identity signed_identity = Inr ()" "verify sample_signer 1 signed_identity"
  by (simp_all add: validate_identity_def signed_identity_def sample_identity_def verify_def issue_def sample_signer_def
      signing_bytes_def i64_MAX_def)


theorem requests_are_answered_witness:
  "worker_rpc sample_service (Some sample_hash) (Inr (Poll 2))
     (replicate 4 (sample_env 50) @ replicate 6 (sample_env 20000050)) queued_db \<noteq> None"
  by (rule requests_are_answered [of _ 0]) (simp_all add: waits_def deadline_passes_def nth_append list_all_iff)

definition sample_beat :: heartbeat_request where
  "sample_beat = \<lparr>hb_identity = signed_identity, hb_reliable_buffer_len = 3\<rparr>"

lemma sample_peer [simp]:
  "authorize_worker sample_hash running_db = Inr (Some \<lparr>wz_worker_id = 1, wz_allowed_capabilities = [BuildOnly],
     wz_measurement_profile = None, wz_draining = False\<rparr>)"
  by (simp add: authorize_worker_def sample_states sample_rows capability_def and_then_def)

lemma sample_beat_commits:
  obtains beat d' where "heartbeat_attempt 1 signed_identity 30000000 (Some 3) 50 running_db = Commit (Some beat) d'"
  by (simp add: heartbeat_attempt_def Let_def sample_states sample_rows names_attempt_def attempt_authorized_def
      signed_identity_def sample_identity_def executing_def statement_eval table_checks live_session_def terminal_def as_i64_def)

theorem attempt_requests_are_authorized_witness:
  "\<exists>response d'. worker_rpc sample_service (Some sample_hash) (Inr (Heartbeat sample_beat)) [sample_env 50, sample_env 50] running_db
     = Some (Inr response, d')
   \<and> (\<exists>worker. authorize_worker sample_hash running_db = Inr (Some worker) \<and> wz_worker_id worker = 1)"
proof -
  obtain beat d' where "heartbeat_attempt 1 signed_identity 30000000 (Some 3) 50 running_db = Commit (Some beat) d'"
    by (rule sample_beat_commits)
  then obtain response where run: "worker_rpc sample_service (Some sample_hash) (Inr (Heartbeat sample_beat))
      [sample_env 50, sample_env 50] running_db = Some (Inr response, d')"
    by (simp add: program_eval heartbeat_def validate_heartbeat_def sample_beat_def and_then_def renew_lease_def chrono_duration_def)
  have "rpc_identity (Heartbeat sample_beat) = Some signed_identity" "ai_lease_token signed_identity = issue (fv_signer sample_service) 1 2 6 1"
    by (simp_all add: sample_beat_def signed_identity_def)
  from attempt_requests_are_authorized [OF this _ run] run sample_collision_free show ?thesis by auto
qed

section \<open>A sample completion\<close>

definition sample_completion :: complete_attempt_request where
  "sample_completion = \<lparr>ca_identity = signed_identity, ca_trace_id = 8, ca_terminal_reliable_seq = 1,
     ca_terminal_payload_digest = sample_hash, ca_outcome = Cancelled ''op'', ca_artifacts = []\<rparr>"

abbreviation "ended_db \<equiv> reported_db (Terminal sample_hash)"

lemma ended_well_formed: "well_formed ended_db"
proof -
  have "core_of ended_db = core_of running_db"
    by (simp add: core_of_def view_def reported_db_def sample_states sample_rows abs_attempt_def fun_eq_iff)
  then show ?thesis by (simp add: well_formed_def reported_schema_ok sample_coherent)
qed

lemma sample_completion_valid: "validate_complete_attempt sample_codec sample_completion = Inr ()"
proof -
  have "sha256 field sample_hash = Inr ()" for field
    by (simp add: sha256_def sample_hash_def is_ascii_hexdigit_def is_ascii_digit_def byte_of_def list_all_iff)
  then show ?thesis
    by (simp add: validate_complete_attempt_def sample_completion_def and_then_def i64_MAX_def validate_artifacts_def
        validate_terminal_outcome_def bounded_def MAX_TERMINAL_TEXT_BYTES_def sample_text payload_digest_def sample_codec_def
        canonical_json_bytes_def map_serialization_def)
qed

lemma sample_completion_peer:
  "authorize_worker sample_hash ended_db = Inr (Some \<lparr>wz_worker_id = 1, wz_allowed_capabilities = [BuildOnly],
     wz_measurement_profile = None, wz_draining = False\<rparr>)"
  by (simp add: authorize_worker_def reported_db_def sample_states sample_rows capability_def and_then_def)

lemma sample_completion_assignment:
  obtains offered where "completion_assignment 1 signed_identity ended_db = Inr (Some offered)"
    "wo_trace_id (oa_offer offered) = 8" "wo_job_id (oa_offer offered) = 5" "oa_payload offered = TaskBuildOnly"
  by (simp add: completion_assignment_def OFFER_SELECT_def offer_join_def transpose_row_def offer_from_row_def reported_eval
      signed_identity_def names_attempt_def attempt_authorized_def executing_def and_then_def capability_def Let_def List.map_filter_def)

lemma sample_completion_accepted:
  obtains d' where "accept_terminal sample_codec 1 signed_identity \<lparr>tm_reliable_seq = 1, tm_payload_digest = sample_hash,
      tm_outcome = Cancelled ''op'', tm_artifacts = [], tm_write = WriteCancelled ''op''\<rparr> 50 ended_db = Commit Accepted d'"
    "accepted_terminal_manifest 6 d' = Some []"
  by (simp add: accept_terminal_def reported_eval signed_identity_def names_attempt_def attempt_authorized_def
        executing_def terminal_def check_terminal_event_def statement_eval sample_codec_def payload_digest_def
        canonical_json_bytes_def and_then_def map_serialization_def affected_def check_verified_def commit_terminal_def statement_defs
        outcome_matches_def holds_claim_def persist_write_def insert_job_event_def settle_attempt_def release_after_terminal_def Let_def
        accepted_terminal_manifest_def)

theorem completed_attempt_is_settled_witness:
  "\<exists>d'. complete sample_service sample_hash sample_completion (replicate 6 (sample_env 50)) ended_db = Some (Inr True, d')
     \<and> settled sample_completion (fold perform [Attempt (ExpireStaleAttempts 200000000 (\<lambda>_. False))] d')"
proof -
  obtain offered where offered: "completion_assignment 1 signed_identity ended_db = Inr (Some offered)"
    "wo_trace_id (oa_offer offered) = 8" "wo_job_id (oa_offer offered) = 5" "oa_payload offered = TaskBuildOnly"
    by (rule sample_completion_assignment)
  obtain d' where accepted: "accept_terminal sample_codec 1 signed_identity \<lparr>tm_reliable_seq = 1, tm_payload_digest = sample_hash,
      tm_outcome = Cancelled ''op'', tm_artifacts = [], tm_write = WriteCancelled ''op''\<rparr> 50 ended_db = Commit Accepted d'"
    "accepted_terminal_manifest 6 d' = Some []"
    by (rule sample_completion_accepted)
  have fields: "ca_identity sample_completion = signed_identity" "ca_trace_id sample_completion = 8"
    "ca_terminal_reliable_seq sample_completion = 1" "ca_terminal_payload_digest sample_completion = sample_hash"
    "ca_outcome sample_completion = Cancelled ''op''" "ca_artifacts sample_completion = []" "ai_attempt_id signed_identity = 6"
    by (simp_all add: sample_completion_def signed_identity_def sample_identity_def)
  have "accepted_terminal_manifest 6 ended_db = None"
    by (simp add: accepted_terminal_manifest_def reported_db_def sample_rows terminal_def)
  then have run: "complete sample_service sample_hash sample_completion (replicate 6 (sample_env 50)) ended_db = Some (Inr True, d')"
    by (simp add: complete_def program_eval sample_completion_peer sample_completion_valid fields offered accepted
        validate_terminal_for_assignment_def submit_terminal_def terminal_write_def promote_artifacts_def
        mark_artifacts_promoted_def eval_nat_numeral Let_def)
  with completed_attempt_is_settled [OF ended_well_formed run] show ?thesis by blast
qed

end
