(* ===== verification/Worker_Lease.thy ===== *)
theory Worker_Lease
  imports Fleet_Store_Fencing
begin

text \<open>
  The worker's view of its lease (\<open>crates/sbgh-worker/src/lease.rs\<close> and the heartbeat loop of
  \<open>crates/sbgh-worker/src/fleet.rs\<close>): deadlines on the local monotonic clock that are never later than
  the expiry the daemon has stored. Monotonic instants and durations are nanoseconds, server times are
  milliseconds. What the loop learns from its environment is an argument: the instants at which it
  reads the clock, and for every awaited operation the sequence of polls of its future.

  The last section relates the local clock to the clock of the daemon and proves that a worker that
  still believes in its lease is not fenced by the expiry sweep.
\<close>

section \<open>Deadlines\<close>

type_synonym monotonic = int

text \<open>\<open>i64::saturating_sub\<close> and \<open>Duration::from_millis\<close>.\<close>

definition saturating_sub :: "int \<Rightarrow> int \<Rightarrow> int" where
  "saturating_sub a b = max (- (2 ^ 63)) (min (2 ^ 63 - 1) (a - b))"

definition from_millis :: "int \<Rightarrow> int" where
  "from_millis ms = ms * 1000000"

record server_clock =
  sk_started :: monotonic
  sk_server_time_ms :: int

definition clock_deadline :: "server_clock \<Rightarrow> int \<Rightarrow> monotonic" where
  "clock_deadline clock expires_at_ms =
     sk_started clock + from_millis (max (saturating_sub expires_at_ms (sk_server_time_ms clock)) 0)"

record lease =
  le_deadline :: monotonic
  le_ttl :: int
  le_clock :: server_clock

definition new_lease :: "monotonic \<Rightarrow> int \<Rightarrow> server_clock \<Rightarrow> lease" where
  "new_lease request_started ttl clock =
     \<lparr>le_deadline = request_started + ttl, le_ttl = ttl, le_clock = clock\<rparr>"

text \<open>\<open>Lease::renew\<close>: the result and the lease afterwards; \<open>now\<close> is the clock it reads.\<close>

definition renew :: "monotonic \<Rightarrow> monotonic \<Rightarrow> int \<Rightarrow> lease \<Rightarrow> bool \<times> lease" where
  "renew now request_started server_expiry_ms l =
     (let renewed = min (request_started + le_ttl l) (clock_deadline (le_clock l) server_expiry_ms)
      in if now \<ge> le_deadline l \<or> now \<ge> renewed then (False, l)
         else (True, l\<lparr>le_deadline := renewed\<rparr>))"

text \<open>
  \<open>Lease::during\<close> selects between cancellation, the deadline and the operation, in this order, each
  time it is polled. A poll records whether the token is cancelled, the clock, and what the operation
  has produced; \<open>None\<close> is an operation that is still awaited after the last poll.
\<close>

record 'a poll =
  pl_cancelled :: bool
  pl_now :: monotonic
  pl_ready :: "'a option"

fun during :: "lease \<Rightarrow> 'a poll list \<Rightarrow> 'a option option" where
  "during l [] = None"
| "during l (p # ps) =
     (if pl_cancelled p then Some None
      else if pl_now p \<ge> le_deadline l then Some None
      else case pl_ready p of Some a \<Rightarrow> Some (Some a) | None \<Rightarrow> during l ps)"

section \<open>Errors of the fleet client\<close>

text \<open>The error of a call, as \<open>anyhow\<close> carries it: a structured rejection or anything else.\<close>

record fleet_client_error =
  fe_path :: string
  fe_code :: string
  fe_message :: string
  fe_retryable :: bool
  fe_retry_after :: "int option"

datatype client_error = FleetClientError fleet_client_error | OtherError string

primrec is_non_retryable :: "client_error \<Rightarrow> bool" where
  "is_non_retryable (FleetClientError e) = (\<not> fe_retryable e)"
| "is_non_retryable (OtherError _) = False"

primrec has_fleet_code :: "client_error \<Rightarrow> string \<Rightarrow> bool" where
  "has_fleet_code (FleetClientError e) code = (fe_code e = code)"
| "has_fleet_code (OtherError _) code = False"

section \<open>The heartbeat loop\<close>

text \<open>The flags the loop shares with the execution, and its lease. \<open>hs_confirmed\<close> tells whether the
  one-shot channel has been used; \<open>hs_renewals\<close> lists the responses that renewed the lease, newest
  first, a record of the history that the code does not keep.\<close>

record heartbeat_state =
  hs_lease :: lease
  hs_cancelled :: bool
  hs_drain_requested :: bool
  hs_lease_lost :: bool
  hs_confirmed :: bool
  hs_renewals :: "heartbeat_response list"

text \<open>One turn of the loop as its environment answers it: the polls of the interval tick and of the
  call, and the clock at the start of the call and in \<open>renew\<close>.\<close>

record turn_input =
  ht_tick :: "unit poll list"
  ht_request_started :: monotonic
  ht_response :: "(client_error + heartbeat_response) poll list"
  ht_now :: monotonic

datatype turn_result = Awaiting heartbeat_state | Continues heartbeat_state | Broken heartbeat_state

definition heed :: "heartbeat_response \<Rightarrow> heartbeat_state \<Rightarrow> heartbeat_state" where
  "heed heartbeat st =
     (case hr_desired_state heartbeat of
        Continue \<Rightarrow> st
      | Cancel \<Rightarrow> st\<lparr>hs_cancelled := True\<rparr>
      | Drain \<Rightarrow> st\<lparr>hs_drain_requested := True\<rparr>)"

definition heartbeat_turn :: "turn_input \<Rightarrow> heartbeat_state \<Rightarrow> turn_result" where
  "heartbeat_turn t st =
     (case during (hs_lease st) (ht_tick t) of
        None \<Rightarrow> Awaiting st
      | Some None \<Rightarrow> Broken st
      | Some (Some _) \<Rightarrow>
     case during (hs_lease st) (ht_response t) of
        None \<Rightarrow> Awaiting st
      | Some None \<Rightarrow> Broken st
      | Some (Some (Inl error)) \<Rightarrow> if is_non_retryable error then Broken st else Continues st
      | Some (Some (Inr heartbeat)) \<Rightarrow>
          (case renew (ht_now t) (ht_request_started t) (hr_lease_expires_at_ms heartbeat) (hs_lease st) of
             (False, _) \<Rightarrow> Broken st
           | (True, l) \<Rightarrow>
               Continues ((heed heartbeat
                 (st\<lparr>hs_lease := l, hs_renewals := heartbeat # hs_renewals st\<rparr>))\<lparr>hs_confirmed := True\<rparr>)))"

text \<open>After the loop: unless it was told to stop, authority is lost and the execution is cancelled.\<close>

definition leave_loop :: "bool \<Rightarrow> heartbeat_state \<Rightarrow> heartbeat_state" where
  "leave_loop stop st = (if stop then st else st\<lparr>hs_lease_lost := True, hs_cancelled := True\<rparr>)"

fun heartbeat_loop :: "bool \<Rightarrow> turn_input list \<Rightarrow> heartbeat_state \<Rightarrow> turn_result" where
  "heartbeat_loop stop [] st = Awaiting st"
| "heartbeat_loop stop (t # ts) st =
     (case heartbeat_turn t st of
        Awaiting st' \<Rightarrow> Awaiting st'
      | Continues st' \<Rightarrow> heartbeat_loop stop ts st'
      | Broken st' \<Rightarrow> Broken (leave_loop stop st'))"

section \<open>The lease is conservative\<close>

text \<open>
  The daemon's clock as a function of the worker's monotonic clock, in nanoseconds: it is monotonic, it
  does not run faster than the local clock, and the time the daemon put into the registration response
  was read after the request was sent.
\<close>

definition tracks :: "(monotonic \<Rightarrow> int) \<Rightarrow> server_clock \<Rightarrow> bool" where
  "tracks server clock \<longleftrightarrow>
     (\<forall>m m'. m \<le> m' \<longrightarrow> server m \<le> server m' \<and> server m' - server m \<le> m' - m)
     \<and> (\<exists>r \<ge> sk_started clock. sk_server_time_ms clock = server r div 1000000)"

text \<open>A \<open>TIMESTAMPTZ\<close> of the daemon at a local instant.\<close>

definition database_now :: "(monotonic \<Rightarrow> int) \<Rightarrow> monotonic \<Rightarrow> instant" where
  "database_now server m = server m div 1000"

lemma clock_deadline_conservative:
  assumes "tracks server clock" "sk_started clock \<le> m" "m + from_millis 1 \<le> clock_deadline clock expires"
  shows "server m < expires * 1000000"
proof -
  obtain r where r: "sk_started clock \<le> r" "sk_server_time_ms clock = server r div 1000000"
    and mono: "\<And>x y. x \<le> y \<Longrightarrow> server x \<le> server y \<and> server y - server x \<le> y - x"
    using assms(1) by (auto simp: tracks_def)
  define R where "R = max (saturating_sub expires (sk_server_time_ms clock)) 0"
  have m: "m + 1000000 \<le> sk_started clock + R * 1000000"
    using assms(3) by (simp add: clock_deadline_def from_millis_def R_def)
  then have "0 < R" using assms(2) by linarith
  then have "R \<le> expires - sk_server_time_ms clock" by (simp add: R_def saturating_sub_def max_def min_def split: if_splits)
  then have expires: "(server r div 1000000 + R) * 1000000 \<le> expires * 1000000" by (simp add: r(2))
  have ms: "server r < (server r div 1000000 + 1) * 1000000" by presburger
  have "server m < (server r div 1000000 + R) * 1000000"
  proof (cases "r \<le> m")
    case True
    with mono [OF True] m r(1) ms show ?thesis by (simp add: algebra_simps)
  next
    case False
    then have "server m \<le> server r" using mono [of m r] by simp
    moreover have "(server r div 1000000 + 1) * 1000000 \<le> (server r div 1000000 + R) * 1000000"
      using \<open>0 < R\<close> by simp
    ultimately show ?thesis using ms by linarith
  qed
  with expires show ?thesis by linarith
qed

lemma renew_True:
  "renew now started expires l = (True, l') \<Longrightarrow>
     le_deadline l' \<le> clock_deadline (le_clock l') expires \<and> le_clock l' = le_clock l
     \<and> now < le_deadline l \<and> now < le_deadline l'"
  by (auto simp: renew_def Let_def split: if_splits)

text \<open>The deadline never passes the expiry of the last confirmation.\<close>

definition lease_inv :: "server_clock \<Rightarrow> heartbeat_state \<Rightarrow> bool" where
  "lease_inv clock st \<longleftrightarrow> le_clock (hs_lease st) = clock
     \<and> (case hs_renewals st of [] \<Rightarrow> True
        | heartbeat # _ \<Rightarrow> le_deadline (hs_lease st) \<le> clock_deadline clock (hr_lease_expires_at_ms heartbeat))"

primrec turn_state :: "turn_result \<Rightarrow> heartbeat_state" where
  "turn_state (Awaiting st) = st"
| "turn_state (Continues st) = st"
| "turn_state (Broken st) = st"

lemma heed_simps [simp]:
  "hs_lease (heed heartbeat st) = hs_lease st" "hs_renewals (heed heartbeat st) = hs_renewals st"
  by (simp_all add: heed_def split: desired_state.split)

lemma heartbeat_turn_cases:
  obtains "heartbeat_turn t st \<in> {Awaiting st, Broken st, Continues st}"
  | heartbeat l where "renew (ht_now t) (ht_request_started t) (hr_lease_expires_at_ms heartbeat) (hs_lease st) = (True, l)"
      "heartbeat_turn t st = Continues ((heed heartbeat
         (st\<lparr>hs_lease := l, hs_renewals := heartbeat # hs_renewals st\<rparr>))\<lparr>hs_confirmed := True\<rparr>)"
proof (cases "heartbeat_turn t st \<in> {Awaiting st, Broken st, Continues st}")
  case True
  then show ?thesis by (rule that(1))
next
  case False
  then obtain heartbeat l where
    "renew (ht_now t) (ht_request_started t) (hr_lease_expires_at_ms heartbeat) (hs_lease st) = (True, l)"
    "during (hs_lease st) (ht_response t) = Some (Some (Inr heartbeat))" "\<exists>u. during (hs_lease st) (ht_tick t) = Some (Some u)"
    by (auto simp: heartbeat_turn_def split: option.splits sum.splits prod.splits bool.splits if_splits)
  then show ?thesis by (intro that(2) [of heartbeat l]) (auto simp: heartbeat_turn_def)
qed

lemma lease_inv_turn: "lease_inv clock st \<Longrightarrow> lease_inv clock (turn_state (heartbeat_turn t st))"
proof (cases rule: heartbeat_turn_cases [of t st])
  case (2 heartbeat l)
  assume "lease_inv clock st"
  with renew_True [OF 2(1)] show ?thesis by (auto simp: 2(2) lease_inv_def)
qed auto

lemma lease_inv_leave: "lease_inv clock (leave_loop stop st) = lease_inv clock st"
  by (simp add: leave_loop_def lease_inv_def split: list.split)

lemma lease_inv_loop: "lease_inv clock st \<Longrightarrow> lease_inv clock (turn_state (heartbeat_loop stop ts st))"
proof (induction ts arbitrary: st)
  case Nil
  then show ?case by simp
next
  case (Cons t ts)
  have "lease_inv clock (turn_state (heartbeat_turn t st))" by (rule lease_inv_turn) (rule Cons.prems)
  then show ?case
    using Cons.IH by (cases "heartbeat_turn t st") (simp_all add: lease_inv_leave)
qed

text \<open>C40: A worker that still holds its lease is not fenced. While the heartbeat loop is running, at every instant at least a
  millisecond before the local deadline, the expiry sweep of the daemon leaves the attempt as it is, provided the daemon's
  clock does not outrun the worker's and the stored lease is not shorter than the one last confirmed to the worker.\<close>

theorem live_lease_is_not_fenced:
  assumes "heartbeat_loop stop turns st0 = Awaiting st" "hs_renewals st0 = []" "hs_renewals st = heartbeat # earlier"
    and "tracks server (le_clock (hs_lease st0))"
    and "sk_started (le_clock (hs_lease st0)) \<le> m" "m + from_millis 1 \<le> le_deadline (hs_lease st)"
    and "schema_ok d" "a \<in> set (db_attempts d)" "executing (wa_status a)"
    and "hr_lease_expires_at_ms heartbeat * 1000 \<le> wa_lease_expires_at a"
  shows "\<exists>n d'. expire_stale_attempts (database_now server m) locked d = Commit n d' \<and> a \<in> set (db_attempts d')"
proof -
  let ?clock = "le_clock (hs_lease st0)"
  have "lease_inv ?clock st0" using assms(2) by (simp add: lease_inv_def)
  from lease_inv_loop [OF this, of stop turns] assms(1,3)
  have "le_deadline (hs_lease st) \<le> clock_deadline ?clock (hr_lease_expires_at_ms heartbeat)"
    by (simp add: lease_inv_def)
  with assms(6) have "m + from_millis 1 \<le> clock_deadline ?clock (hr_lease_expires_at_ms heartbeat)" by simp
  from clock_deadline_conservative [OF assms(4,5) this]
  have "database_now server m < wa_lease_expires_at a" using assms(10) by (simp add: database_now_def)
  then have "\<not> stale (database_now server m) locked a"
    using assms(9) by (auto simp: stale_def executing_def)
  with assms(8) have "a \<in> set (update_where (stale (database_now server m) locked) expired (db_attempts d))"
    by (force simp: in_update_where)
  with expire_stale_runs [OF assms(7), of "database_now server m" locked] show ?thesis by auto
qed

theorem live_lease_is_not_fenced_witness:
  "\<exists>n d'. expire_stale_attempts (database_now (\<lambda>m. m) 5000000) (\<lambda>_. False) running_db = Commit n d'
     \<and> sample_attempt AttemptRunning \<in> set (db_attempts d')"
proof -
  define st0 :: heartbeat_state where "st0 = \<lparr>hs_lease = new_lease 0 (from_millis 50) \<lparr>sk_started = 0, sk_server_time_ms = 0\<rparr>,
    hs_cancelled = False, hs_drain_requested = False, hs_lease_lost = False, hs_confirmed = False, hs_renewals = []\<rparr>"
  define beat where "beat = \<lparr>hr_desired_state = Continue, hr_lease_expires_at_ms = 20, hr_highest_contiguous_reliable_seq = 0\<rparr>"
  define turn where "turn = \<lparr>ht_tick = [\<lparr>pl_cancelled = False, pl_now = 1, pl_ready = Some ()\<rparr>], ht_request_started = 1,
    ht_response = [\<lparr>pl_cancelled = False, pl_now = 2, pl_ready = None\<rparr>, \<lparr>pl_cancelled = False, pl_now = 3, pl_ready = Some (Inr beat)\<rparr>],
    ht_now = 3\<rparr>"
  define st where "st = st0\<lparr>hs_lease := \<lparr>le_deadline = 20000000, le_ttl = 50000000, le_clock = \<lparr>sk_started = 0, sk_server_time_ms = 0\<rparr>\<rparr>,
    hs_confirmed := True, hs_renewals := [beat]\<rparr>"
  have run: "heartbeat_loop False [turn] st0 = Awaiting st"
    by (simp add: st0_def st_def turn_def beat_def heartbeat_turn_def heed_def new_lease_def renew_def clock_deadline_def
        from_millis_def saturating_sub_def)
  have clock: "tracks (\<lambda>m. m) (le_clock (hs_lease st0))"
    by (auto simp: tracks_def st0_def new_lease_def intro!: exI [of _ 0])
  show ?thesis
    by (rule live_lease_is_not_fenced [OF run _ _ clock _ _ sample_schema_ok(3), where heartbeat = beat and earlier = "[]"])
      (simp_all add: st0_def st_def beat_def new_lease_def from_millis_def sample_states sample_attempt_def executing_def)
qed

end
