(* ===== verification/Spec2Isabelle.thy ===== *)
theory Spec2Isabelle
  imports Service_Promises Worker_Lease
begin

text \<open>
  A verification library for the worker fleet of stacks-bench-github. The header lists the parts of
  the program, the theory that models each of them and what is proved about it.
\<close>

end
